(* ===== verification/Prelude.thy ===== *)
theory Prelude
  imports Main "HOL-Library.Word"
begin

text \<open>
  Shared vocabulary of the development: the machine integer types of the C++ sources, byte
  strings, C++ exceptions as values, views into a buffer (\<open>subspan\<close>), copies into a buffer
  (\<open>blit\<close>), and the little-endian byte loops that both the framing and the handshake code
  write out by hand. The collection \<open>span_simps\<close> holds the rewrite rules about views and copies;
  \<open>bind_simps\<close> the rules that step through a computation that may throw.
\<close>

unbundle bit_operations_syntax

section \<open>Types\<close>

type_synonym u8 = "8 word"
type_synonym u16 = "16 word"
type_synonym u32 = "32 word"
type_synonym u64 = "64 word"
type_synonym size_t = "64 word"
type_synonym bytes = "u8 list"

named_theorems span_simps
named_theorems bind_simps

section \<open>Exceptions as values\<close>

text \<open>
  The C++ exception classes the program throws. \<open>System_error\<close> carries the errno value.
\<close>

datatype exn =
    Runtime_error string
  | Logic_error string
  | Invalid_argument string
  | System_error int string
  | Bad_alloc

type_synonym 'a result = "exn + 'a"

definition bindR :: "'a result \<Rightarrow> ('a \<Rightarrow> 'b result) \<Rightarrow> 'b result" where
  "bindR m f = (case m of Inl e \<Rightarrow> Inl e | Inr x \<Rightarrow> f x)"

lemma bindR_Inl [simp, bind_simps]: "bindR (Inl e) f = Inl e"
  by (simp add: bindR_def)

lemma bindR_Inr [simp, bind_simps]: "bindR (Inr x) f = f x"
  by (simp add: bindR_def)

lemma bindR_eq_Inr_conv [bind_simps]:
  "bindR m f = Inr y \<longleftrightarrow> (\<exists>x. m = Inr x \<and> f x = Inr y)"
  by (cases m) auto

lemma bindR_assoc: "bindR (bindR m f) g = bindR m (\<lambda>x. bindR (f x) g)"
  by (cases m) auto

section \<open>Views and copies\<close>

text \<open>
  \<open>subspan off n xs\<close> is \<^verbatim>\<open>xs.subspan(off, n)\<close>; \<open>blit off src out\<close> is the buffer \<open>out\<close> after
  \<^verbatim>\<open>std::copy(src.begin(), src.end(), out.begin() + off)\<close>. Both are only used where the code has
  established that the range lies inside the buffer, and then keep its length.
\<close>

definition subspan :: "nat \<Rightarrow> nat \<Rightarrow> 'a list \<Rightarrow> 'a list" where
  "subspan off n xs = take n (drop off xs)"

definition blit :: "nat \<Rightarrow> 'a list \<Rightarrow> 'a list \<Rightarrow> 'a list" where
  "blit off src out = take off out @ src @ drop (off + length src) out"

lemma length_subspan [simp, span_simps]: "length (subspan off n xs) = min n (length xs - off)"
  by (simp add: subspan_def)

lemma length_blit [simp, span_simps]:
  "off + length src \<le> length out \<Longrightarrow> length (blit off src out) = length out"
  by (simp add: blit_def)

lemma nth_subspan [span_simps]:
  "i < n \<Longrightarrow> off + i < length xs \<Longrightarrow> subspan off n xs ! i = xs ! (off + i)"
  by (simp add: subspan_def)

lemma nth_blit:
  "off + length src \<le> length out \<Longrightarrow> i < length out \<Longrightarrow>
   blit off src out ! i =
     (if i < off then out ! i else if i < off + length src then src ! (i - off) else out ! i)"
  by (auto simp: blit_def nth_append)

lemma nth_blit_before [span_simps]:
  "i < off \<Longrightarrow> off + length src \<le> length out \<Longrightarrow> blit off src out ! i = out ! i"
  by (simp add: nth_blit)

lemma subspan_blit_same [span_simps]:
  "off + length src \<le> length out \<Longrightarrow> n = length src \<Longrightarrow> subspan off n (blit off src out) = src"
  by (simp add: subspan_def blit_def)

lemma subspan_blit_before [span_simps]:
  "o' + n \<le> off \<Longrightarrow> off + length src \<le> length out \<Longrightarrow>
   subspan o' n (blit off src out) = subspan o' n out"
  by (rule nth_equalityI) (auto simp: nth_subspan nth_blit)

lemma subspan_blit_after [span_simps]:
  "off + length src \<le> o' \<Longrightarrow> off + length src \<le> length out \<Longrightarrow>
   subspan o' n (blit off src out) = subspan o' n out"
  by (rule nth_equalityI) (auto simp: nth_subspan nth_blit)

lemma subspan_take [span_simps]:
  "off + n \<le> m \<Longrightarrow> subspan off n (take m xs) = subspan off n xs"
  by (simp add: subspan_def take_drop min_def)

lemma take_blit_before [span_simps]:
  "n \<le> off \<Longrightarrow> off + length src \<le> length out \<Longrightarrow> take n (blit off src out) = take n out"
  by (simp add: blit_def min_def)

lemma take_blit_after [span_simps]:
  "off + length src \<le> n \<Longrightarrow> off + length src \<le> length out \<Longrightarrow>
   take n (blit off src out) = blit off src (take n out)"
  by (rule nth_equalityI) (auto simp: nth_blit)

lemma take_blit_exact:
  "off \<le> length out \<Longrightarrow> n = off + length src \<Longrightarrow> take n (blit off src out) = take off out @ src"
  by (simp add: blit_def)

lemma drop_blit_after [span_simps]:
  "off + length src \<le> n \<Longrightarrow> off + length src \<le> length out \<Longrightarrow>
   drop n (blit off src out) = drop n out"
  by (rule nth_equalityI) (auto simp: nth_blit)

lemma blit_subspan_same:
  "off + n \<le> length xs \<Longrightarrow> blit off (subspan off n xs) xs = xs"
  by (rule nth_equalityI) (auto simp: nth_blit nth_subspan min_def)

lemma subspan_append_subspan:
  "subspan off n xs @ subspan (off + n) m xs = subspan off (n + m) xs"
  by (simp add: subspan_def take_add [of n m] add.commute [of off n])

lemma take_subspan_append: "take n xs @ subspan n m xs = take (n + m) xs"
  by (simp add: subspan_def take_add)

lemma subspan_0 [span_simps]: "subspan 0 n xs = take n xs"
  by (simp add: subspan_def)

section \<open>Widening conversions\<close>

lemma unat_ucast_up:
  "LENGTH('a::len) \<le> LENGTH('b::len) \<Longrightarrow> unat (ucast (x :: 'a word) :: 'b word) = unat x"
  by (simp add: unsigned_ucast_eq take_bit_nat_eq_self order_less_le_trans [OF unsigned_less])

lemma unat_u8_less: "unat b < 256" for b :: u8
  using unsigned_less [of b] by simp

section \<open>Little-endian bytes of a machine word\<close>

text \<open>
  \<open>byte_at v i\<close> is the expression \<^verbatim>\<open>static_cast<uint8_t>((value >> (8 * i)) & 0xff)\<close> of the
  byte-writing loops; \<open>write_le\<close> is such a loop over \<open>n\<close> bytes starting at \<open>off\<close>, and
  \<open>read_le\<close> the loop \<^verbatim>\<open>value |= static_cast<T>(bytes[i]) << (8 * i)\<close>.
\<close>

definition byte_at :: "'a::len word \<Rightarrow> nat \<Rightarrow> u8" where
  "byte_at v i = ucast (drop_bit (8 * i) v AND 255)"

definition write_le :: "nat \<Rightarrow> nat \<Rightarrow> 'a::len word \<Rightarrow> bytes \<Rightarrow> bytes" where
  "write_le n off v out = fold (\<lambda>i b. b[off + i := byte_at v i]) [0..<n] out"

definition read_le :: "nat \<Rightarrow> bytes \<Rightarrow> 'a::len word" where
  "read_le n bs = fold (\<lambda>i acc. acc OR push_bit (8 * i) (ucast (bs ! i))) [0..<n] 0"

definition le_bytes :: "nat \<Rightarrow> 'a::len word \<Rightarrow> bytes" where
  "le_bytes n v = map (byte_at v) [0..<n]"

lemma length_le_bytes [simp, span_simps]: "length (le_bytes n v) = n"
  by (simp add: le_bytes_def)

lemma nth_le_bytes [simp]: "i < n \<Longrightarrow> le_bytes n v ! i = byte_at v i"
  by (simp add: le_bytes_def)

lemma word_255_mask: "(255 :: 'a::len word) = mask 8"
  by (simp add: mask_eq_exp_minus_1)

lemma bit_byte_at: "bit (byte_at v i) k \<longleftrightarrow> k < 8 \<and> bit v (8 * i + k)"
  for v :: "'a::len word"
  by (auto simp: byte_at_def bit_simps word_255_mask dest: bit_imp_le_length)

lemma write_le_blit:
  "off + n \<le> length out \<Longrightarrow> write_le n off v out = blit off (le_bytes n v) out"
proof (induction n)
  case 0
  then show ?case by (simp add: write_le_def le_bytes_def blit_def)
next
  case (Suc n)
  then have "write_le n off v out = blit off (le_bytes n v) out" by simp
  then have "write_le (Suc n) off v out = (blit off (le_bytes n v) out)[off + n := byte_at v n]"
    by (simp add: write_le_def)
  also have "\<dots> = blit off (le_bytes (Suc n) v) out"
    using Suc.prems by (intro nth_equalityI) (auto simp: nth_blit nth_list_update)
  finally show ?case .
qed

lemma bit_read_le:
  fixes k :: nat
  assumes "k < LENGTH('a::len)"
  shows "bit (read_le n bs :: 'a word) k \<longleftrightarrow> k div 8 < n \<and> bit (bs ! (k div 8)) (k mod 8)"
proof (induction n)
  case 0
  then show ?case by (simp add: read_le_def)
next
  case (Suc n)
  have step: "(read_le (Suc n) bs :: 'a word) = read_le n bs OR push_bit (8 * n) (ucast (bs ! n))"
    by (simp add: read_le_def)
  have "bit (push_bit (8 * n) (ucast (bs ! n) :: 'a word)) k \<longleftrightarrow> k div 8 = n \<and> bit (bs ! n) (k mod 8)"
  proof (cases "8 * n \<le> k \<and> k < 8 * n + 8")
    case True
    then have n: "k div 8 = n" by (intro div_nat_eqI) simp_all
    then have "k - 8 * n = k mod 8" using minus_mult_div_eq_mod [of k 8] by simp
    moreover have "k mod 8 < LENGTH('a)" using assms mod_less_eq_dividend le_less_trans by blast
    ultimately show ?thesis using True n assms by (simp add: bit_simps)
  next
    case False
    then have "k div 8 \<noteq> n" by auto
    with False show ?thesis by (auto simp: bit_simps dest: bit_imp_le_length)
  qed
  then show ?case unfolding step by (auto simp: bit_or_iff Suc.IH less_Suc_eq)
qed

text \<open>The two loops are inverse to each other, in both directions.\<close>

lemma read_le_le_bytes:
  assumes "8 * n = LENGTH('a::len)"
  shows "read_le n (le_bytes n (v :: 'a word)) = v"
proof (rule bit_word_eqI)
  fix k assume k: "k < LENGTH('a)"
  with assms have "k div 8 < n" by (simp add: less_mult_imp_div_less mult.commute)
  then show "bit (read_le n (le_bytes n v) :: 'a word) k = bit v k"
    by (simp add: bit_read_le [OF k] bit_byte_at)
qed

lemma le_bytes_read_le:
  assumes "8 * n = LENGTH('a::len)" and "length bs = n"
  shows "le_bytes n (read_le n bs :: 'a word) = bs"
proof (rule nth_equalityI)
  fix i assume "i < length (le_bytes n (read_le n bs :: 'a word))"
  then have i: "i < n" by simp
  show "le_bytes n (read_le n bs :: 'a word) ! i = bs ! i"
  proof (rule bit_word_eqI)
    fix k assume "k < LENGTH(8)"
    then have k: "k < 8" by simp
    with i assms(1) have "8 * i + k < LENGTH('a)" by simp
    with i k show "bit (le_bytes n (read_le n bs :: 'a word) ! i) k = bit (bs ! i) k"
      by (simp add: bit_byte_at bit_read_le)
  qed
qed (simp add: assms)

lemma le_bytes_inj:
  assumes "8 * n = LENGTH('a::len)" and "le_bytes n (v :: 'a word) = le_bytes n w"
  shows "v = w"
  by (metis assms read_le_le_bytes)

end
