(* ===== verification/Wire.thy ===== *)
theory Wire
  imports Prelude
begin

text \<open>
  The wire format, \<^verbatim>\<open>src/src/wire.h\<close> and \<^verbatim>\<open>src/src/wire.cpp\<close>: field sizes and offsets, the
  padding arithmetic, the four message structs, \<open>decode\<close>, the \<open>encode\<close> overloads, the position
  of the two MAC fields and the length check of the inner IPv4 packet.

  A span over received bytes is the list of its bytes. An encoder takes the caller's buffer and
  returns the buffer after the call together with the returned view (\<open>None\<close> for
  \<^verbatim>\<open>std::nullopt\<close>), so that what a failing call leaves in the buffer is visible. A mutable view
  into a message is its start offset.

  The locale \<open>message_codec\<close> states the contract every encoder shares with \<open>decode\<close>; it is
  interpreted for the four message types.
\<close>

section \<open>Sizes and offsets\<close>

datatype msg_type = handshake_initiation | handshake_response | cookie_reply | transport_data

fun type_byte :: "msg_type \<Rightarrow> u8" where
  "type_byte handshake_initiation = 1"
| "type_byte handshake_response = 2"
| "type_byte cookie_reply = 3"
| "type_byte transport_data = 4"

definition kPrefix :: nat where [simp]: "kPrefix = 4"
definition kIndexSize :: nat where [simp]: "kIndexSize = 4"
definition kCounterSize :: nat where [simp]: "kCounterSize = 8"
definition kPublicKeySize :: nat where [simp]: "kPublicKeySize = 32"
definition kTagSize :: nat where [simp]: "kTagSize = 16"
definition kMacSize :: nat where [simp]: "kMacSize = 16"
definition kTimestampSize :: nat where [simp]: "kTimestampSize = 12"
definition kCookieSize :: nat where [simp]: "kCookieSize = 16"
definition kCookieNonceSize :: nat where [simp]: "kCookieNonceSize = 24"

definition kEncryptedStaticSize :: nat where
  [simp]: "kEncryptedStaticSize = kPublicKeySize + kTagSize"
definition kEncryptedTimestampSize :: nat where
  [simp]: "kEncryptedTimestampSize = kTimestampSize + kTagSize"
definition kEncryptedNothingSize :: nat where
  [simp]: "kEncryptedNothingSize = kTagSize"
definition kEncryptedCookieSize :: nat where
  [simp]: "kEncryptedCookieSize = kCookieSize + kTagSize"

definition kInitiationSenderOffset :: nat where [simp]: "kInitiationSenderOffset = 4"
definition kInitiationEphemeralOffset :: nat where [simp]: "kInitiationEphemeralOffset = 8"
definition kInitiationStaticOffset :: nat where [simp]: "kInitiationStaticOffset = 40"
definition kInitiationTimestampOffset :: nat where [simp]: "kInitiationTimestampOffset = 88"
definition kInitiationMac1Offset :: nat where [simp]: "kInitiationMac1Offset = 116"
definition kInitiationMac2Offset :: nat where [simp]: "kInitiationMac2Offset = 132"
definition kInitiationSize :: nat where [simp]: "kInitiationSize = 148"

definition kResponseSenderOffset :: nat where [simp]: "kResponseSenderOffset = 4"
definition kResponseReceiverOffset :: nat where [simp]: "kResponseReceiverOffset = 8"
definition kResponseEphemeralOffset :: nat where [simp]: "kResponseEphemeralOffset = 12"
definition kResponseNothingOffset :: nat where [simp]: "kResponseNothingOffset = 44"
definition kResponseMac1Offset :: nat where [simp]: "kResponseMac1Offset = 60"
definition kResponseMac2Offset :: nat where [simp]: "kResponseMac2Offset = 76"
definition kResponseSize :: nat where [simp]: "kResponseSize = 92"

definition kCookieReceiverOffset :: nat where [simp]: "kCookieReceiverOffset = 4"
definition kCookieNonceOffset :: nat where [simp]: "kCookieNonceOffset = 8"
definition kCookieEncryptedOffset :: nat where [simp]: "kCookieEncryptedOffset = 32"
definition kCookieReplySize :: nat where [simp]: "kCookieReplySize = 64"

definition kTransportReceiverOffset :: nat where [simp]: "kTransportReceiverOffset = 4"
definition kTransportCounterOffset :: nat where [simp]: "kTransportCounterOffset = 8"
definition kTransportHeaderSize :: nat where [simp]: "kTransportHeaderSize = 16"
definition kTransportMinSize :: nat where
  [simp]: "kTransportMinSize = kTransportHeaderSize + kTagSize"

definition kDefaultTunnelMtu :: nat where [simp]: "kDefaultTunnelMtu = 1420"
definition kOuterOverhead :: nat where [simp]: "kOuterOverhead = 20 + 8"

section \<open>Padding arithmetic\<close>

definition padded_length :: "size_t \<Rightarrow> size_t" where
  "padded_length plaintext = (plaintext + 15) AND NOT 15"

definition max_datagram :: "size_t \<Rightarrow> size_t" where
  "max_datagram mtu = of_nat kTransportHeaderSize + padded_length mtu + of_nat kTagSize"

section \<open>What the compiler checks\<close>

text \<open>
  The static assertions of the header: every field of a message begins where the one before it ends,
  and the padding arithmetic gives the documented sizes.
\<close>

definition initiation_asserts :: bool where
  "initiation_asserts \<longleftrightarrow>
     kInitiationEphemeralOffset = kInitiationSenderOffset + kIndexSize \<and>
     kInitiationStaticOffset = kInitiationEphemeralOffset + kPublicKeySize \<and>
     kInitiationTimestampOffset = kInitiationStaticOffset + kEncryptedStaticSize \<and>
     kInitiationMac1Offset = kInitiationTimestampOffset + kEncryptedTimestampSize \<and>
     kInitiationMac2Offset = kInitiationMac1Offset + kMacSize \<and>
     kInitiationSize = kInitiationMac2Offset + kMacSize"

definition response_asserts :: bool where
  "response_asserts \<longleftrightarrow>
     kResponseReceiverOffset = kResponseSenderOffset + kIndexSize \<and>
     kResponseEphemeralOffset = kResponseReceiverOffset + kIndexSize \<and>
     kResponseNothingOffset = kResponseEphemeralOffset + kPublicKeySize \<and>
     kResponseMac1Offset = kResponseNothingOffset + kEncryptedNothingSize \<and>
     kResponseMac2Offset = kResponseMac1Offset + kMacSize \<and>
     kResponseSize = kResponseMac2Offset + kMacSize"

definition cookie_asserts :: bool where
  "cookie_asserts \<longleftrightarrow>
     kCookieNonceOffset = kCookieReceiverOffset + kIndexSize \<and>
     kCookieEncryptedOffset = kCookieNonceOffset + kCookieNonceSize \<and>
     kCookieReplySize = kCookieEncryptedOffset + kEncryptedCookieSize"

definition transport_asserts :: bool where
  "transport_asserts \<longleftrightarrow>
     kTransportCounterOffset = kTransportReceiverOffset + kIndexSize \<and>
     kTransportHeaderSize = kTransportCounterOffset + kCounterSize"

definition padding_asserts :: bool where
  "padding_asserts \<longleftrightarrow>
     padded_length 0 = 0 \<and> padded_length 1 = 16 \<and> padded_length 16 = 16 \<and> padded_length 1420 = 1424 \<and>
     max_datagram 1420 + of_nat kOuterOverhead = 1484"

section \<open>Messages\<close>

record HandshakeInitiation =
  hi_sender_index :: u32
  hi_ephemeral :: bytes
  hi_encrypted_static :: bytes
  hi_encrypted_timestamp :: bytes
  hi_mac1 :: bytes
  hi_mac2 :: bytes

record HandshakeResponse =
  hr_sender_index :: u32
  hr_receiver_index :: u32
  hr_ephemeral :: bytes
  hr_encrypted_nothing :: bytes
  hr_mac1 :: bytes
  hr_mac2 :: bytes

record CookieReply =
  cr_receiver_index :: u32
  cr_nonce :: bytes
  cr_encrypted_cookie :: bytes

record TransportData =
  td_receiver_index :: u32
  td_counter :: u64
  td_sealed :: bytes

datatype message =
    Msg_Initiation HandshakeInitiation
  | Msg_Response HandshakeResponse
  | Msg_Cookie CookieReply
  | Msg_Transport TransportData

text \<open>The extents that the fixed-size span types of the structs carry.\<close>

definition wf_HandshakeInitiation :: "HandshakeInitiation \<Rightarrow> bool" where
  "wf_HandshakeInitiation m \<longleftrightarrow>
     length (hi_ephemeral m) = kPublicKeySize \<and>
     length (hi_encrypted_static m) = kEncryptedStaticSize \<and>
     length (hi_encrypted_timestamp m) = kEncryptedTimestampSize \<and>
     length (hi_mac1 m) = kMacSize \<and> length (hi_mac2 m) = kMacSize"

definition wf_HandshakeResponse :: "HandshakeResponse \<Rightarrow> bool" where
  "wf_HandshakeResponse m \<longleftrightarrow>
     length (hr_ephemeral m) = kPublicKeySize \<and>
     length (hr_encrypted_nothing m) = kEncryptedNothingSize \<and>
     length (hr_mac1 m) = kMacSize \<and> length (hr_mac2 m) = kMacSize"

definition wf_CookieReply :: "CookieReply \<Rightarrow> bool" where
  "wf_CookieReply m \<longleftrightarrow>
     length (cr_nonce m) = kCookieNonceSize \<and>
     length (cr_encrypted_cookie m) = kEncryptedCookieSize"

definition wf_TransportData :: "TransportData \<Rightarrow> bool" where
  "wf_TransportData m \<longleftrightarrow> kTagSize \<le> length (td_sealed m)"

section \<open>Byte-level helpers\<close>

definition read_u32_le :: "bytes \<Rightarrow> u32" where
  "read_u32_le bs =
     ucast (bs ! 0) OR push_bit 8 (ucast (bs ! 1)) OR
     push_bit 16 (ucast (bs ! 2)) OR push_bit 24 (ucast (bs ! 3))"

definition read_u64_le :: "bytes \<Rightarrow> u64" where
  "read_u64_le bs = fold (\<lambda>i value. value OR push_bit (8 * i) (ucast (bs ! i))) [0..<8] 0"

definition write_u32_le :: "nat \<Rightarrow> u32 \<Rightarrow> bytes \<Rightarrow> bytes" where
  "write_u32_le off value out =
     fold (\<lambda>i b. b[off + i := ucast (drop_bit (8 * i) value AND 255)]) [0..<4] out"

definition write_u64_le :: "nat \<Rightarrow> u64 \<Rightarrow> bytes \<Rightarrow> bytes" where
  "write_u64_le off value out =
     fold (\<lambda>i b. b[off + i := ucast (drop_bit (8 * i) value AND 255)]) [0..<8] out"

definition write_prefix :: "bytes \<Rightarrow> msg_type \<Rightarrow> bytes" where
  "write_prefix out t = out[0 := type_byte t, 1 := 0, 2 := 0, 3 := 0]"

definition prefix_ok :: "bytes \<Rightarrow> bool" where
  "prefix_ok datagram \<longleftrightarrow>
     kPrefix \<le> length datagram \<and> datagram ! 1 = 0 \<and> datagram ! 2 = 0 \<and> datagram ! 3 = 0"

record MacOffsets =
  mo_mac1 :: nat
  mo_mac2 :: nat

definition mac_offsets :: "bytes \<Rightarrow> MacOffsets option" where
  "mac_offsets message =
     (if \<not> prefix_ok message then None
      else if message ! 0 = type_byte handshake_initiation \<and> length message = kInitiationSize
        then Some \<lparr>mo_mac1 = kInitiationMac1Offset, mo_mac2 = kInitiationMac2Offset\<rparr>
      else if message ! 0 = type_byte handshake_response \<and> length message = kResponseSize
        then Some \<lparr>mo_mac1 = kResponseMac1Offset, mo_mac2 = kResponseMac2Offset\<rparr>
      else None)"

section \<open>Decoding\<close>

definition decode :: "bytes \<Rightarrow> message option" where
  "decode datagram =
     (if \<not> prefix_ok datagram then None
      else if datagram ! 0 = type_byte handshake_initiation then
        (if length datagram \<noteq> kInitiationSize then None
         else Some (Msg_Initiation
           \<lparr>hi_sender_index = read_u32_le (subspan kInitiationSenderOffset kIndexSize datagram),
            hi_ephemeral = subspan kInitiationEphemeralOffset kPublicKeySize datagram,
            hi_encrypted_static = subspan kInitiationStaticOffset kEncryptedStaticSize datagram,
            hi_encrypted_timestamp =
              subspan kInitiationTimestampOffset kEncryptedTimestampSize datagram,
            hi_mac1 = subspan kInitiationMac1Offset kMacSize datagram,
            hi_mac2 = subspan kInitiationMac2Offset kMacSize datagram\<rparr>))
      else if datagram ! 0 = type_byte handshake_response then
        (if length datagram \<noteq> kResponseSize then None
         else Some (Msg_Response
           \<lparr>hr_sender_index = read_u32_le (subspan kResponseSenderOffset kIndexSize datagram),
            hr_receiver_index = read_u32_le (subspan kResponseReceiverOffset kIndexSize datagram),
            hr_ephemeral = subspan kResponseEphemeralOffset kPublicKeySize datagram,
            hr_encrypted_nothing = subspan kResponseNothingOffset kEncryptedNothingSize datagram,
            hr_mac1 = subspan kResponseMac1Offset kMacSize datagram,
            hr_mac2 = subspan kResponseMac2Offset kMacSize datagram\<rparr>))
      else if datagram ! 0 = type_byte cookie_reply then
        (if length datagram \<noteq> kCookieReplySize then None
         else Some (Msg_Cookie
           \<lparr>cr_receiver_index = read_u32_le (subspan kCookieReceiverOffset kIndexSize datagram),
            cr_nonce = subspan kCookieNonceOffset kCookieNonceSize datagram,
            cr_encrypted_cookie = subspan kCookieEncryptedOffset kEncryptedCookieSize datagram\<rparr>))
      else if datagram ! 0 = type_byte transport_data then
        (if length datagram < kTransportMinSize then None
         else Some (Msg_Transport
           \<lparr>td_receiver_index =
              read_u32_le (subspan kTransportReceiverOffset kIndexSize datagram),
            td_counter = read_u64_le (subspan kTransportCounterOffset kCounterSize datagram),
            td_sealed = drop kTransportHeaderSize datagram\<rparr>))
      else None)"

section \<open>Encoding\<close>

definition encode_initiation :: "bytes \<Rightarrow> HandshakeInitiation \<Rightarrow> bytes \<times> bytes option" where
  "encode_initiation out msg =
     (if length out < kInitiationSize then (out, None)
      else
        let out = write_prefix out handshake_initiation;
            out = write_u32_le kInitiationSenderOffset (hi_sender_index msg) out;
            out = blit kInitiationEphemeralOffset (hi_ephemeral msg) out;
            out = blit kInitiationStaticOffset (hi_encrypted_static msg) out;
            out = blit kInitiationTimestampOffset (hi_encrypted_timestamp msg) out;
            out = blit kInitiationMac1Offset (hi_mac1 msg) out;
            out = blit kInitiationMac2Offset (hi_mac2 msg) out
        in (out, Some (take kInitiationSize out)))"

definition encode_response :: "bytes \<Rightarrow> HandshakeResponse \<Rightarrow> bytes \<times> bytes option" where
  "encode_response out msg =
     (if length out < kResponseSize then (out, None)
      else
        let out = write_prefix out handshake_response;
            out = write_u32_le kResponseSenderOffset (hr_sender_index msg) out;
            out = write_u32_le kResponseReceiverOffset (hr_receiver_index msg) out;
            out = blit kResponseEphemeralOffset (hr_ephemeral msg) out;
            out = blit kResponseNothingOffset (hr_encrypted_nothing msg) out;
            out = blit kResponseMac1Offset (hr_mac1 msg) out;
            out = blit kResponseMac2Offset (hr_mac2 msg) out
        in (out, Some (take kResponseSize out)))"

definition encode_cookie :: "bytes \<Rightarrow> CookieReply \<Rightarrow> bytes \<times> bytes option" where
  "encode_cookie out msg =
     (if length out < kCookieReplySize then (out, None)
      else
        let out = write_prefix out cookie_reply;
            out = write_u32_le kCookieReceiverOffset (cr_receiver_index msg) out;
            out = blit kCookieNonceOffset (cr_nonce msg) out;
            out = blit kCookieEncryptedOffset (cr_encrypted_cookie msg) out
        in (out, Some (take kCookieReplySize out)))"

definition encode_transport_header :: "bytes \<Rightarrow> u32 \<Rightarrow> u64 \<Rightarrow> bytes \<times> bytes option" where
  "encode_transport_header out receiver_index counter =
     (if length out < kTransportHeaderSize then (out, None)
      else
        let out = write_prefix out transport_data;
            out = write_u32_le kTransportReceiverOffset receiver_index out;
            out = write_u64_le kTransportCounterOffset counter out
        in (out, Some (take kTransportHeaderSize out)))"

definition encode_transport :: "bytes \<Rightarrow> TransportData \<Rightarrow> bytes \<times> bytes option" where
  "encode_transport out msg =
     (if length (td_sealed msg) < kTagSize then (out, None)
      else
        let total = kTransportHeaderSize + length (td_sealed msg)
        in if length out < total then (out, None)
           else
             let out = fst (encode_transport_header out (td_receiver_index msg) (td_counter msg));
                 out = blit kTransportHeaderSize (td_sealed msg) out
             in (out, Some (take total out)))"

text \<open>Overload resolution of \<^verbatim>\<open>encode\<close> on the message type.\<close>

fun encode :: "bytes \<Rightarrow> message \<Rightarrow> bytes \<times> bytes option" where
  "encode out (Msg_Initiation m) = encode_initiation out m"
| "encode out (Msg_Response m) = encode_response out m"
| "encode out (Msg_Cookie m) = encode_cookie out m"
| "encode out (Msg_Transport m) = encode_transport out m"

fun wf_message :: "message \<Rightarrow> bool" where
  "wf_message (Msg_Initiation m) = wf_HandshakeInitiation m"
| "wf_message (Msg_Response m) = wf_HandshakeResponse m"
| "wf_message (Msg_Cookie m) = wf_CookieReply m"
| "wf_message (Msg_Transport m) = wf_TransportData m"

fun message_size :: "message \<Rightarrow> nat" where
  "message_size (Msg_Initiation m) = kInitiationSize"
| "message_size (Msg_Response m) = kResponseSize"
| "message_size (Msg_Cookie m) = kCookieReplySize"
| "message_size (Msg_Transport m) = kTransportHeaderSize + length (td_sealed m)"

section \<open>MAC inputs and fields\<close>

definition mac1_input :: "bytes \<Rightarrow> bytes option" where
  "mac1_input message =
     (case mac_offsets message of None \<Rightarrow> None | Some offsets \<Rightarrow> Some (take (mo_mac1 offsets) message))"

definition mac2_input :: "bytes \<Rightarrow> bytes option" where
  "mac2_input message =
     (case mac_offsets message of None \<Rightarrow> None | Some offsets \<Rightarrow> Some (take (mo_mac2 offsets) message))"

definition mac1_field :: "bytes \<Rightarrow> nat option" where
  "mac1_field message =
     (case mac_offsets message of None \<Rightarrow> None | Some offsets \<Rightarrow> Some (mo_mac1 offsets))"

definition mac2_field :: "bytes \<Rightarrow> nat option" where
  "mac2_field message =
     (case mac_offsets message of None \<Rightarrow> None | Some offsets \<Rightarrow> Some (mo_mac2 offsets))"

section \<open>The inner packet\<close>

definition kMinIpv4Header :: nat where [simp]: "kMinIpv4Header = 20"

definition inner_packet_length :: "bytes \<Rightarrow> nat option" where
  "inner_packet_length plaintext =
     (if length plaintext < kMinIpv4Header then None
      else
        let version = drop_bit 4 (plaintext ! 0)
        in if version \<noteq> 4 then None
           else
             let header_length = unat (ucast (plaintext ! 0 AND 15) * 4 :: size_t)
             in if header_length < kMinIpv4Header \<or> header_length > length plaintext then None
                else
                  let total_length =
                        unat (push_bit 8 (ucast (plaintext ! 2)) OR ucast (plaintext ! 3) :: size_t)
                  in if total_length < header_length \<or> total_length > length plaintext then None
                     else Some total_length)"

section \<open>Byte-level facts\<close>

lemma static_asserts: initiation_asserts response_asserts cookie_asserts transport_asserts padding_asserts
  by (simp_all add: initiation_asserts_def response_asserts_def cookie_asserts_def transport_asserts_def
      padding_asserts_def max_datagram_def padded_length_def)

lemma read_u64_le_eq: "read_u64_le bs = read_le 8 bs"
  by (simp add: read_u64_le_def read_le_def)

lemma read_u32_le_eq: "read_u32_le bs = read_le 4 bs"
  by (simp add: read_u32_le_def read_le_def upt_rec numeral_eq_Suc or.assoc)

lemma write_u32_le_eq: "write_u32_le off v out = write_le 4 off v out"
  by (simp add: write_u32_le_def write_le_def byte_at_def)

lemma write_u64_le_eq: "write_u64_le off v out = write_le 8 off v out"
  by (simp add: write_u64_le_def write_le_def byte_at_def)

lemma write_prefix_blit:
  "4 \<le> length out \<Longrightarrow> write_prefix out t = blit 0 [type_byte t, 0, 0, 0] out"
  by (rule nth_equalityI) (auto simp: write_prefix_def nth_blit nth_list_update nth_Cons' numeral_eq_Suc less_Suc_eq)

lemma read_u32_le_le_bytes [simp]: "read_u32_le (le_bytes 4 v) = v"
  by (simp add: read_u32_le_eq read_le_le_bytes)

lemma read_u64_le_le_bytes [simp]: "read_u64_le (le_bytes 8 v) = v"
  by (simp add: read_u64_le_eq read_le_le_bytes)

lemma le_bytes_read_u32_le [simp]: "length bs = 4 \<Longrightarrow> le_bytes 4 (read_u32_le bs) = bs"
  by (simp add: read_u32_le_eq le_bytes_read_le)

lemma le_bytes_read_u64_le [simp]: "length bs = 8 \<Longrightarrow> le_bytes 8 (read_u64_le bs) = bs"
  by (simp add: read_u64_le_eq le_bytes_read_le)

lemmas le_write_simps = write_prefix_blit write_u32_le_eq write_u64_le_eq write_le_blit

section \<open>The layouts\<close>

definition prefix_bytes :: "msg_type \<Rightarrow> bytes" where
  "prefix_bytes t = [type_byte t, 0, 0, 0]"

definition initiation_layout :: "HandshakeInitiation \<Rightarrow> bytes" where
  "initiation_layout m =
     prefix_bytes handshake_initiation @ le_bytes 4 (hi_sender_index m) @ hi_ephemeral m @
     hi_encrypted_static m @ hi_encrypted_timestamp m @ hi_mac1 m @ hi_mac2 m"

definition response_layout :: "HandshakeResponse \<Rightarrow> bytes" where
  "response_layout m =
     prefix_bytes handshake_response @ le_bytes 4 (hr_sender_index m) @
     le_bytes 4 (hr_receiver_index m) @ hr_ephemeral m @ hr_encrypted_nothing m @ hr_mac1 m @ hr_mac2 m"

definition cookie_layout :: "CookieReply \<Rightarrow> bytes" where
  "cookie_layout m =
     prefix_bytes cookie_reply @ le_bytes 4 (cr_receiver_index m) @ cr_nonce m @ cr_encrypted_cookie m"

definition transport_header_layout :: "u32 \<Rightarrow> u64 \<Rightarrow> bytes" where
  "transport_header_layout i c = prefix_bytes transport_data @ le_bytes 4 i @ le_bytes 8 c"

definition transport_layout :: "TransportData \<Rightarrow> bytes" where
  "transport_layout m = transport_header_layout (td_receiver_index m) (td_counter m) @ td_sealed m"

lemmas layout_defs = initiation_layout_def response_layout_def cookie_layout_def
  transport_layout_def transport_header_layout_def prefix_bytes_def

lemmas wf_defs = wf_HandshakeInitiation_def wf_HandshakeResponse_def wf_CookieReply_def
  wf_TransportData_def

lemma length_prefix_bytes [simp]: "length (prefix_bytes t) = 4"
  by (simp add: prefix_bytes_def)

lemma encode_initiation_fits:
  assumes "wf_HandshakeInitiation m" and "kInitiationSize \<le> length out"
  shows "encode_initiation out m =
    (initiation_layout m @ drop kInitiationSize out, Some (initiation_layout m))"
proof -
  let ?out = "fst (encode_initiation out m)"
  have t: "take 148 ?out = initiation_layout m"
    using assms by (simp add: encode_initiation_def wf_defs Let_def le_write_simps
        take_blit_exact layout_defs)
  have d: "drop 148 ?out = drop 148 out"
    using assms by (simp add: encode_initiation_def wf_defs Let_def le_write_simps drop_blit_after)
  from assms(2) have "snd (encode_initiation out m) = Some (take 148 ?out)"
    by (simp add: encode_initiation_def Let_def)
  then show ?thesis using t d append_take_drop_id [of 148 ?out]
    by (simp add: prod_eq_iff)
qed

lemma encode_response_fits:
  assumes "wf_HandshakeResponse m" and "kResponseSize \<le> length out"
  shows "encode_response out m =
    (response_layout m @ drop kResponseSize out, Some (response_layout m))"
proof -
  let ?out = "fst (encode_response out m)"
  have t: "take 92 ?out = response_layout m"
    using assms by (simp add: encode_response_def wf_defs Let_def le_write_simps
        take_blit_exact layout_defs)
  have d: "drop 92 ?out = drop 92 out"
    using assms by (simp add: encode_response_def wf_defs Let_def le_write_simps drop_blit_after)
  from assms(2) have "snd (encode_response out m) = Some (take 92 ?out)"
    by (simp add: encode_response_def Let_def)
  then show ?thesis using t d append_take_drop_id [of 92 ?out]
    by (simp add: prod_eq_iff)
qed

lemma encode_cookie_fits:
  assumes "wf_CookieReply m" and "kCookieReplySize \<le> length out"
  shows "encode_cookie out m = (cookie_layout m @ drop kCookieReplySize out, Some (cookie_layout m))"
proof -
  let ?out = "fst (encode_cookie out m)"
  have t: "take 64 ?out = cookie_layout m"
    using assms by (simp add: encode_cookie_def wf_defs Let_def le_write_simps
        take_blit_exact layout_defs)
  have d: "drop 64 ?out = drop 64 out"
    using assms by (simp add: encode_cookie_def wf_defs Let_def le_write_simps drop_blit_after)
  from assms(2) have "snd (encode_cookie out m) = Some (take 64 ?out)"
    by (simp add: encode_cookie_def Let_def)
  then show ?thesis using t d append_take_drop_id [of 64 ?out]
    by (simp add: prod_eq_iff)
qed

lemma encode_transport_header_fits:
  assumes "kTransportHeaderSize \<le> length out"
  shows "encode_transport_header out i c =
    (transport_header_layout i c @ drop kTransportHeaderSize out, Some (transport_header_layout i c))"
proof -
  let ?out = "fst (encode_transport_header out i c)"
  have t: "take 16 ?out = transport_header_layout i c"
    using assms by (simp add: encode_transport_header_def Let_def le_write_simps
        take_blit_exact layout_defs)
  have d: "drop 16 ?out = drop 16 out"
    using assms by (simp add: encode_transport_header_def Let_def le_write_simps drop_blit_after)
  from assms have "snd (encode_transport_header out i c) = Some (take 16 ?out)"
    by (simp add: encode_transport_header_def Let_def)
  then show ?thesis using t d append_take_drop_id [of 16 ?out]
    by (simp add: prod_eq_iff)
qed

lemma length_transport_header_layout [simp]: "length (transport_header_layout i c) = 16"
  by (simp add: layout_defs)

lemma encode_transport_fits:
  assumes "wf_TransportData m" and "kTransportHeaderSize + length (td_sealed m) \<le> length out"
  shows "encode_transport out m =
    (transport_layout m @ drop (kTransportHeaderSize + length (td_sealed m)) out,
     Some (transport_layout m))"
proof -
  let ?h = "transport_header_layout (td_receiver_index m) (td_counter m)"
  have "encode_transport out m =
     (let out' = blit 16 (td_sealed m) (?h @ drop 16 out)
      in (out', Some (take (16 + length (td_sealed m)) out')))"
    using assms by (simp add: encode_transport_def wf_defs Let_def encode_transport_header_fits)
  then show ?thesis using assms by (simp add: blit_def transport_layout_def add.commute)
qed

section \<open>Decoding a layout\<close>

lemma prefix_ok_layout [simp]: "prefix_ok (prefix_bytes t @ xs)"
  by (simp add: prefix_ok_def prefix_bytes_def)

lemma nth_0_prefix_bytes [simp]: "(prefix_bytes t @ xs) ! 0 = type_byte t"
  by (simp add: prefix_bytes_def)

lemma take_4_prefix_ok: "prefix_ok d \<Longrightarrow> d ! 0 = type_byte t \<Longrightarrow> take 4 d = prefix_bytes t"
  by (rule nth_equalityI) (auto simp: prefix_ok_def prefix_bytes_def less_Suc_eq numeral_eq_Suc)

lemma decode_initiation_layout:
  "wf_HandshakeInitiation m \<Longrightarrow> decode (initiation_layout m) = Some (Msg_Initiation m)"
  by (simp add: decode_def initiation_layout_def wf_defs subspan_def)

lemma decode_response_layout:
  "wf_HandshakeResponse m \<Longrightarrow> decode (response_layout m) = Some (Msg_Response m)"
  by (simp add: decode_def response_layout_def wf_defs subspan_def)

lemma decode_cookie_layout:
  "wf_CookieReply m \<Longrightarrow> decode (cookie_layout m) = Some (Msg_Cookie m)"
  by (simp add: decode_def cookie_layout_def wf_defs subspan_def)

lemma decode_transport_layout:
  "wf_TransportData m \<Longrightarrow> decode (transport_layout m) = Some (Msg_Transport m)"
  by (simp add: decode_def transport_layout_def transport_header_layout_def wf_defs subspan_def)

lemmas subspans_join = append_assoc [symmetric] take_subspan_append

lemma initiation_layout_decode:
  assumes "decode d = Some (Msg_Initiation m)"
  shows "wf_HandshakeInitiation m \<and> initiation_layout m = d"
  using assms
  by (auto simp: decode_def wf_defs initiation_layout_def take_4_prefix_ok [symmetric]
      subspans_join simp del: append_assoc split: if_splits)

lemma response_layout_decode:
  assumes "decode d = Some (Msg_Response m)"
  shows "wf_HandshakeResponse m \<and> response_layout m = d"
  using assms
  by (auto simp: decode_def wf_defs response_layout_def take_4_prefix_ok [symmetric]
      subspans_join simp del: append_assoc split: if_splits)

lemma cookie_layout_decode:
  assumes "decode d = Some (Msg_Cookie m)"
  shows "wf_CookieReply m \<and> cookie_layout m = d"
  using assms
  by (auto simp: decode_def wf_defs cookie_layout_def take_4_prefix_ok [symmetric]
      subspans_join simp del: append_assoc split: if_splits)

lemma transport_layout_decode:
  assumes "decode d = Some (Msg_Transport m)"
  shows "wf_TransportData m \<and> transport_layout m = d"
  using assms
  by (auto simp: decode_def wf_defs transport_layout_def transport_header_layout_def
      take_4_prefix_ok [symmetric] subspans_join simp del: append_assoc split: if_splits)

section \<open>The contract between the encoders and \<open>decode\<close>\<close>

locale message_codec =
  fixes enc :: "bytes \<Rightarrow> 'm \<Rightarrow> bytes \<times> bytes option"
    and layout :: "'m \<Rightarrow> bytes"
    and wf :: "'m \<Rightarrow> bool"
    and wrap :: "'m \<Rightarrow> message"
  assumes enc_fits: "wf m \<Longrightarrow> length (layout m) \<le> length out \<Longrightarrow>
      enc out m = (layout m @ drop (length (layout m)) out, Some (layout m))"
    and enc_short: "wf m \<Longrightarrow> length out < length (layout m) \<Longrightarrow> enc out m = (out, None)"
    and decode_layout: "wf m \<Longrightarrow> decode (layout m) = Some (wrap m)"
    and layout_decode: "decode d = Some (wrap m) \<Longrightarrow> wf m \<and> layout m = d"
begin

lemma enc_decode:
  assumes "wf m" and "length (layout m) \<le> length out"
  shows "\<exists>d. snd (enc out m) = Some d \<and> length d = length (layout m) \<and> decode d = Some (wrap m)"
  using assms by (simp add: enc_fits decode_layout)

lemma decode_enc:
  assumes "decode d = Some (wrap m)" and "length d \<le> length out"
  shows "snd (enc out m) = Some d"
  using assms layout_decode [OF assms(1)] by (auto simp: enc_fits)

lemma decode_canonical:
  "decode d = Some (wrap m) \<Longrightarrow> decode d' = Some (wrap m) \<Longrightarrow> d = d'"
  using layout_decode by metis

lemma enc_None_iff: "wf m \<Longrightarrow> snd (enc out m) = None \<longleftrightarrow> length out < length (layout m)"
  by (cases "length (layout m) \<le> length out") (simp_all add: enc_fits enc_short)

lemma enc_frame:
  assumes "wf m"
  shows "length (fst (enc out m)) = length out"
    and "drop (length (layout m)) (fst (enc out m)) = drop (length (layout m)) out"
    and "snd (enc out m) = None \<Longrightarrow> fst (enc out m) = out"
  using assms by (cases "length (layout m) \<le> length out"; simp add: enc_fits enc_short)+

end

lemma length_initiation_layout [simp]:
  "wf_HandshakeInitiation m \<Longrightarrow> length (initiation_layout m) = kInitiationSize"
  by (simp add: initiation_layout_def wf_defs)

lemma length_response_layout [simp]:
  "wf_HandshakeResponse m \<Longrightarrow> length (response_layout m) = kResponseSize"
  by (simp add: response_layout_def wf_defs)

lemma length_cookie_layout [simp]:
  "wf_CookieReply m \<Longrightarrow> length (cookie_layout m) = kCookieReplySize"
  by (simp add: cookie_layout_def wf_defs)

lemma length_transport_layout [simp]:
  "length (transport_layout m) = kTransportHeaderSize + length (td_sealed m)"
  by (simp add: transport_layout_def)

interpretation initiation_codec: message_codec
  encode_initiation initiation_layout wf_HandshakeInitiation Msg_Initiation
  by unfold_locales
    (simp_all add: encode_initiation_fits decode_initiation_layout initiation_layout_decode,
     simp add: encode_initiation_def)

interpretation response_codec: message_codec
  encode_response response_layout wf_HandshakeResponse Msg_Response
  by unfold_locales
    (simp_all add: encode_response_fits decode_response_layout response_layout_decode,
     simp add: encode_response_def)

interpretation cookie_codec: message_codec
  encode_cookie cookie_layout wf_CookieReply Msg_Cookie
  by unfold_locales
    (simp_all add: encode_cookie_fits decode_cookie_layout cookie_layout_decode,
     simp add: encode_cookie_def)

interpretation transport_codec: message_codec
  encode_transport transport_layout wf_TransportData Msg_Transport
  by unfold_locales
    (simp_all add: encode_transport_fits decode_transport_layout transport_layout_decode,
     simp add: encode_transport_def Let_def)

fun message_layout :: "message \<Rightarrow> bytes" where
  "message_layout (Msg_Initiation m) = initiation_layout m"
| "message_layout (Msg_Response m) = response_layout m"
| "message_layout (Msg_Cookie m) = cookie_layout m"
| "message_layout (Msg_Transport m) = transport_layout m"

lemma length_message_layout [simp]: "wf_message m \<Longrightarrow> length (message_layout m) = message_size m"
  by (cases m) simp_all

interpretation any_codec: message_codec encode message_layout wf_message "\<lambda>m. m"
proof
  fix m :: message and out :: bytes
  assume "wf_message m" and "length (message_layout m) \<le> length out"
  then show "encode out m =
      (message_layout m @ drop (length (message_layout m)) out, Some (message_layout m))"
    by (cases m) (simp_all only: wf_message.simps message_layout.simps encode.simps
      initiation_codec.enc_fits response_codec.enc_fits cookie_codec.enc_fits transport_codec.enc_fits)
next
  fix m :: message and out :: bytes
  assume "wf_message m" and "length out < length (message_layout m)"
  then show "encode out m = (out, None)"
    by (cases m) (simp_all only: wf_message.simps message_layout.simps encode.simps
      initiation_codec.enc_short response_codec.enc_short cookie_codec.enc_short
      transport_codec.enc_short)
next
  fix m assume "wf_message m"
  then show "decode (message_layout m) = Some m"
    by (cases m) (simp_all add: initiation_codec.decode_layout response_codec.decode_layout
      cookie_codec.decode_layout transport_codec.decode_layout)
next
  fix d m assume "decode d = Some m"
  then show "wf_message m \<and> message_layout m = d"
    by (cases m) (simp_all add: initiation_codec.layout_decode response_codec.layout_decode
      cookie_codec.layout_decode transport_codec.layout_decode)
qed

section \<open>Padding\<close>

lemma and_not_15: "x AND NOT 15 = push_bit 4 (drop_bit 4 x)" for x :: "'a::len word"
proof -
  have "(15 :: 'a word) = mask 4" by (simp add: mask_eq_exp_minus_1)
  then have "x AND NOT 15 = x AND NOT (mask 4)" by simp
  also have "\<dots> = push_bit 4 (drop_bit 4 x)"
    by (rule bit_word_eqI) (auto simp: bit_simps dest: bit_imp_le_length)
  finally show ?thesis .
qed

lemma unat_padded_length:
  assumes "unat n + 15 < 2 ^ 64"
  shows "unat (padded_length n) = (unat n + 15) div 16 * 16"
proof -
  have s: "unat (n + 15) = unat n + 15"
    using assms by (subst unat_add_lem [THEN iffD1]) simp_all
  have "unat (push_bit 4 (drop_bit 4 (n + 15))) = (unat (n + 15) div 16 * 16) mod 2 ^ 64"
    by (simp add: push_bit_eq_mult unat_word_ariths(2) unat_div drop_bit_eq_div)
  also have "\<dots> = (unat n + 15) div 16 * 16"
    unfolding s using assms
    by (intro mod_less) (rule order_le_less_trans [OF div_times_less_eq_dividend])
  finally show ?thesis unfolding padded_length_def and_not_15 .
qed

lemma padded_length_wraps: "2 ^ 64 \<le> unat n + 15 \<Longrightarrow> padded_length n = 0"
proof -
  assume a: "2 ^ 64 \<le> unat n + 15"
  have "unat n < 2 ^ 64" using unsigned_less [of n] by simp
  with a have "unat (n + 15) = unat n + 15 - 2 ^ 64"
    by (simp add: unat_word_ariths(1) mod_if)
  with \<open>unat n < 2 ^ 64\<close> have "unat (n + 15) < 16" by simp
  then have "unat (drop_bit 4 (n + 15)) = 0"
    by (simp add: drop_bit_eq_div unat_div)
  then have "drop_bit 4 (n + 15) = 0" by (simp add: unsigned_eq_0_iff)
  then show "padded_length n = 0" unfolding padded_length_def and_not_15 by simp
qed

lemma padded_length_props:
  assumes "unat n + 15 < 2 ^ 64"
  shows "16 dvd unat (padded_length n)" "unat n \<le> unat (padded_length n)"
    "unat (padded_length n) < unat n + 16"
  using unat_padded_length [OF assms] by simp_all

section \<open>The inner packet\<close>

lemma unat_ihl: "unat (ucast (b AND 15) * 4 :: size_t) = 4 * (unat b mod 16)" for b :: u8
proof -
  have "b AND 15 = take_bit 4 b"
    by (simp add: take_bit_eq_mask mask_eq_exp_minus_1)
  then have "unat (b AND 15) = unat b mod 16"
    by (simp add: take_bit_eq_mod unat_mod)
  then have "unat (ucast (b AND 15) :: size_t) = unat b mod 16"
    by (simp add: unat_ucast_up)
  moreover have "unat b mod 16 < 16" by simp
  ultimately show ?thesis by (simp add: unat_word_ariths(2))
qed

lemma unat_be16: "unat (push_bit 8 (ucast a) OR ucast b :: size_t) = 256 * unat a + unat b"
  for a b :: u8
proof -
  have "push_bit 8 (ucast a) OR ucast b = (push_bit 8 (ucast a) + ucast b :: size_t)"
    by (rule disjunctive_add [symmetric]) (auto simp: bit_simps dest: bit_imp_le_length)
  moreover have l: "unat a < 256" "unat b < 256"
    using unsigned_less [of a] unsigned_less [of b] by simp_all
  moreover from l have "unat (ucast a :: size_t) = unat a" "unat (ucast b :: size_t) = unat b"
    by (simp_all add: unat_ucast_up)
  ultimately show ?thesis
    by (simp add: push_bit_eq_mult unat_word_ariths)
qed

lemma version_eq: "drop_bit 4 b = (4 :: u8) \<longleftrightarrow> unat b div 16 = 4" for b :: u8
  by (simp add: drop_bit_eq_div word_unat_eq_iff unat_div)

lemma inner_packet_length_Some_iff:
  "inner_packet_length p = Some n \<longleftrightarrow>
     20 \<le> length p \<and> unat (p ! 0) div 16 = 4 \<and> 5 \<le> unat (p ! 0) mod 16 \<and>
     n = 256 * unat (p ! 2) + unat (p ! 3) \<and>
     4 * (unat (p ! 0) mod 16) \<le> n \<and> n \<le> length p"
  unfolding inner_packet_length_def Let_def unat_ihl unat_be16 version_eq
  by auto

lemma inner_packet_length_bounds:
  "inner_packet_length p = Some n \<Longrightarrow> 20 \<le> n \<and> n \<le> length p"
  by (auto simp: inner_packet_length_Some_iff)

section \<open>MAC fields\<close>

lemma mac_offsets_Some:
  "mac_offsets m = Some x \<Longrightarrow> 
    mo_mac1 x + kMacSize = mo_mac2 x \<and> mo_mac2 x + kMacSize = length m \<and> 4 \<le> mo_mac1 x"
  by (auto simp: mac_offsets_def split: if_splits)

lemma mac_offsets_blit:
  assumes "4 \<le> off" and "off + length src \<le> length m"
  shows "mac_offsets (blit off src m) = mac_offsets m"
  using assms by (simp add: mac_offsets_def prefix_ok_def nth_blit_before)

lemma mac1_input_layout:
   "decode d = Some (Msg_Initiation i) \<Longrightarrow> mac1_input d = Some (take kInitiationMac1Offset d)"
   "decode d = Some (Msg_Response r) \<Longrightarrow> mac1_input d = Some (take kResponseMac1Offset d)"
  by (auto simp: mac1_input_def mac_offsets_def decode_def split: if_splits)


section \<open>Properties\<close>

text \<open>
  C13: Encoding a well-formed message into a large enough buffer succeeds, produces exactly the
  message's size, and decoding the produced bytes gives the message back.
\<close>
theorem decode_encode:
  assumes "wf_message m" and "message_size m \<le> length out"
  shows "\<exists>d. snd (encode out m) = Some d \<and> length d = message_size m \<and> decode d = Some m"
  using any_codec.enc_decode [of m out] assms by simp

theorem decode_encode_witness:
  "\<exists>d. snd (encode (replicate 40 9) (Msg_Transport \<lparr>td_receiver_index = 7, td_counter = 5,
          td_sealed = replicate 16 1\<rparr>)) = Some d \<and> length d = 32 \<and>
        decode d = Some (Msg_Transport \<lparr>td_receiver_index = 7, td_counter = 5,
          td_sealed = replicate 16 1\<rparr>)"
  using decode_encode [of "Msg_Transport \<lparr>td_receiver_index = 7, td_counter = 5,
          td_sealed = replicate 16 1\<rparr>" "replicate 40 9"]
  by (simp add: wf_defs)

text \<open>
  C14: The format is canonical: a datagram that decodes is well formed, has exactly the size of its
  message, and re-encoding the decoded message reproduces it byte for byte.
\<close>
theorem encode_decode:
  assumes "decode d = Some m"
  shows "wf_message m \<and> length d = message_size m \<and>
         (length d \<le> length out \<longrightarrow> snd (encode out m) = Some d)"
  using any_codec.layout_decode [OF assms] any_codec.decode_enc [OF assms] by auto

theorem encode_decode_witness:
  "snd (encode (replicate 32 0) (Msg_Transport \<lparr>td_receiver_index = 7, td_counter = 5,
          td_sealed = replicate 16 0\<rparr>)) = Some ([4, 0, 0, 0, 7, 0, 0, 0, 5] @ replicate 23 0)"
proof -
  have "decode ([4, 0, 0, 0, 7, 0, 0, 0, 5] @ replicate 23 0) =
      Some (Msg_Transport \<lparr>td_receiver_index = 7, td_counter = 5, td_sealed = replicate 16 0\<rparr>)"
    by code_simp
  from encode_decode [OF this, of "replicate 32 0"] show ?thesis by simp
qed

text \<open>
  An encoder never resizes the buffer and never touches a byte behind the message; it fails
  exactly when the buffer is too small, and then has written nothing.
\<close>
theorem encode_frame:
  assumes "wf_message m"
  shows "length (fst (encode out m)) = length out \<and>
         drop (message_size m) (fst (encode out m)) = drop (message_size m) out \<and>
         (snd (encode out m) = None \<longleftrightarrow> length out < message_size m) \<and>
         (snd (encode out m) = None \<longrightarrow> fst (encode out m) = out)"
  using any_codec.enc_frame [OF assms, of out] any_codec.enc_None_iff [OF assms, of out] assms
  by simp

theorem encode_frame_witness:
  "fst (encode [1, 2, 3] (Msg_Cookie \<lparr>cr_receiver_index = 1, cr_nonce = replicate 24 0,
      cr_encrypted_cookie = replicate 32 0\<rparr>)) = [1, 2, 3]"
  using encode_frame [of "Msg_Cookie \<lparr>cr_receiver_index = 1, cr_nonce = replicate 24 0,
      cr_encrypted_cookie = replicate 32 0\<rparr>" "[1, 2, 3]"]
  by (simp add: wf_defs)

text \<open>
  The decoder accepts exactly the datagrams with a zero reserved field, a known type and the
  length of that type (the minimum length for transport data), and rejects everything else.
\<close>
theorem decode_accepts_iff:
  "decode d \<noteq> None \<longleftrightarrow>
     4 \<le> length d \<and> d ! 1 = 0 \<and> d ! 2 = 0 \<and> d ! 3 = 0 \<and>
     (d ! 0 = 1 \<and> length d = 148 \<or> d ! 0 = 2 \<and> length d = 92 \<or>
      d ! 0 = 3 \<and> length d = 64 \<or> d ! 0 = 4 \<and> 32 \<le> length d)"
  by (auto simp: decode_def prefix_ok_def)

text \<open>
  For every length up to \<open>2^64 - 16\<close> the padded length is the least multiple of 16 that is not
  below it; above that the 64-bit sum wraps and the result is 0.
\<close>
theorem padded_length_spec:
  "(unat n + 15 < 2 ^ 64 \<longrightarrow>
      16 dvd unat (padded_length n) \<and> unat n \<le> unat (padded_length n) \<and>
      unat (padded_length n) < unat n + 16) \<and>
   (2 ^ 64 \<le> unat n + 15 \<longrightarrow> padded_length n = 0)"
  using padded_length_props padded_length_wraps by blast

theorem padded_length_spec_witness:
  "16 dvd unat (padded_length 1420) \<and> unat (1420 :: size_t) \<le> unat (padded_length 1420) \<and>
   padded_length 18446744073709551615 = 0"
  using padded_length_spec [of 1420] padded_length_spec [of 18446744073709551615] by simp

text \<open>
  The length taken from the inner header is returned exactly for an IPv4 packet whose header
  length field covers the mandatory header, whose total length covers that header, and which lies
  inside the decrypted bytes; no other input yields a length.
\<close>
theorem inner_packet_length_iff:
  "inner_packet_length p = Some n \<longleftrightarrow>
     20 \<le> length p \<and> unat (p ! 0) div 16 = 4 \<and> 5 \<le> unat (p ! 0) mod 16 \<and>
     n = 256 * unat (p ! 2) + unat (p ! 3) \<and>
     4 * (unat (p ! 0) mod 16) \<le> n \<and> n \<le> length p"
  by (rule inner_packet_length_Some_iff)

text \<open>
  On the two handshake messages the MAC accessors give the bytes before the respective field
  and the position of the field the decoder reads; on the other messages they give nothing.
\<close>
theorem mac_fields:
  assumes "decode d = Some m"
  shows "case m of
      Msg_Initiation i \<Rightarrow> mac1_input d = Some (take 116 d) \<and> mac2_input d = Some (take 132 d) \<and>
        mac1_field d = Some 116 \<and> mac2_field d = Some 132 \<and>
        subspan 116 16 d = hi_mac1 i \<and> subspan 132 16 d = hi_mac2 i
    | Msg_Response r \<Rightarrow> mac1_input d = Some (take 60 d) \<and> mac2_input d = Some (take 76 d) \<and>
        mac1_field d = Some 60 \<and> mac2_field d = Some 76 \<and>
        subspan 60 16 d = hr_mac1 r \<and> subspan 76 16 d = hr_mac2 r
    | _ \<Rightarrow> mac1_input d = None \<and> mac2_input d = None \<and> mac1_field d = None \<and> mac2_field d = None"
  using assms
  by (auto simp: mac1_input_def mac2_input_def mac1_field_def mac2_field_def mac_offsets_def
      decode_def split: if_splits)

theorem mac_fields_witness:
  "mac1_input ([2, 0, 0, 0] @ replicate 88 0) = Some ([2, 0, 0, 0] @ replicate 56 0)"
proof -
  obtain r where r: "decode ([2, 0, 0, 0] @ replicate 88 0) = Some (Msg_Response r)"
    by (simp add: decode_def prefix_ok_def)
  from mac_fields [OF r] show ?thesis by simp
qed

end
