(* ===== verification/Replay_Window.thy ===== *)
theory Replay_Window
  imports Prelude
begin

text \<open>
  The sliding replay window, class \<^verbatim>\<open>ReplayWindow\<close> of \<^verbatim>\<open>src/src/session.h\<close> and
  \<^verbatim>\<open>src/src/session.cpp\<close>: a bitmap of 128 words of 64 bits indexed by the counter modulo 8192, the
  high-water mark and the flag that says whether any counter was accepted yet.

  The clearing loop of \<open>accept\<close> runs on a 64-bit counter, so it is a partial function: \<open>None\<close>
  means that the loop does not end. The specification is a filter that remembers every counter it
  ever accepted; the locale \<open>replay_filter\<close> states what it means to implement that filter with
  bounded memory, proves the consequences once, and is interpreted for \<open>ReplayWindow\<close>.
\<close>

section \<open>The class\<close>

definition kRejectAfterMessages :: u64 where
  "kRejectAfterMessages = NOT 0 - push_bit 13 1"

definition kRekeyAfterMessages :: u64 where
  "kRekeyAfterMessages = push_bit 60 1"

definition kBits :: nat where [simp]: "kBits = 8192"

definition kWords :: nat where [simp]: "kWords = kBits div 64"

record ReplayWindow =
  rw_bitmap :: "u64 list"
  rw_highest :: u64
  rw_seen :: bool

definition ReplayWindow_init :: ReplayWindow where
  "ReplayWindow_init = \<lparr>rw_bitmap = replicate kWords 0, rw_highest = 0, rw_seen = False\<rparr>"

definition rw_bit :: "ReplayWindow \<Rightarrow> u64 \<Rightarrow> bool" where
  "rw_bit w counter =
     (let index = unat (counter mod of_nat kBits)
      in drop_bit (index mod 64) (rw_bitmap w ! (index div 64)) AND 1 \<noteq> 0)"

definition rw_set_bit :: "ReplayWindow \<Rightarrow> u64 \<Rightarrow> ReplayWindow" where
  "rw_set_bit w counter =
     (let index = unat (counter mod of_nat kBits); i = index div 64
      in w\<lparr>rw_bitmap := (rw_bitmap w)[i := rw_bitmap w ! i OR push_bit (index mod 64) 1]\<rparr>)"

definition rw_clear_bit :: "ReplayWindow \<Rightarrow> u64 \<Rightarrow> ReplayWindow" where
  "rw_clear_bit w counter =
     (let index = unat (counter mod of_nat kBits); i = index div 64
      in w\<lparr>rw_bitmap := (rw_bitmap w)[i := rw_bitmap w ! i AND NOT (push_bit (index mod 64) 1)]\<rparr>)"

definition acceptable :: "ReplayWindow \<Rightarrow> u64 \<Rightarrow> bool" where
  "acceptable w counter =
     (if counter \<ge> kRejectAfterMessages then False
      else if \<not> rw_seen w then True
      else if counter > rw_highest w then True
      else if rw_highest w - counter \<ge> of_nat kBits then False
      else \<not> rw_bit w counter)"

text \<open>The loop \<^verbatim>\<open>for (uint64_t c = highest_ + 1; c <= counter; ++c) clear_bit(c)\<close>.\<close>

partial_function (option) clear_loop :: "u64 \<Rightarrow> u64 \<Rightarrow> ReplayWindow \<Rightarrow> ReplayWindow option" where
  "clear_loop c counter w =
     (if c \<le> counter then clear_loop (c + 1) counter (rw_clear_bit w c) else Some w)"

definition accept :: "ReplayWindow \<Rightarrow> u64 \<Rightarrow> ReplayWindow option" where
  "accept w counter =
     (if \<not> rw_seen w then
        Some (rw_set_bit (w\<lparr>rw_seen := True, rw_highest := counter,
                            rw_bitmap := replicate kWords 0\<rparr>) counter)
      else if counter > rw_highest w then
        let advance = counter - rw_highest w
        in case (if advance \<ge> of_nat kBits then Some (w\<lparr>rw_bitmap := replicate kWords 0\<rparr>)
                 else clear_loop (rw_highest w + 1) counter w) of
             None \<Rightarrow> None
           | Some w' \<Rightarrow> Some (rw_set_bit (w'\<lparr>rw_highest := counter\<rparr>) counter)
      else Some (rw_set_bit w counter))"

text \<open>
  Feeding a sequence of counters through the window the way \<open>Session::open\<close> does: query, and
  commit only when the query says yes. The result lists the counters that were let through.
\<close>

fun feed :: "('w \<Rightarrow> u64 \<Rightarrow> bool) \<Rightarrow> ('w \<Rightarrow> u64 \<Rightarrow> 'w option) \<Rightarrow> 'w \<Rightarrow> u64 list \<Rightarrow> ('w \<times> u64 list) option" where
  "feed ok commit w [] = Some (w, [])"
| "feed ok commit w (c # cs) =
     (if ok w c then
        (case commit w c of None \<Rightarrow> None
         | Some w' \<Rightarrow> map_option (\<lambda>(w'', ds). (w'', c # ds)) (feed ok commit w' cs))
      else feed ok commit w cs)"

section \<open>Bits of the bitmap\<close>

definition slot :: "u64 \<Rightarrow> nat" where
  "slot c = unat c mod 8192"

lemma slot_less [simp]: "slot c < 8192"
  by (simp add: slot_def)

lemma slot_div [simp]: "slot c div 64 < 128"
  using slot_less [of c] by (simp add: div_less_iff_less_mult del: slot_less)

lemma unat_mod_kBits: "unat (c mod of_nat kBits) = slot c"
  by (simp add: slot_def unat_mod)

lemma and_1_drop_bit: "(drop_bit n x AND 1 \<noteq> 0) = bit x n" for x :: "'a::len word"
  by (simp add: bit_iff_odd_drop_bit and_one_eq odd_iff_mod_2_eq_one)

lemma rw_bit_iff: "rw_bit w c = bit (rw_bitmap w ! (slot c div 64)) (slot c mod 64)"
  unfolding rw_bit_def Let_def unat_mod_kBits and_1_drop_bit ..

lemma slot_eq_iff: "slot c = slot d \<longleftrightarrow> slot c div 64 = slot d div 64 \<and> slot c mod 64 = slot d mod 64"
  by (metis div_mult_mod_eq)

definition bitmap_ok :: "ReplayWindow \<Rightarrow> bool" where
  "bitmap_ok w \<longleftrightarrow> length (rw_bitmap w) = kWords"

lemma rw_bit_set: "bitmap_ok w \<Longrightarrow> rw_bit (rw_set_bit w c) x \<longleftrightarrow> slot x = slot c \<or> rw_bit w x"
  unfolding rw_set_bit_def Let_def unat_mod_kBits
  by (auto simp: rw_bit_iff bitmap_ok_def nth_list_update bit_simps slot_eq_iff)

lemma rw_bit_clear: "bitmap_ok w \<Longrightarrow> rw_bit (rw_clear_bit w c) x \<longleftrightarrow> slot x \<noteq> slot c \<and> rw_bit w x"
  unfolding rw_clear_bit_def Let_def unat_mod_kBits
  by (auto simp: rw_bit_iff bitmap_ok_def nth_list_update bit_simps slot_eq_iff)

lemma rw_bit_zero: "rw_bitmap w = replicate kWords 0 \<Longrightarrow> \<not> rw_bit w x"
  by (simp add: rw_bit_iff)

lemma rw_set_bit_simps [simp]:
  "rw_highest (rw_set_bit w c) = rw_highest w" "rw_seen (rw_set_bit w c) = rw_seen w"
  "bitmap_ok (rw_set_bit w c) = bitmap_ok w"
  by (simp_all add: rw_set_bit_def Let_def bitmap_ok_def)

lemma rw_clear_bit_simps [simp]:
  "rw_highest (rw_clear_bit w c) = rw_highest w" "rw_seen (rw_clear_bit w c) = rw_seen w"
  "bitmap_ok (rw_clear_bit w c) = bitmap_ok w"
  by (simp_all add: rw_clear_bit_def Let_def bitmap_ok_def)

section \<open>The clearing loop\<close>

lemma unat_not_max: "c \<noteq> - 1 \<Longrightarrow> unat c < 2 ^ 64 - 1" for c :: u64
proof -
  assume "c \<noteq> - 1"
  then have "unat c \<noteq> unat (- 1 :: u64)" by (simp only: word_unat_eq_iff not_False_eq_True)
  moreover have "unat (- 1 :: u64) = 2 ^ 64 - 1" by (simp add: unsigned_minus_1_eq_mask mask_eq_exp_minus_1)
  moreover have "unat c < 2 ^ 64" using unsigned_less [of c] by simp
  ultimately show ?thesis by linarith
qed

lemma unat_succ: "counter \<noteq> - 1 \<Longrightarrow> c \<le> counter \<Longrightarrow> unat (c + 1) = unat c + 1" for c counter :: u64
  using unat_not_max [of counter] by (simp add: word_le_nat_alt unat_word_ariths(1))

lemma clear_loop_returns:
  assumes "counter \<noteq> - 1" and "bitmap_ok w"
  shows "\<exists>w'. clear_loop c counter w = Some w' \<and> bitmap_ok w' \<and>
           rw_highest w' = rw_highest w \<and> rw_seen w' = rw_seen w \<and>
           (\<forall>x. rw_bit w' x \<longleftrightarrow>
              rw_bit w x \<and> (\<forall>d. c \<le> d \<and> d \<le> counter \<longrightarrow> slot x \<noteq> slot d))"
  using assms(2)
proof (induction "unat counter + 1 - unat c" arbitrary: c w rule: less_induct)
  case less
  show ?case
  proof (cases "c \<le> counter")
    case False
    then have "clear_loop c counter w = Some w" by (simp add: clear_loop.simps)
    with False less.prems show ?thesis by (auto dest: order_trans)
  next
    case True
    with assms(1) have s: "unat (c + 1) = unat c + 1" by (rule unat_succ)
    with True have "unat counter + 1 - unat (c + 1) < unat counter + 1 - unat c"
      by (simp add: word_le_nat_alt)
    from less.hyps [OF this, of "rw_clear_bit w c"] less.prems
    obtain w' where w': "clear_loop (c + 1) counter (rw_clear_bit w c) = Some w'" "bitmap_ok w'"
      "rw_highest w' = rw_highest w" "rw_seen w' = rw_seen w"
      "\<And>x. rw_bit w' x \<longleftrightarrow> rw_bit (rw_clear_bit w c) x \<and>
          (\<forall>d. c + 1 \<le> d \<and> d \<le> counter \<longrightarrow> slot x \<noteq> slot d)"
      by auto
    have range: "c \<le> d \<longleftrightarrow> d = c \<or> c + 1 \<le> d" for d
      by (auto simp: word_le_nat_alt s word_unat_eq_iff)
    have "clear_loop c counter w = Some w'"
      using True w'(1) by (subst clear_loop.simps) simp
    moreover have "rw_bit w' x \<longleftrightarrow>
        rw_bit w x \<and> (\<forall>d. c \<le> d \<and> d \<le> counter \<longrightarrow> slot x \<noteq> slot d)" for x
      using True less.prems by (auto simp: w'(5) rw_bit_clear range)
    ultimately show ?thesis using w'(2-4) by blast
  qed
qed

lemma clear_loop_diverges: "clear_loop c (- 1) w = None"
proof (rule ccontr)
  assume "clear_loop c (- 1) w \<noteq> None"
  then obtain r where r: "clear_loop c (- 1) w = Some r" by auto
  have "(- 1 :: u64) \<noteq> - 1"
  proof (rule clear_loop.raw_induct [where P = "\<lambda>c counter w r. counter \<noteq> - 1", OF _ r])
    fix f c counter w r
    assume IH: "\<And>c counter w r. f c counter w = Some r \<Longrightarrow> counter \<noteq> - 1"
      and eq: "(if c \<le> counter then f (c + 1) counter (rw_clear_bit w c) else Some w) = Some r"
    show "counter \<noteq> - 1"
    proof (cases "c \<le> counter")
      case True
      with eq show ?thesis by (intro IH) simp
    next
      case False
      then show ?thesis by auto
    qed
  qed
  then show False by simp
qed

section \<open>The specification: a filter that remembers everything\<close>

text \<open>
  \<open>fresh H c\<close> is what a receiver with unbounded memory would accept after having accepted exactly
  the counters in \<open>H\<close>: a counter below the reject limit that it has not accepted before and that is
  not 8192 or more behind a counter it has accepted.
\<close>

definition fresh :: "u64 set \<Rightarrow> u64 \<Rightarrow> bool" where
  "fresh H c \<longleftrightarrow> c < kRejectAfterMessages \<and> c \<notin> H \<and> (\<forall>h\<in>H. unat h < unat c + kBits)"

locale replay_filter =
  fixes start :: 'w
    and ok :: "'w \<Rightarrow> u64 \<Rightarrow> bool"
    and commit :: "'w \<Rightarrow> u64 \<Rightarrow> 'w option"
    and tracks :: "'w \<Rightarrow> u64 set \<Rightarrow> bool"
  assumes tracks_start: "tracks start {}"
    and tracks_ok: "tracks w H \<Longrightarrow> ok w c \<longleftrightarrow> fresh H c"
    and tracks_commit: "tracks w H \<Longrightarrow> ok w c \<Longrightarrow> \<exists>w'. commit w c = Some w' \<and> tracks w' (insert c H)"
begin

lemma feed_tracks:
  assumes "tracks w H"
  shows "\<exists>w' ds. feed ok commit w cs = Some (w', ds) \<and> tracks w' (H \<union> set ds) \<and>
           distinct ds \<and> set ds \<inter> H = {}"
  using assms
proof (induction cs arbitrary: w H)
  case Nil
  then show ?case by simp
next
  case (Cons c cs)
  show ?case
  proof (cases "ok w c")
    case True
    with Cons.prems obtain w1 where w1: "commit w c = Some w1" "tracks w1 (insert c H)"
      using tracks_commit by blast
    from Cons.IH [OF w1(2)] obtain w' ds where
      "feed ok commit w1 cs = Some (w', ds)" "tracks w' (insert c H \<union> set ds)"
      "distinct ds" "set ds \<inter> insert c H = {}" by blast
    moreover have "c \<notin> H" using True tracks_ok [OF Cons.prems] by (simp add: fresh_def)
    ultimately show ?thesis using True w1(1) by auto
  next
    case False
    with Cons.IH [OF Cons.prems] show ?thesis by simp
  qed
qed

lemma feed_start:
  "\<exists>w ds. feed ok commit start cs = Some (w, ds) \<and> tracks w (set ds) \<and> distinct ds"
  using feed_tracks [OF tracks_start, of cs] by auto

lemma feed_never_twice:
  assumes "feed ok commit start cs = Some (w, ds)" and "c \<in> set ds"
  shows "\<not> ok w c"
proof -
  from feed_start [of cs] assms(1) have "tracks w (set ds)" by auto
  from tracks_ok [OF this, of c] assms(2) show ?thesis by (simp add: fresh_def)
qed

lemma feed_exact:
  assumes "feed ok commit start cs = Some (w, ds)"
  shows "ok w c \<longleftrightarrow> fresh (set ds) c"
  using feed_start [of cs] assms tracks_ok by auto

lemma feed_all:
  assumes "tracks w H" and "distinct cs" and "set cs \<inter> H = {}"
    and "\<forall>c\<in>set cs. c < kRejectAfterMessages"
    and "\<forall>a\<in>H \<union> set cs. \<forall>b\<in>set cs. unat a < unat b + kBits"
  shows "\<exists>w'. feed ok commit w cs = Some (w', cs)"
  using assms
proof (induction cs arbitrary: w H)
  case Nil
  then show ?case by simp
next
  case (Cons c cs)
  have "ok w c" using Cons.prems by (auto simp: tracks_ok [OF Cons.prems(1)] fresh_def)
  with Cons.prems(1) obtain w1 where w1: "commit w c = Some w1" "tracks w1 (insert c H)"
    using tracks_commit by blast
  have "\<exists>w'. feed ok commit w1 cs = Some (w', cs)"
    using Cons.prems by (intro Cons.IH [OF w1(2)]) auto
  with \<open>ok w c\<close> w1(1) show ?case by auto
qed

end

section \<open>The window implements the specification\<close>

definition window_tracks :: "ReplayWindow \<Rightarrow> u64 set \<Rightarrow> bool" where
  "window_tracks w H \<longleftrightarrow>
     bitmap_ok w \<and>
     (if rw_seen w then
        rw_highest w \<in> H \<and> rw_highest w < kRejectAfterMessages \<and> (\<forall>h\<in>H. h \<le> rw_highest w) \<and>
        (\<forall>c. c \<le> rw_highest w \<longrightarrow> unat (rw_highest w) < unat c + kBits \<longrightarrow> (rw_bit w c \<longleftrightarrow> c \<in> H))
      else H = {})"

lemma kRejectAfterMessages_value: "kRejectAfterMessages = 0xffffffffffffdfff"
  by (simp add: kRejectAfterMessages_def)

lemma below_limit_not_max: "c < kRejectAfterMessages \<Longrightarrow> c \<noteq> - 1"
  by (auto simp: kRejectAfterMessages_value)

lemma slot_eq_near:
  assumes "slot x = slot y" and "unat x \<le> unat y" and "unat y < unat x + 8192"
  shows "x = y"
proof -
  from assms(1) have "8192 dvd unat y - unat x"
    unfolding slot_def by (metis mod_eq_dvd_iff_nat assms(2))
  with assms(2,3) have "unat y - unat x = 0" by (auto dest: dvd_imp_le)
  with assms(2) show ?thesis by (simp add: word_unat_eq_iff)
qed

lemma window_tracks_acceptable:
  assumes "window_tracks w H"
  shows "acceptable w c \<longleftrightarrow> fresh H c"
proof (cases "rw_seen w")
  case False
  with assms show ?thesis by (auto simp: acceptable_def fresh_def window_tracks_def)
next
  case True
  let ?h = "rw_highest w"
  from True assms have h: "?h \<in> H" "\<And>x. x \<in> H \<Longrightarrow> x \<le> ?h"
    and bits: "\<And>c. c \<le> ?h \<Longrightarrow> unat ?h < unat c + 8192 \<Longrightarrow> rw_bit w c \<longleftrightarrow> c \<in> H"
    by (auto simp: window_tracks_def)
  have all: "(\<forall>x\<in>H. unat x < unat c + 8192) \<longleftrightarrow> unat ?h < unat c + 8192"
    using h by (meson le_less_trans word_le_nat_alt)
  show ?thesis
  proof (cases "c > ?h")
    case True
    then have "c \<notin> H" and "unat ?h < unat c + 8192"
      using h(2) [of c] by (auto simp: word_less_nat_alt word_le_nat_alt)
    with True \<open>rw_seen w\<close> show ?thesis by (auto simp: acceptable_def fresh_def all)
  next
    case False
    then have le: "c \<le> ?h" by simp
    then have "unat (?h - c) = unat ?h - unat c" by (simp add: unat_sub)
    with le have "?h - c \<ge> of_nat kBits \<longleftrightarrow> \<not> unat ?h < unat c + 8192"
      by (auto simp: word_le_nat_alt)
    with le False \<open>rw_seen w\<close> bits [OF le] show ?thesis
      by (auto simp: acceptable_def fresh_def all)
  qed
qed

lemma accept_unseen:
  assumes "window_tracks w H" and "\<not> rw_seen w" and "c < kRejectAfterMessages"
  shows "\<exists>w'. accept w c = Some w' \<and> window_tracks w' (insert c H)"
proof -
  let ?w = "w\<lparr>rw_seen := True, rw_highest := c, rw_bitmap := replicate kWords 0\<rparr>"
  have "bitmap_ok ?w" by (simp add: bitmap_ok_def)
  moreover have "x \<le> c \<Longrightarrow> unat c < unat x + 8192 \<Longrightarrow> slot x = slot c \<longleftrightarrow> x = c" for x
    using slot_eq_near [of x c] by (auto simp: word_le_nat_alt)
  ultimately have "window_tracks (rw_set_bit ?w c) {c}"
    using assms(3) by (auto simp: window_tracks_def rw_bit_set rw_bit_zero)
  with assms show ?thesis by (simp add: accept_def window_tracks_def)
qed

lemma accept_inside:
  assumes "window_tracks w H" and "rw_seen w" and "c \<le> rw_highest w"
    and "unat (rw_highest w) < unat c + 8192"
  shows "\<exists>w'. accept w c = Some w' \<and> window_tracks w' (insert c H)"
proof -
  have "unat (rw_highest w) < unat x + 8192 \<Longrightarrow> x \<le> rw_highest w \<Longrightarrow>
      slot x = slot c \<longleftrightarrow> x = c" for x
    using slot_eq_near [of x c] slot_eq_near [of c x] assms(3,4)
    by (cases "unat x \<le> unat c") (auto simp: word_le_nat_alt)
  with assms have "window_tracks (rw_set_bit w c) (insert c H)"
    by (auto simp: window_tracks_def rw_bit_set)
  with assms show ?thesis by (auto simp: accept_def)
qed

lemma advance_window:
  assumes tr: "window_tracks w H" and seen: "rw_seen w" and gt: "rw_highest w < c"
    and lim: "c < kRejectAfterMessages"
    and w1: "bitmap_ok w1" "rw_seen w1"
    and bits: "\<And>x. x < c \<Longrightarrow> unat c < unat x + 8192 \<Longrightarrow>
        rw_bit w1 x \<longleftrightarrow> rw_bit w x \<and> x \<le> rw_highest w"
  shows "window_tracks (rw_set_bit (w1\<lparr>rw_highest := c\<rparr>) c) (insert c H)"
proof -
  let ?w = "w1\<lparr>rw_highest := c\<rparr>"
  have below: "h < c" if "h \<in> H" for h
    using tr seen gt that by (auto simp: window_tracks_def intro: le_less_trans)
  have ok: "bitmap_ok ?w" and bit: "rw_bit ?w x = rw_bit w1 x" for x
    using w1 by (simp_all add: bitmap_ok_def rw_bit_iff)
  have "rw_bit (rw_set_bit ?w c) x \<longleftrightarrow> x \<in> insert c H" if x: "x \<le> c" "unat c < unat x + 8192" for x
  proof (cases "x = c")
    case True
    then show ?thesis using ok by (simp add: rw_bit_set)
  next
    case False
    with x have lt: "x < c" by simp
    have "slot x \<noteq> slot c" using slot_eq_near [of x c] False x by (auto simp: word_le_nat_alt)
    then have "rw_bit (rw_set_bit ?w c) x \<longleftrightarrow> rw_bit w x \<and> x \<le> rw_highest w"
      using ok bits [OF lt x(2)] by (simp add: rw_bit_set bit)
    also have "\<dots> \<longleftrightarrow> x \<in> H"
    proof (cases "x \<le> rw_highest w")
      case True
      with x(2) gt have "unat (rw_highest w) < unat x + 8192" by (simp add: word_less_nat_alt)
      with True tr seen show ?thesis by (auto simp: window_tracks_def)
    next
      case False
      with tr seen show ?thesis by (auto simp: window_tracks_def)
    qed
    finally show ?thesis using False by simp
  qed
  then show ?thesis using ok w1 lim below by (auto simp: window_tracks_def order_less_imp_le)
qed

lemma accept_beyond:
  assumes tr: "window_tracks w H" and seen: "rw_seen w" and gt: "rw_highest w < c"
    and lim: "c < kRejectAfterMessages"
  shows "\<exists>w'. accept w c = Some w' \<and> window_tracks w' (insert c H)"
proof -
  let ?h = "rw_highest w"
  from gt have sub: "unat (c - ?h) = unat c - unat ?h" "unat ?h < unat c"
    by (auto intro!: unat_sub simp: word_less_nat_alt [symmetric])
  show ?thesis
  proof (cases "c - ?h \<ge> of_nat kBits")
    case True
    then have far: "unat ?h + 8192 \<le> unat c" using sub by (simp add: word_le_nat_alt)
    let ?w1 = "w\<lparr>rw_bitmap := replicate kWords 0\<rparr>"
    have "bitmap_ok ?w1" "rw_seen ?w1" using seen by (simp_all add: bitmap_ok_def)
    moreover have "rw_bit ?w1 x \<longleftrightarrow> rw_bit w x \<and> x \<le> ?h" if "unat c < unat x + 8192" for x
      using that far by (simp add: rw_bit_zero word_le_nat_alt)
    ultimately have "window_tracks (rw_set_bit (?w1\<lparr>rw_highest := c\<rparr>) c) (insert c H)"
      by (intro advance_window [OF tr seen gt lim]) auto
    with True gt seen show ?thesis by (simp add: accept_def Let_def)
  next
    case False
    then have near: "unat c < unat ?h + 8192" using sub by (auto simp: word_le_nat_alt)
    have "bitmap_ok w" using tr by (simp add: window_tracks_def)
    from clear_loop_returns [OF below_limit_not_max [OF lim] this, of "?h + 1"] obtain w1 where
      w1: "clear_loop (?h + 1) c w = Some w1" "bitmap_ok w1" "rw_seen w1 = rw_seen w"
      "\<And>x. rw_bit w1 x \<longleftrightarrow> rw_bit w x \<and> (\<forall>d. ?h + 1 \<le> d \<and> d \<le> c \<longrightarrow> slot x \<noteq> slot d)"
      by auto
    have succ: "?h + 1 \<le> d \<longleftrightarrow> ?h < d" for d
      using unat_succ [OF below_limit_not_max [OF lim] order_less_imp_le [OF gt]]
      by (simp add: word_le_nat_alt word_less_nat_alt Suc_le_eq)
    have "rw_bit w1 x \<longleftrightarrow> rw_bit w x \<and> x \<le> ?h" if x: "x < c" "unat c < unat x + 8192" for x
    proof (cases "x \<le> ?h")
      case True
      have "slot x \<noteq> slot d" if "?h < d" "d \<le> c" for d
        using slot_eq_near [of x d] that True x
        by (auto simp: word_le_nat_alt word_less_nat_alt)
      with True show ?thesis by (auto simp: w1(4) succ)
    next
      case False
      with x(1) have "\<exists>d. ?h < d \<and> d \<le> c \<and> slot x = slot d"
        by (intro exI [of _ x]) (simp add: not_le order_less_imp_le)
      with False show ?thesis by (auto simp: w1(4) succ)
    qed
    with w1(2,3) seen have "window_tracks (rw_set_bit (w1\<lparr>rw_highest := c\<rparr>) c) (insert c H)"
      by (intro advance_window [OF tr seen gt lim]) auto
    with False gt seen w1(1) show ?thesis by (simp add: accept_def Let_def)
  qed
qed

lemma window_tracks_accept:
  assumes tr: "window_tracks w H" and ok: "acceptable w c"
  shows "\<exists>w'. accept w c = Some w' \<and> window_tracks w' (insert c H)"
proof (cases "rw_seen w \<and> c \<le> rw_highest w")
  case True
  from ok have "fresh H c" using window_tracks_acceptable [OF tr] by simp
  moreover have "rw_highest w \<in> H" using tr True by (simp add: window_tracks_def)
  ultimately have "unat (rw_highest w) < unat c + 8192" by (auto simp: fresh_def)
  with True tr show ?thesis by (intro accept_inside) auto
next
  case False
  from ok have "c < kRejectAfterMessages" by (simp add: acceptable_def split: if_splits)
  with False tr accept_unseen accept_beyond show ?thesis by (metis not_le)
qed

lemma window_tracks_init: "window_tracks ReplayWindow_init {}"
  by (simp add: window_tracks_def ReplayWindow_init_def bitmap_ok_def)

interpretation window: replay_filter ReplayWindow_init acceptable accept window_tracks
  by unfold_locales
    (simp_all add: window_tracks_init window_tracks_acceptable window_tracks_accept)

lemma accept_diverges_iff:
  assumes "bitmap_ok w"
  shows "accept w c = None \<longleftrightarrow>
    rw_seen w \<and> c = - 1 \<and> rw_highest w < c \<and> c - rw_highest w < of_nat kBits"
proof (cases "rw_seen w \<and> rw_highest w < c \<and> c - rw_highest w < of_nat kBits")
  case True
  have "clear_loop (rw_highest w + 1) c w = None \<longleftrightarrow> c = - 1"
    using clear_loop_returns [OF _ assms, of c "rw_highest w + 1"] clear_loop_diverges
    by (cases "c = - 1") auto
  with True show ?thesis by (auto simp: accept_def Let_def not_le split: option.splits)
next
  case False
  then show ?thesis by (auto simp: accept_def Let_def)
qed

section \<open>Properties\<close>

text \<open>
  C8: The window implements unbounded memory with 8192 bits: for every sequence of counters the
  receive path returns, lets no counter through twice, and afterwards accepts exactly the counters
  that are below the limit, were not let through before and are not 8192 or more behind one that was.
\<close>
theorem window_refines_history:
  "\<exists>w ds. feed acceptable accept ReplayWindow_init cs = Some (w, ds) \<and> distinct ds \<and>
     (\<forall>c. acceptable w c = fresh (set ds) c)"
  using window.feed_start [of cs] window.feed_exact [of cs] by blast

text \<open>
  Reordering survives: distinct counters below the limit that lie within one window width of
  each other are all let through, in whatever order they arrive.
\<close>
theorem window_delivers_reordered:
  assumes "distinct cs" and "\<forall>c\<in>set cs. c < kRejectAfterMessages"
    and "\<forall>a\<in>set cs. \<forall>b\<in>set cs. unat a < unat b + kBits"
  shows "\<exists>w. feed acceptable accept ReplayWindow_init cs = Some (w, cs)"
  using window.feed_all [OF window.tracks_start, of cs] assms by simp

theorem window_delivers_reordered_witness:
  "\<exists>w. feed acceptable accept ReplayWindow_init [100, 8191, 99, 0] = Some (w, [100, 8191, 99, 0])"
  by (rule window_delivers_reordered) (simp_all add: kRejectAfterMessages_value)

text \<open>
  C35: Committing a counter returns except in one case: the clearing loop never ends when the counter
  is the largest 64-bit value and less than one window width ahead of the high-water mark. The reject
  limit keeps that counter away from every caller that queries first.
\<close>
theorem accept_returns_iff:
  assumes "length (rw_bitmap w) = kWords"
  shows "(accept w c = None \<longleftrightarrow>
            rw_seen w \<and> c = - 1 \<and> rw_highest w < c \<and> c - rw_highest w < of_nat kBits) \<and>
         (acceptable w c \<longrightarrow> accept w c \<noteq> None)"
proof -
  have "acceptable w c \<Longrightarrow> c \<noteq> - 1"
    by (rule below_limit_not_max) (simp add: acceptable_def split: if_splits)
  with accept_diverges_iff [of w c] assms show ?thesis by (auto simp: bitmap_ok_def)
qed

theorem accept_returns_iff_witness:
  "accept ReplayWindow_init 7 \<noteq> None \<and>
   accept (ReplayWindow_init\<lparr>rw_seen := True, rw_highest := 0xfffffffffffffff0\<rparr>) (- 1) = None"
  using accept_returns_iff [of ReplayWindow_init 7]
    accept_returns_iff [of "ReplayWindow_init\<lparr>rw_seen := True, rw_highest := 0xfffffffffffffff0\<rparr>" "- 1"]
  by (simp add: ReplayWindow_init_def)

end
