(* ===== verification/Crypto.thy ===== *)
theory Crypto
  imports Wire
begin

text \<open>
  The wrappers around libsodium and the BLAKE2 library, \<^verbatim>\<open>src/src/crypto.h\<close> and
  \<^verbatim>\<open>src/src/crypto.cpp\<close>. The primitives themselves are not part of the repository: they are the
  fields of a record \<open>crypto_lib\<close> that every definition takes as an argument, with the return code
  next to the output where the C function has one. What the wrappers rely on is stated by the
  predicates \<open>blake2s_ok\<close>, \<open>x25519_ok\<close>, \<open>aead_ok\<close>, \<open>aead_authentic\<close> and \<open>memcmp_ok\<close>, which say
  what the libraries document. Random bytes and clock readings are arguments.

  Functions that may throw return \<open>exn + 'a\<close>; \<^verbatim>\<open>bool\<close> results with an output span are options.
\<close>

section \<open>The external primitives\<close>

record 's crypto_lib =
  sodium_init :: int
  blake2s_oneshot :: "nat \<Rightarrow> bytes \<Rightarrow> bytes \<Rightarrow> int \<times> bytes"
  blake2s_zero :: 's
  blake2s_init :: "'s \<Rightarrow> nat \<Rightarrow> int \<times> 's"
  blake2s_update :: "'s \<Rightarrow> bytes \<Rightarrow> 's"
  blake2s_final :: "'s \<Rightarrow> nat \<Rightarrow> bytes"
  scalarmult_base :: "bytes \<Rightarrow> int \<times> bytes"
  scalarmult :: "bytes \<Rightarrow> bytes \<Rightarrow> int \<times> bytes"
  aead_encrypt :: "bytes \<Rightarrow> bytes \<Rightarrow> bytes \<Rightarrow> bytes \<Rightarrow> bytes"
  aead_decrypt :: "bytes \<Rightarrow> bytes \<Rightarrow> bytes \<Rightarrow> bytes \<Rightarrow> int \<times> bytes"
  xaead_encrypt :: "bytes \<Rightarrow> bytes \<Rightarrow> bytes \<Rightarrow> bytes \<Rightarrow> bytes"
  xaead_decrypt :: "bytes \<Rightarrow> bytes \<Rightarrow> bytes \<Rightarrow> bytes \<Rightarrow> int \<times> bytes"
  sodium_memcmp :: "bytes \<Rightarrow> bytes \<Rightarrow> int"
  bin2base64 :: "bytes \<Rightarrow> string"
  base642bin :: "string \<Rightarrow> int \<times> bytes \<times> nat"

section \<open>Constants\<close>

definition kKeySize :: nat where [simp]: "kKeySize = 32"
definition kHashSize :: nat where [simp]: "kHashSize = 32"
definition kBlockSize :: nat where [simp]: "kBlockSize = 64"
definition crypto_kTagSize :: nat where [simp]: "crypto_kTagSize = 16"
definition crypto_kMacSize :: nat where [simp]: "crypto_kMacSize = 16"
definition crypto_kTimestampSize :: nat where [simp]: "crypto_kTimestampSize = 12"
definition crypto_kCookieNonceSize :: nat where [simp]: "crypto_kCookieNonceSize = 24"

section \<open>Wrappers\<close>

definition blake2s_call :: "'s crypto_lib \<Rightarrow> nat \<Rightarrow> bytes \<Rightarrow> bytes \<Rightarrow> bytes result" where
  "blake2s_call L outlen input key =
     (let (rc, out) = blake2s_oneshot L outlen input key
      in if rc \<noteq> 0 then Inl (Runtime_error ''blake2s failed'') else Inr out)"

definition update :: "'s crypto_lib \<Rightarrow> 's \<Rightarrow> bytes \<Rightarrow> 's" where
  "update L state input = (if input \<noteq> [] then blake2s_update L state input else state)"

definition Nonce :: "u64 \<Rightarrow> bytes" where
  "Nonce counter =
     fold (\<lambda>i b. b[4 + i := ucast (drop_bit (8 * i) counter AND 255)]) [0..<8] (replicate 12 0)"

definition crypto_init :: "'s crypto_lib \<Rightarrow> unit result" where
  "crypto_init L =
     (if sodium_init L < 0
      then Inl (Runtime_error ''sodium_init failed; the crypto library is unusable'') else Inr ())"

definition derive_public :: "'s crypto_lib \<Rightarrow> bytes \<Rightarrow> bytes result" where
  "derive_public L private_key =
     (let (rc, public_key) = scalarmult_base L private_key
      in if rc \<noteq> 0 then Inl (Runtime_error ''deriving a public key failed'') else Inr public_key)"

text \<open>The random bytes that fill the private key are the argument \<open>rnd\<close>.\<close>

definition generate_keypair :: "'s crypto_lib \<Rightarrow> bytes \<Rightarrow> (bytes \<times> bytes) result" where
  "generate_keypair L rnd =
     (let private_key = rnd;
          private_key = private_key[0 := private_key ! 0 AND 248];
          private_key = private_key[31 := (private_key ! 31 AND 127) OR 64]
      in bindR (derive_public L private_key) (\<lambda>public_key. Inr (private_key, public_key)))"

definition dh :: "'s crypto_lib \<Rightarrow> bytes \<Rightarrow> bytes \<Rightarrow> bytes option" where
  "dh L private_key peer_public =
     (let (rc, out) = scalarmult L private_key peer_public in if rc = 0 then Some out else None)"

definition crypto_seal ::
  "'s crypto_lib \<Rightarrow> nat \<Rightarrow> bytes \<Rightarrow> u64 \<Rightarrow> bytes \<Rightarrow> bytes \<Rightarrow> bytes result" where
  "crypto_seal L out_size key counter plaintext aad =
     (if out_size \<noteq> length plaintext + crypto_kTagSize
      then Inl (Logic_error ''seal: output span is the wrong size'')
      else Inr (aead_encrypt L key (Nonce counter) aad plaintext))"

definition crypto_open ::
  "'s crypto_lib \<Rightarrow> nat \<Rightarrow> bytes \<Rightarrow> u64 \<Rightarrow> bytes \<Rightarrow> bytes \<Rightarrow> bytes option" where
  "crypto_open L out_size key counter ciphertext aad =
     (if length ciphertext < crypto_kTagSize \<or> out_size \<noteq> length ciphertext - crypto_kTagSize
      then None
      else let (rc, out) = aead_decrypt L key (Nonce counter) aad ciphertext
           in if rc = 0 then Some out else None)"

definition seal_cookie ::
  "'s crypto_lib \<Rightarrow> nat \<Rightarrow> bytes \<Rightarrow> bytes \<Rightarrow> bytes \<Rightarrow> bytes \<Rightarrow> bytes result" where
  "seal_cookie L out_size key nonce plaintext aad =
     (if out_size \<noteq> length plaintext + crypto_kTagSize
      then Inl (Logic_error ''seal_cookie: output span is the wrong size'')
      else Inr (xaead_encrypt L key nonce aad plaintext))"

definition open_cookie ::
  "'s crypto_lib \<Rightarrow> nat \<Rightarrow> bytes \<Rightarrow> bytes \<Rightarrow> bytes \<Rightarrow> bytes \<Rightarrow> bytes option" where
  "open_cookie L out_size key nonce ciphertext aad =
     (if length ciphertext < crypto_kTagSize \<or> out_size \<noteq> length ciphertext - crypto_kTagSize
      then None
      else let (rc, out) = xaead_decrypt L key nonce aad ciphertext
           in if rc = 0 then Some out else None)"

definition hash :: "'s crypto_lib \<Rightarrow> bytes \<Rightarrow> bytes result" where
  "hash L input = blake2s_call L kHashSize input []"

definition hash2 :: "'s crypto_lib \<Rightarrow> bytes \<Rightarrow> bytes \<Rightarrow> bytes result" where
  "hash2 L a b =
     (let (rc, state) = blake2s_init L (blake2s_zero L) kHashSize
      in if rc \<noteq> 0 then Inl (Runtime_error ''blake2s_init failed'')
         else Inr (blake2s_final L (update L (update L state a) b) kHashSize))"

definition mac :: "'s crypto_lib \<Rightarrow> bytes \<Rightarrow> bytes \<Rightarrow> bytes result" where
  "mac L key input = blake2s_call L crypto_kMacSize input key"

definition hmac :: "'s crypto_lib \<Rightarrow> bytes \<Rightarrow> bytes \<Rightarrow> bytes result" where
  "hmac L key input =
     bindR (if length key > kBlockSize
            then bindR (hash L key) (\<lambda>h. Inr (blit 0 h (replicate kBlockSize 0)))
            else Inr (blit 0 key (replicate kBlockSize 0)))
       (\<lambda>padded_key.
          let pad = map (\<lambda>i. padded_key ! i XOR 0x36) [0..<kBlockSize];
              state = snd (blake2s_init L (blake2s_zero L) kHashSize);
              inner = blake2s_final L (update L (update L state pad) input) kHashSize;
              pad = map (\<lambda>i. padded_key ! i XOR 0x5c) [0..<kBlockSize];
              state = snd (blake2s_init L (blake2s_zero L) kHashSize)
          in Inr (blake2s_final L (update L (update L state pad) inner) kHashSize))"

text \<open>
  The shared body of \<open>kdf1\<close>, \<open>kdf2\<close> and \<open>kdf3\<close>. The flags say which of the output pointers \<open>out2\<close>
  and \<open>out3\<close> is not null; the outputs that were written are the list. The aliasing of \<open>out1\<close> with
  the chaining key is harmless, since the chaining key is read only before the first output is
  written.
\<close>

definition kdf :: "'s crypto_lib \<Rightarrow> bool \<Rightarrow> bool \<Rightarrow> bytes \<Rightarrow> bytes \<Rightarrow> bytes list result" where
  "kdf L out2 out3 chaining_key input =
     bindR (hmac L chaining_key input) (\<lambda>t0.
       let chained = (replicate (kHashSize + 1) 0)[0 := 1]
       in bindR (hmac L t0 (take 1 chained)) (\<lambda>o1.
            if \<not> out2 then Inr [o1]
            else
              let chained = (blit 0 o1 chained)[kHashSize := 2]
              in bindR (hmac L t0 chained) (\<lambda>o2.
                   if \<not> out3 then Inr [o1, o2]
                   else
                     let chained = (blit 0 o2 chained)[kHashSize := 3]
                     in bindR (hmac L t0 chained) (\<lambda>o3. Inr [o1, o2, o3]))))"

definition kdf1 :: "'s crypto_lib \<Rightarrow> bytes \<Rightarrow> bytes \<Rightarrow> bytes result" where
  "kdf1 L chaining_key input =
     bindR (kdf L False False chaining_key input) (\<lambda>os. Inr (os ! 0))"

definition kdf2 :: "'s crypto_lib \<Rightarrow> bytes \<Rightarrow> bytes \<Rightarrow> (bytes \<times> bytes) result" where
  "kdf2 L chaining_key input =
     bindR (kdf L True False chaining_key input) (\<lambda>os. Inr (os ! 0, os ! 1))"

definition kdf3 :: "'s crypto_lib \<Rightarrow> bytes \<Rightarrow> bytes \<Rightarrow> (bytes \<times> bytes \<times> bytes) result" where
  "kdf3 L chaining_key input =
     bindR (kdf L True True chaining_key input) (\<lambda>os. Inr (os ! 0, os ! 1, os ! 2))"

definition crypto_equal :: "'s crypto_lib \<Rightarrow> bytes \<Rightarrow> bytes \<Rightarrow> bool" where
  "crypto_equal L a b =
     (if length a \<noteq> length b then False else if a = [] then True else sodium_memcmp L a b = 0)"

text \<open>
  The random bytes come as an argument; the index is their value on a little-endian host.
\<close>

definition random_bytes :: "bytes \<Rightarrow> bytes \<Rightarrow> bytes" where
  "random_bytes rnd out = (if out = [] then out else take (length out) rnd)"

definition random_index :: "bytes \<Rightarrow> u32" where
  "random_index rnd = read_le 4 rnd"

section \<open>Time stamps\<close>

datatype timespec = Timespec (tv_sec: int) (tv_nsec: int)

definition timestamp :: "timespec \<Rightarrow> bytes" where
  "timestamp now =
     (let seconds = 0x400000000000000a + word_of_int (tv_sec now) :: u64;
          nanoseconds = word_of_int (tv_nsec now) AND NOT 0x00ffffff :: u32
      in map (\<lambda>i. ucast (drop_bit (56 - 8 * i) seconds AND 0xff)) [0..<8] @
         map (\<lambda>i. ucast (drop_bit (24 - 8 * i) nanoseconds AND 0xff)) [0..<4])"

fun timestamp_after :: "bytes \<Rightarrow> bytes \<Rightarrow> bool" where
  "timestamp_after (a # as) (b # bs) = (if a \<noteq> b then a > b else timestamp_after as bs)"
| "timestamp_after _ _ = False"

section \<open>Base64\<close>

definition to_base64 :: "'s crypto_lib \<Rightarrow> bytes \<Rightarrow> string" where
  "to_base64 L bs = bin2base64 L bs"

definition from_base64 :: "'s crypto_lib \<Rightarrow> string \<Rightarrow> bytes option" where
  "from_base64 L text =
     (if text = [] then Some []
      else let (rc, decoded, end_pos) = base642bin L text
           in if rc \<noteq> 0 then None
              else if end_pos \<noteq> length text then None
              else Some decoded)"

section \<open>What the libraries document\<close>

text \<open>
  BLAKE2s: a call with a digest length of 1 to 32 and a key of at most 32 bytes succeeds on
  non-empty input and writes the digest; the streaming interface computes the digest of the
  concatenation of the updates.
\<close>

definition blake2s_ok :: "'s crypto_lib \<Rightarrow> bool" where
  "blake2s_ok L \<longleftrightarrow>
     (\<forall>n x k. 1 \<le> n \<longrightarrow> n \<le> 32 \<longrightarrow> length k \<le> 32 \<longrightarrow> x \<noteq> [] \<longrightarrow>
        fst (blake2s_oneshot L n x k) = 0 \<and> length (snd (blake2s_oneshot L n x k)) = n) \<and>
     (\<forall>st. fst (blake2s_init L st 32) = 0) \<and>
     (\<forall>st xs. concat xs \<noteq> [] \<longrightarrow>
        blake2s_final L (fold (\<lambda>x s. blake2s_update L s x) xs (snd (blake2s_init L st 32))) 32 =
        snd (blake2s_oneshot L 32 (concat xs) []))"

text \<open>
  X25519: a public key derives from every private key; the shared secret of two derived keys exists
  and is the same on both sides.
\<close>

definition x25519_ok :: "'s crypto_lib \<Rightarrow> bool" where
  "x25519_ok L \<longleftrightarrow>
     (\<forall>a. length a = 32 \<longrightarrow>
        fst (scalarmult_base L a) = 0 \<and> length (snd (scalarmult_base L a)) = 32) \<and>
     (\<forall>a b. length a = 32 \<longrightarrow> length b = 32 \<longrightarrow>
        fst (scalarmult L a (snd (scalarmult_base L b))) = 0 \<and>
        length (snd (scalarmult L a (snd (scalarmult_base L b)))) = 32 \<and>
        scalarmult L a (snd (scalarmult_base L b)) = scalarmult L b (snd (scalarmult_base L a)))"

text \<open>AEAD: the ciphertext is 16 bytes longer, and decryption inverts encryption.\<close>

definition aead_ok :: "'s crypto_lib \<Rightarrow> bool" where
  "aead_ok L \<longleftrightarrow>
     (\<forall>k n ad p. length (aead_encrypt L k n ad p) = length p + 16 \<and>
        aead_decrypt L k n ad (aead_encrypt L k n ad p) = (0, p))"

text \<open>
  AEAD: decryption succeeds only on the ciphertext that encryption under the same key, nonce and
  associated data produces for the returned plaintext.
\<close>

definition aead_authentic :: "'s crypto_lib \<Rightarrow> bool" where
  "aead_authentic L \<longleftrightarrow>
     (\<forall>k n ad c. fst (aead_decrypt L k n ad c) = 0 \<longrightarrow>
        c = aead_encrypt L k n ad (snd (aead_decrypt L k n ad c)))"

definition memcmp_ok :: "'s crypto_lib \<Rightarrow> bool" where
  "memcmp_ok L \<longleftrightarrow> (\<forall>a b. length a = length b \<longrightarrow> (sodium_memcmp L a b = 0 \<longleftrightarrow> a = b))"

definition crypto_ok :: "'s crypto_lib \<Rightarrow> bool" where
  "crypto_ok L \<longleftrightarrow> blake2s_ok L \<and> x25519_ok L \<and> aead_ok L \<and> memcmp_ok L"

section \<open>Reference definitions\<close>

text \<open>The digest, and the keyed digest of 16 bytes.\<close>

definition H :: "'s crypto_lib \<Rightarrow> bytes \<Rightarrow> bytes" where
  "H L x = snd (blake2s_oneshot L 32 x [])"

definition MAC :: "'s crypto_lib \<Rightarrow> bytes \<Rightarrow> bytes \<Rightarrow> bytes" where
  "MAC L k x = snd (blake2s_oneshot L 16 x k)"

text \<open>HMAC as the standard defines it: a key padded to one block, two nested digests.\<close>

definition block_key :: "'s crypto_lib \<Rightarrow> bytes \<Rightarrow> bytes" where
  "block_key L key = (let k = if length key > 64 then H L key else key in k @ replicate (64 - length k) 0)"

definition HMAC :: "'s crypto_lib \<Rightarrow> bytes \<Rightarrow> bytes \<Rightarrow> bytes" where
  "HMAC L key x =
     H L (map (\<lambda>b. b XOR 0x5c) (block_key L key) @ H L (map (\<lambda>b. b XOR 0x36) (block_key L key) @ x))"

text \<open>The key derivation of the WireGuard paper.\<close>

fun KDF :: "'s crypto_lib \<Rightarrow> nat \<Rightarrow> bytes \<Rightarrow> bytes \<Rightarrow> bytes" where
  "KDF L 0 c x = HMAC L c x"
| "KDF L (Suc 0) c x = HMAC L (HMAC L c x) [1]"
| "KDF L (Suc (Suc n)) c x = HMAC L (HMAC L c x) (KDF L (Suc n) c x @ [of_nat (Suc (Suc n))])"

section \<open>The hash functions compute the reference values\<close>

lemma H_length [simp]: "blake2s_ok L \<Longrightarrow> x \<noteq> [] \<Longrightarrow> length (H L x) = 32"
  by (simp add: blake2s_ok_def H_def)

lemma hash_value: "blake2s_ok L \<Longrightarrow> x \<noteq> [] \<Longrightarrow> hash L x = Inr (H L x)"
  by (simp add: hash_def blake2s_call_def H_def blake2s_ok_def split_beta)

lemma mac_value: "blake2s_ok L \<Longrightarrow> x \<noteq> [] \<Longrightarrow> length k = 32 \<Longrightarrow> mac L k x = Inr (MAC L k x)"
  by (simp add: mac_def blake2s_call_def MAC_def blake2s_ok_def split_beta)

lemma MAC_length [simp]: "blake2s_ok L \<Longrightarrow> x \<noteq> [] \<Longrightarrow> length k = 32 \<Longrightarrow> length (MAC L k x) = 16"
  by (simp add: MAC_def blake2s_ok_def)

lemma stream_value:
  assumes "blake2s_ok L" and "a @ b \<noteq> []"
  shows "blake2s_final L (update L (update L (snd (blake2s_init L st 32)) a) b) 32 = H L (a @ b)"
proof -
  have fold: "concat xs \<noteq> [] \<Longrightarrow>
      blake2s_final L (fold (\<lambda>x s. blake2s_update L s x) xs (snd (blake2s_init L st 32))) 32 =
      H L (concat xs)" for xs
    using assms(1) by (simp add: blake2s_ok_def H_def)
  show ?thesis
    using assms(2) fold [of "[a, b]"] fold [of "[a]"] fold [of "[b]"] by (auto simp: update_def)
qed

lemma hash2_value: "blake2s_ok L \<Longrightarrow> a @ b \<noteq> [] \<Longrightarrow> hash2 L a b = Inr (H L (a @ b))"
  by (auto simp: hash2_def split_beta stream_value blake2s_ok_def stream_value [unfolded blake2s_ok_def])

lemma block_key_length [simp]: "blake2s_ok L \<Longrightarrow> length (block_key L key) = 64"
  by (cases "key = []") (auto simp: block_key_def Let_def)

lemma blit_0_pad: "length k \<le> n \<Longrightarrow> blit 0 k (replicate n x) = k @ replicate (n - length k) x"
  by (simp add: blit_def)

lemma hmac_value:
  assumes "blake2s_ok L"
  shows "hmac L key x = Inr (HMAC L key x)"
proof -
  have key: "(if length key > 64
        then bindR (hash L key) (\<lambda>h. Inr (blit 0 h (replicate 64 0)))
        else Inr (blit 0 key (replicate 64 0))) = Inr (block_key L key)"
    using assms by (cases "key = []") (auto simp: block_key_def Let_def hash_value blit_0_pad)
  have nz: "map f (block_key L key) @ y \<noteq> []" for f :: "u8 \<Rightarrow> u8" and y
    using block_key_length [OF assms, of key] by (metis Nil_is_map_conv append_is_Nil_conv length_0_conv zero_neq_numeral)
  have pad: "map (\<lambda>i. block_key L key ! i XOR v) [0..<64] = map (\<lambda>b. b XOR v) (block_key L key)" for v
    using assms by (intro nth_equalityI) auto
  show ?thesis
    unfolding hmac_def kBlockSize_def kHashSize_def key
    by (simp add: Let_def pad stream_value [OF assms nz] HMAC_def)
qed

lemma HMAC_length [simp]: "blake2s_ok L \<Longrightarrow> length (HMAC L key x) = 32"
  by (metis HMAC_def H_length append_is_Nil_conv block_key_length length_0_conv map_is_Nil_conv zero_neq_numeral)

lemma first_chained: "take (Suc 0) ((replicate 33 0)[0 := 1]) = [1 :: u8]"
  by (simp add: numeral_eq_Suc)

lemma kdf_value:
  assumes "blake2s_ok L"
  shows "kdf L w2 w3 c x = Inr (if \<not> w2 then [KDF L 1 c x]
           else if \<not> w3 then [KDF L 1 c x, KDF L 2 c x] else [KDF L 1 c x, KDF L 2 c x, KDF L 3 c x])"
  using assms
  by (simp add: kdf_def hmac_value Let_def blit_def first_chained numeral_2_eq_2 numeral_3_eq_3 list_update_append)

lemma kdf1_value: "blake2s_ok L \<Longrightarrow> kdf1 L c x = Inr (KDF L 1 c x)"
  by (simp add: kdf1_def kdf_value)

lemma kdf2_value: "blake2s_ok L \<Longrightarrow> kdf2 L c x = Inr (KDF L 1 c x, KDF L 2 c x)"
  by (simp add: kdf2_def kdf_value)

lemma kdf3_value: "blake2s_ok L \<Longrightarrow> kdf3 L c x = Inr (KDF L 1 c x, KDF L 2 c x, KDF L 3 c x)"
  by (simp add: kdf3_def kdf_value)

lemma KDF_length [simp]: "blake2s_ok L \<Longrightarrow> length (KDF L n c x) = 32"
  by (induction L n c x rule: KDF.induct) simp_all

declare KDF.simps [simp del]

section \<open>The nonce\<close>

lemma Nonce_value: "Nonce c = replicate 4 0 @ le_bytes 8 c"
proof -
  have "Nonce c = write_le 8 4 c (replicate 12 0)"
    by (simp add: Nonce_def write_le_def byte_at_def)
  then show ?thesis by (simp add: write_le_blit blit_def)
qed

lemma Nonce_inject: "Nonce c = Nonce d \<longleftrightarrow> c = d"
  by (metis Nonce_value read_u64_le_le_bytes same_append_eq)

section \<open>Sealing and opening\<close>

lemma aead_length: "aead_ok L \<Longrightarrow> length (aead_encrypt L k n ad p) = length p + 16"
  by (simp add: aead_ok_def)

lemma aead_inverse: "aead_ok L \<Longrightarrow> aead_decrypt L k n ad (aead_encrypt L k n ad p) = (0, p)"
  by (simp add: aead_ok_def)

lemma crypto_seal_value:
  "crypto_seal L n key c p aad = Inr x \<longleftrightarrow> n = length p + 16 \<and> x = aead_encrypt L key (Nonce c) aad p"
  by (auto simp: crypto_seal_def)

lemma crypto_open_encrypt:
  "aead_ok L \<Longrightarrow> m = length p \<Longrightarrow> crypto_open L m key c (aead_encrypt L key (Nonce c) aad p) aad = Some p"
  by (simp add: crypto_open_def aead_length aead_inverse)

lemma crypto_open_length:
  assumes "crypto_open L n key c x aad = Some p"
  shows "length x = n + 16"
  using assms by (auto simp: crypto_open_def split: if_splits)

lemma crypto_open_authentic:
  assumes "aead_authentic L" and "crypto_open L n key c x aad = Some p"
  shows "x = aead_encrypt L key (Nonce c) aad p"
proof -
  from assms(2) have "fst (aead_decrypt L key (Nonce c) aad x) = 0"
    and "snd (aead_decrypt L key (Nonce c) aad x) = p"
    by (auto simp: crypto_open_def split_beta split: if_splits)
  with assms(1) show ?thesis unfolding aead_authentic_def by metis
qed

lemma crypto_equal_iff: "memcmp_ok L \<Longrightarrow> crypto_equal L a b \<longleftrightarrow> a = b"
  by (auto simp: crypto_equal_def memcmp_ok_def)

section \<open>Key agreement\<close>

lemma generate_keypair_value:
  assumes "x25519_ok L" and "length rnd = 32"
  shows "\<exists>priv. generate_keypair L rnd = Inr (priv, snd (scalarmult_base L priv)) \<and> length priv = 32 \<and>
           priv ! 0 = rnd ! 0 AND 248 \<and> priv ! 31 = (rnd ! 31 AND 127) OR 64 \<and>
           (\<forall>i. 0 < i \<longrightarrow> i < 31 \<longrightarrow> priv ! i = rnd ! i)"
  using assms by (simp add: generate_keypair_def derive_public_def x25519_ok_def split_beta Let_def)

lemma derive_public_value:
  "x25519_ok L \<Longrightarrow> length a = 32 \<Longrightarrow> derive_public L a = Inr (snd (scalarmult_base L a))"
  by (simp add: derive_public_def x25519_ok_def split_beta)

lemma dh_agree:
  assumes "x25519_ok L" and "length a = 32" and "length b = 32"
  shows "\<exists>s. dh L a (snd (scalarmult_base L b)) = Some s \<and> dh L b (snd (scalarmult_base L a)) = Some s \<and>
           length s = 32"
  using assms by (auto simp: dh_def x25519_ok_def split_beta)

section \<open>Time stamps order like the clock\<close>

instantiation timespec :: linorder
begin

definition less_eq_timespec :: "timespec \<Rightarrow> timespec \<Rightarrow> bool" where
  "less_eq_timespec a b \<longleftrightarrow> tv_sec a < tv_sec b \<or> tv_sec a = tv_sec b \<and> tv_nsec a \<le> tv_nsec b"

definition less_timespec :: "timespec \<Rightarrow> timespec \<Rightarrow> bool" where
  "less_timespec a b \<longleftrightarrow> tv_sec a < tv_sec b \<or> tv_sec a = tv_sec b \<and> tv_nsec a < tv_nsec b"

instance
  by standard (auto simp: less_eq_timespec_def less_timespec_def timespec.expand)

end

text \<open>What the stamp keeps of a clock reading: nanoseconds rounded down to a multiple of \<open>2^24\<close>.\<close>

definition coarse :: "timespec \<Rightarrow> timespec" where
  "coarse t = Timespec (tv_sec t) (tv_nsec t div 2 ^ 24)"

definition clock_range :: "timespec \<Rightarrow> bool" where
  "clock_range t \<longleftrightarrow> 0 \<le> tv_sec t \<and> tv_sec t < 2 ^ 62 \<and> 0 \<le> tv_nsec t \<and> tv_nsec t < 10 ^ 9"

fun be_val :: "bytes \<Rightarrow> nat" where
  "be_val [] = 0"
| "be_val (b # bs) = unat b * 256 ^ length bs + be_val bs"

lemma be_val_bound: "be_val bs < 256 ^ length bs"
proof (induction bs)
  case (Cons b bs)
  have "unat b \<le> 255" using unat_u8_less [of b] by simp
  then have "unat b * 256 ^ length bs \<le> 255 * 256 ^ length bs" by simp
  from add_le_less_mono [OF this Cons.IH] show ?case by simp
qed simp

lemma timestamp_after_be_val:
  "length as = length bs \<Longrightarrow> timestamp_after as bs \<longleftrightarrow> be_val bs < be_val as"
proof (induction as bs rule: list_induct2)
  case (Cons a as b bs)
  have step: "be_val (x # xs) < be_val (y # ys)" if "unat x < unat y" "length xs = length ys"
    for x y :: u8 and xs ys
  proof -
    have "be_val (x # xs) < (unat x + 1) * 256 ^ length ys"
      using be_val_bound [of xs] that(2) by simp
    also have "\<dots> \<le> unat y * 256 ^ length ys" using that(1) by (intro mult_right_mono) auto
    finally show ?thesis by simp
  qed
  show ?case
  proof (cases "a = b")
    case True
    with Cons show ?thesis by simp
  next
    case False
    then have "unat a < unat b \<or> unat b < unat a" by (auto simp: word_unat_eq_iff)
    with False Cons.hyps step [of a b as bs] step [of b a bs as] show ?thesis
      by (auto simp: word_less_nat_alt)
  qed
qed simp

definition be_list :: "nat \<Rightarrow> 'a::len word \<Rightarrow> bytes" where
  "be_list n v = map (\<lambda>i. byte_at v (n - 1 - i)) [0..<n]"

lemma be_list_Suc: "be_list (Suc n) v = byte_at v n # be_list n v"
  by (simp add: be_list_def upt_conv_Cons map_Suc_upt [symmetric] del: upt_Suc)

lemma unat_byte_at: "unat (byte_at v i) = unat v div 256 ^ i mod 256" for v :: "'a::len word"
proof -
  have "byte_at v i = ucast (drop_bit (8 * i) v)"
    by (rule bit_word_eqI) (auto simp: bit_byte_at bit_simps dest: bit_imp_le_length)
  then have "unat (byte_at v i) = take_bit 8 (drop_bit (8 * i) (unat v))"
    by (simp only: unsigned_ucast_eq unsigned_drop_bit_eq take_bit_nat_eq_self [OF unsigned_less]) simp
  then show ?thesis
    by (simp add: take_bit_eq_mod drop_bit_eq_div power_mult)
qed

lemma be_val_be_list: "be_val (be_list n v) = unat v mod 256 ^ n" for v :: "'a::len word"
proof (induction n)
  case (Suc n)
  have "length (be_list n v) = n" by (simp add: be_list_def)
  moreover have "unat v mod 256 ^ Suc n = 256 ^ n * (unat v div 256 ^ n mod 256) + unat v mod 256 ^ n"
    by (simp only: power_Suc2 mod_mult2_eq)
  ultimately show ?case using Suc
    by (simp add: be_list_Suc unat_byte_at mult.commute del: power_Suc)
qed (simp add: be_list_def)

lemma be_list_length [simp]: "length (be_list n v) = n"
  by (simp add: be_list_def)

lemma be_val_append: "be_val (as @ bs) = be_val as * 256 ^ length bs + be_val bs"
  by (induction as) (simp_all add: power_add algebra_simps)

lemma timestamp_be_list:
  "timestamp t = be_list 8 (0x400000000000000a + word_of_int (tv_sec t) :: u64) @
     be_list 4 (word_of_int (tv_nsec t) AND NOT 0x00ffffff :: u32)"
proof -
  have "map (\<lambda>i. ucast (drop_bit (56 - 8 * i) s AND 0xff)) [0..<8] = be_list 8 s" for s :: u64
    unfolding be_list_def by (rule map_cong) (auto simp: byte_at_def diff_mult_distrib2)
  moreover have "map (\<lambda>i. ucast (drop_bit (24 - 8 * i) s AND 0xff)) [0..<4] = be_list 4 s" for s :: u32
    unfolding be_list_def by (rule map_cong) (auto simp: byte_at_def diff_mult_distrib2)
  ultimately show ?thesis by (simp only: timestamp_def Let_def)
qed

lemma mask_24: "unat (w AND NOT 0x00ffffff) = unat w div 2 ^ 24 * 2 ^ 24" for w :: u32
proof -
  have "(0x00ffffff :: u32) = mask 24" by (simp add: mask_eq_exp_minus_1)
  then have "w AND NOT 0x00ffffff = w AND NOT (mask 24)" by simp
  also have "\<dots> = push_bit 24 (drop_bit 24 w)"
    by (rule bit_word_eqI) (auto simp: bit_simps dest: bit_imp_le_length)
  also have "\<dots> = drop_bit 24 w * 2 ^ 24" by (simp add: push_bit_eq_mult)
  finally have m: "w AND NOT 0x00ffffff = drop_bit 24 w * 2 ^ 24" .
  have d: "unat (drop_bit 24 w) = unat w div 2 ^ 24" by (simp add: drop_bit_eq_div unat_div)
  have "unat w < 2 ^ 32" using unsigned_less [of w] by simp
  then have "unat w div 2 ^ 24 * 2 ^ 24 < 2 ^ 32" by (meson div_times_less_eq_dividend le_less_trans)
  with d show ?thesis unfolding m by (simp add: unat_word_ariths(2))
qed

lemma be_val_timestamp:
  assumes "clock_range t"
  shows "be_val (timestamp t) =
    (0x400000000000000a + nat (tv_sec t)) * 2 ^ 32 + nat (tv_nsec t div 2 ^ 24) * 2 ^ 24"
proof -
  have c: "0 \<le> tv_sec t" "tv_sec t < 2 ^ 62" "0 \<le> tv_nsec t" "tv_nsec t < 2 ^ 32"
    using assms by (auto simp: clock_range_def)
  have w: "unat (word_of_int (tv_sec t) :: u64) = nat (tv_sec t)"
    using c by (simp add: unsigned_of_int take_bit_int_eq_self)
  have "nat (tv_sec t) < 2 ^ 62" using c by (simp add: nat_less_iff)
  then have s: "unat (0x400000000000000a + word_of_int (tv_sec t) :: u64) = 0x400000000000000a + nat (tv_sec t)"
    by (simp add: unat_word_ariths(1) w)
  have n: "unat (word_of_int (tv_nsec t) :: u32) = nat (tv_nsec t)"
    using c by (simp add: unsigned_of_int take_bit_int_eq_self)
  have bound: "be_val (be_list 8 (x :: u64)) = unat x" "be_val (be_list 4 (y :: u32)) = unat y" for x y
    using unsigned_less [of x, where ?'a = nat] unsigned_less [of y, where ?'a = nat]
    by (simp_all add: be_val_be_list)
  have "nat (tv_nsec t) div 2 ^ 24 = nat (tv_nsec t div 2 ^ 24)"
    using c by (simp add: nat_div_distrib)
  then show ?thesis
    by (simp only: timestamp_be_list be_val_append bound s n mask_24 be_list_length) simp
qed

lemma timestamp_order:
  assumes "clock_range a" and "clock_range b"
  shows "timestamp_after (timestamp a) (timestamp b) \<longleftrightarrow> coarse b < coarse a"
proof -
  have pair: "x * 2 ^ 32 + p * 2 ^ 24 < y * 2 ^ 32 + q * 2 ^ 24 \<longleftrightarrow> x < y \<or> x = y \<and> p < q"
    if "p < 256" "q < 256" for x y p q :: nat
    using that by auto
  have "0 \<le> tv_nsec t div 2 ^ 24 \<and> tv_nsec t div 2 ^ 24 < 256 \<and> 0 \<le> tv_sec t" if "clock_range t" for t
    using that by (auto simp: clock_range_def pos_imp_zdiv_nonneg_iff div_less_iff_less_mult)
  note ranges = this [OF assms(1)] this [OF assms(2)]
  have "timestamp_after (timestamp a) (timestamp b) \<longleftrightarrow> be_val (timestamp b) < be_val (timestamp a)"
    by (simp add: timestamp_after_be_val timestamp_be_list)
  also have "\<dots> \<longleftrightarrow> nat (tv_sec b) < nat (tv_sec a) \<or> nat (tv_sec b) = nat (tv_sec a) \<and>
      nat (tv_nsec b div 2 ^ 24) < nat (tv_nsec a div 2 ^ 24)"
    using ranges unfolding be_val_timestamp [OF assms(1)] be_val_timestamp [OF assms(2)]
    by (subst pair) auto
  also have "\<dots> \<longleftrightarrow> coarse b < coarse a"
    using ranges by (auto simp: coarse_def less_timespec_def)
  finally show ?thesis .
qed

lemma coarse_mono: "a \<le> b \<Longrightarrow> coarse a \<le> coarse b"
  by (auto simp: coarse_def less_eq_timespec_def zdiv_mono1)

section \<open>An instance of the library interface\<close>

text \<open>
  A small instance that satisfies every law: a digest that truncates or pads, a Diffie-Hellman
  function that combines bytewise, an authenticated encryption with a tag made of nonce and key.
\<close>

definition demo_tag :: "bytes \<Rightarrow> bytes \<Rightarrow> bytes" where
  "demo_tag k n = take 16 (n @ k @ replicate 16 0)"

definition demo_open :: "bytes \<Rightarrow> bytes \<Rightarrow> bytes \<Rightarrow> bytes \<Rightarrow> int \<times> bytes" where
  "demo_open k n ad c =
     (if length c \<ge> 16 \<and> drop (length c - 16) c = demo_tag k n then (0, take (length c - 16) c) else (- 1, []))"

definition demo_lib :: "bytes crypto_lib" where
  "demo_lib = \<lparr>sodium_init = 0,
     blake2s_oneshot = (\<lambda>n x k. (0, take n (x @ replicate n 0))),
     blake2s_zero = [], blake2s_init = (\<lambda>s n. (0, [])), blake2s_update = (@),
     blake2s_final = (\<lambda>s n. take n (s @ replicate n 0)),
     scalarmult_base = Pair 0, scalarmult = (\<lambda>a b. (0, map2 (XOR) a b)),
     aead_encrypt = (\<lambda>k n ad p. p @ demo_tag k n), aead_decrypt = demo_open,
     xaead_encrypt = (\<lambda>k n ad p. p @ demo_tag k n), xaead_decrypt = demo_open,
     sodium_memcmp = (\<lambda>a b. if a = b then 0 else - 1),
     bin2base64 = map (\<lambda>b. char_of (unat b)), base642bin = (\<lambda>s. (0, map (\<lambda>c. of_nat (of_char c)) s, length s))\<rparr>"

lemma demo_blake2s_ok: "blake2s_ok demo_lib"
proof -
  have "fold (\<lambda>x s. s @ x) xs a = a @ concat xs" for xs and a :: bytes
    by (induction xs arbitrary: a) simp_all
  then show ?thesis by (auto simp: blake2s_ok_def demo_lib_def min_def)
qed

lemma demo_x25519_ok: "x25519_ok demo_lib"
proof -
  have "map2 (XOR) a b = map2 (XOR) b a" for a b :: bytes
    by (rule nth_equalityI) (simp_all add: xor.commute)
  then show ?thesis by (simp add: x25519_ok_def demo_lib_def)
qed

lemma demo_tag_length: "length (demo_tag k n) = 16"
  by (simp add: demo_tag_def)

lemma demo_aead_ok: "aead_ok demo_lib"
  by (simp add: aead_ok_def demo_lib_def demo_open_def demo_tag_length)

lemma demo_aead_authentic: "aead_authentic demo_lib"
  unfolding aead_authentic_def
proof (intro allI impI)
  fix k n ad c
  assume "fst (aead_decrypt demo_lib k n ad c) = 0"
  then have "length c \<ge> 16" "drop (length c - 16) c = demo_tag k n"
    by (auto simp: demo_lib_def demo_open_def split: if_splits)
  then show "c = aead_encrypt demo_lib k n ad (snd (aead_decrypt demo_lib k n ad c))"
    by (simp add: demo_lib_def demo_open_def) (metis append_take_drop_id)
qed

lemma demo_memcmp_ok: "memcmp_ok demo_lib"
  by (simp add: memcmp_ok_def demo_lib_def)

lemma demo_crypto_ok: "crypto_ok demo_lib"
  by (simp add: crypto_ok_def demo_blake2s_ok demo_x25519_ok demo_aead_ok demo_memcmp_ok)

section \<open>Properties\<close>

text \<open>
  C36: the key derivation is the one of the WireGuard paper. With a BLAKE2s library that behaves as
  documented, \<open>hmac\<close> is HMAC over BLAKE2s for keys of any length, \<open>hash2\<close> is the digest of the
  concatenation, and the three derivations return the first one, two and three blocks of the
  HMAC chain, the i-th computed from its predecessor followed by the byte i; none of them throws.
\<close>

theorem key_derivation_reference:
  assumes "blake2s_ok L"
  shows "hmac L k x = Inr (HMAC L k x) \<and>
    (a @ b \<noteq> [] \<longrightarrow> hash2 L a b = Inr (H L (a @ b))) \<and>
    kdf1 L k x = Inr (KDF L 1 k x) \<and>
    kdf2 L k x = Inr (KDF L 1 k x, KDF L 2 k x) \<and>
    kdf3 L k x = Inr (KDF L 1 k x, KDF L 2 k x, KDF L 3 k x)"
  using assms by (simp_all add: hmac_value hash2_value kdf1_value kdf2_value kdf3_value)

theorem key_derivation_reference_witness:
  "blake2s_ok demo_lib \<and> hmac demo_lib [1] [2] = Inr (HMAC demo_lib [1] [2]) \<and>
   hash2 demo_lib [7] [] = Inr (7 # replicate 31 0)"
  using demo_blake2s_ok key_derivation_reference [OF demo_blake2s_ok, of "[1]" "[2]" "[7]" "[]"]
  by (simp add: H_def demo_lib_def numeral_eq_Suc)

text \<open>
  The AEAD nonce of a counter is four zero bytes and the counter in little-endian order, so
  distinct 64-bit counters give distinct nonces, and the counter can be read back.
\<close>

theorem nonce_of_counter:
  "Nonce c = replicate 4 0 @ le_bytes 8 c \<and> length (Nonce c) = 12 \<and>
   read_le 8 (drop 4 (Nonce c)) = c \<and> (Nonce c = Nonce d \<longleftrightarrow> c = d)"
  by (simp add: Nonce_inject) (simp add: Nonce_value read_le_le_bytes)

text \<open>
  The timestamp of a later clock reading never compares lower, and it compares strictly higher
  exactly when the readings differ after the nanoseconds were rounded down to \<open>2^24\<close>. The comparison
  of the twelve big-endian bytes is the order of the rounded clock readings, for every time whose
  seconds fit below \<open>2^62\<close>.
\<close>

theorem timestamps_follow_the_clock:
  assumes "clock_range a" and "clock_range b"
  shows "(timestamp_after (timestamp a) (timestamp b) \<longleftrightarrow> coarse b < coarse a) \<and>
    (a \<le> b \<longrightarrow> \<not> timestamp_after (timestamp a) (timestamp b))"
  using assms coarse_mono [of a b] by (auto simp: timestamp_order)

theorem timestamps_follow_the_clock_witness:
  "timestamp_after (timestamp (Timespec 1700000001 0)) (timestamp (Timespec 1700000000 999999999)) \<and>
   \<not> timestamp_after (timestamp (Timespec 1700000000 5)) (timestamp (Timespec 1700000000 6))"
  using timestamps_follow_the_clock [of "Timespec 1700000001 0" "Timespec 1700000000 999999999"]
    timestamps_follow_the_clock [of "Timespec 1700000000 5" "Timespec 1700000000 6"]
  by (simp add: clock_range_def coarse_def less_timespec_def less_eq_timespec_def)

text \<open>
  A generated private key is the random key with the bits that X25519 requires: the three
  lowest bits cleared, the highest cleared, the second highest set, every other bit as drawn. The
  public key belongs to it, and two generated key pairs agree on a shared secret.
\<close>

theorem generated_keys_agree:
  assumes "x25519_ok L" and "length r = 32" and "length r' = 32"
  shows "\<exists>a A b B s. generate_keypair L r = Inr (a, A) \<and> generate_keypair L r' = Inr (b, B) \<and>
    derive_public L a = Inr A \<and> dh L a B = Some s \<and> dh L b A = Some s \<and> length s = 32 \<and>
    a ! 0 = r ! 0 AND 248 \<and> a ! 31 = (r ! 31 AND 127) OR 64 \<and> (\<forall>i. 0 < i \<and> i < 31 \<longrightarrow> a ! i = r ! i)"
proof -
  obtain a where a: "generate_keypair L r = Inr (a, snd (scalarmult_base L a))" "length a = 32"
      "a ! 0 = r ! 0 AND 248" "a ! 31 = (r ! 31 AND 127) OR 64" "\<forall>i. 0 < i \<longrightarrow> i < 31 \<longrightarrow> a ! i = r ! i"
    using generate_keypair_value [OF assms(1,2)] by blast
  obtain b where b: "generate_keypair L r' = Inr (b, snd (scalarmult_base L b))" "length b = 32"
    using generate_keypair_value [OF assms(1,3)] by blast
  from dh_agree [OF assms(1) a(2) b(2)] a b derive_public_value [OF assms(1) a(2)] show ?thesis by blast
qed

theorem generated_keys_agree_witness:
  "x25519_ok demo_lib \<and> (\<exists>a A b B s. generate_keypair demo_lib (replicate 32 255) = Inr (a, A) \<and>
    generate_keypair demo_lib (replicate 32 1) = Inr (b, B) \<and> dh demo_lib a B = Some s \<and>
    dh demo_lib b A = Some s \<and> a ! 0 = 248 \<and> a ! 31 = 127)"
proof -
  have "(replicate 32 255 :: bytes) ! 0 AND 248 = 248" "((replicate 32 255 :: bytes) ! 31 AND 127) OR 64 = 127"
    by simp_all
  with generated_keys_agree [OF demo_x25519_ok, of "replicate 32 255" "replicate 32 1"] demo_x25519_ok
  show ?thesis by fastforce
qed

end
