(* ===== verification/Noise.thy ===== *)
theory Noise
  imports Crypto
begin

text \<open>
  The Noise IKpsk2 handshake, \<^verbatim>\<open>src/src/noise.h\<close> and \<^verbatim>\<open>src/src/noise.cpp\<close>, with the key buffers
  of \<^verbatim>\<open>src/src/secure_buf.h\<close>. The state of a handshake object is the record \<open>Handshake\<close>; an
  operation takes it and returns the new one together with its other outputs, all inside
  \<open>exn + _\<close> because the hash wrappers may throw. A buffer that is written is passed in and
  returned, also on the paths that give up half way. Random bytes and the clock are arguments.

  The second half states the message formulas of the protocol as pure functions (\<open>wp_initiation\<close>,
  \<open>wp_response\<close>) and proves that the code writes and accepts exactly these messages.
\<close>

unbundle bit_operations_syntax

section \<open>Key buffers\<close>

definition SecureBuf :: "nat \<Rightarrow> bytes" where
  "SecureBuf n = replicate n 0"

definition wipe :: "bytes \<Rightarrow> bytes" where
  "wipe buf = replicate (length buf) 0"

text \<open>What the storage holds when the object is gone: a buffer's bytes, and the page given back to the allocator.\<close>

definition SecureBuf_destroy :: "bytes \<Rightarrow> bytes" where
  "SecureBuf_destroy buf = wipe buf"

definition LockedKey_destroy :: "bytes option \<Rightarrow> bytes option" where
  "LockedKey_destroy key = (case key of None \<Rightarrow> None | Some buf \<Rightarrow> Some (wipe buf))"

text \<open>The argument says whether the guarded allocation succeeds.\<close>

definition LockedKey :: "bool \<Rightarrow> bytes result" where
  "LockedKey allocated = (if \<not> allocated then Inl Bad_alloc else Inr (replicate 32 0))"

section \<open>Fixed strings and local helpers\<close>

definition kPresharedKeySize :: nat where [simp]: "kPresharedKeySize = 32"

definition kConstruction :: string where "kConstruction = ''Noise_IKpsk2_25519_ChaChaPoly_BLAKE2s''"
definition kIdentifier :: string where "kIdentifier = ''WireGuard v1 zx2c4 Jason@zx2c4.com''"
definition kLabelMac1 :: string where "kLabelMac1 = ''mac1----''"

definition bytes_of :: "string \<Rightarrow> bytes" where
  "bytes_of text = map of_char text"

definition zero_psk :: bytes where
  "zero_psk = replicate kPresharedKeySize 0"

definition noise_write_u32_le :: "nat \<Rightarrow> u32 \<Rightarrow> bytes \<Rightarrow> bytes" where
  "noise_write_u32_le off value out =
     fold (\<lambda>i out. out[off + i := ucast (drop_bit (8 * i) value AND 0xff)]) [0..<4] out"

definition noise_write_prefix :: "bytes \<Rightarrow> msg_type \<Rightarrow> bytes" where
  "noise_write_prefix out t = out[0 := type_byte t, 1 := 0, 2 := 0, 3 := 0]"

definition write_macs :: "'s crypto_lib \<Rightarrow> bytes \<Rightarrow> bytes \<Rightarrow> bytes result" where
  "write_macs L message mac1_key =
     (case (mac1_input message, mac1_field message, mac2_field message) of
        (Some input, Some mac1, Some mac2) \<Rightarrow>
          bindR (mac L mac1_key input) (\<lambda>tag.
            Inr (blit mac2 (replicate kMacSize 0) (blit mac1 tag message)))
      | _ \<Rightarrow> Inr message)"

definition noise_begin :: "'s crypto_lib \<Rightarrow> bytes \<Rightarrow> (bytes \<times> bytes) result" where
  "noise_begin L responder_static =
     bindR (hash L (bytes_of kConstruction)) (\<lambda>chaining_key.
     bindR (hash2 L chaining_key (bytes_of kIdentifier)) (\<lambda>h.
     bindR (hash2 L h responder_static) (\<lambda>h. Inr (chaining_key, h))))"

definition mix_hash :: "'s crypto_lib \<Rightarrow> bytes \<Rightarrow> bytes \<Rightarrow> bytes result" where
  "mix_hash L h data = hash2 L h data"

definition mix_dh :: "'s crypto_lib \<Rightarrow> bytes \<Rightarrow> bytes \<Rightarrow> bytes \<Rightarrow> bytes option result" where
  "mix_dh L chaining_key private_key peer_public =
     (case dh L private_key peer_public of
        None \<Rightarrow> Inr None
      | Some shared \<Rightarrow> bindR (kdf1 L chaining_key shared) (\<lambda>c. Inr (Some c)))"

definition mix_dh_key ::
  "'s crypto_lib \<Rightarrow> bytes \<Rightarrow> bytes \<Rightarrow> bytes \<Rightarrow> (bytes \<times> bytes) option result" where
  "mix_dh_key L chaining_key private_key peer_public =
     (case dh L private_key peer_public of
        None \<Rightarrow> Inr None
      | Some shared \<Rightarrow> bindR (kdf2 L chaining_key shared) (\<lambda>ck. Inr (Some ck)))"

definition copy_into :: "bytes \<Rightarrow> bytes \<Rightarrow> bytes" where
  "copy_into destination source = blit 0 source destination"

definition mac1_ok :: "'s crypto_lib \<Rightarrow> bytes \<Rightarrow> bytes \<Rightarrow> bytes \<Rightarrow> bool result" where
  "mac1_ok L message mac1_key claimed =
     (case mac1_input message of
        None \<Rightarrow> Inr False
      | Some input \<Rightarrow> bindR (mac L mac1_key input) (\<lambda>expected. Inr (crypto_equal L expected claimed)))"

section \<open>Identities\<close>

record Identity =
  id_private_key :: bytes
  id_public_key :: bytes
  id_peer_public :: bytes
  id_own_mac1_key :: bytes
  id_peer_mac1_key :: bytes

definition make_Identity :: "'s crypto_lib \<Rightarrow> bool \<Rightarrow> bytes \<Rightarrow> bytes \<Rightarrow> Identity result" where
  "make_Identity L allocated private_key peer_public =
     bindR (LockedKey allocated) (\<lambda>locked.
     let locked = blit 0 private_key locked;
         peer = blit 0 peer_public (replicate kKeySize 0)
     in bindR (derive_public L locked) (\<lambda>public_key.
        bindR (hash2 L (bytes_of kLabelMac1) public_key) (\<lambda>own_mac1_key.
        bindR (hash2 L (bytes_of kLabelMac1) peer) (\<lambda>peer_mac1_key.
          Inr \<lparr>id_private_key = locked, id_public_key = public_key, id_peer_public = peer,
               id_own_mac1_key = own_mac1_key, id_peer_mac1_key = peer_mac1_key\<rparr>))))"

definition Identity_from_base64 ::
  "'s crypto_lib \<Rightarrow> bool \<Rightarrow> string \<Rightarrow> string \<Rightarrow> Identity option result" where
  "Identity_from_base64 L allocated private_key peer_public =
     (case (from_base64 L private_key, from_base64 L peer_public) of
        (Some priv, Some pub) \<Rightarrow>
          if length priv \<noteq> kKeySize \<or> length pub \<noteq> kKeySize then Inr None
          else bindR (make_Identity L allocated priv pub) (\<lambda>I. Inr (Some I))
      | _ \<Rightarrow> Inr None)"

text \<open>
  The file is given by the mode bits that \<^verbatim>\<open>stat\<close> reports, if it succeeds, and the contents, if it
  can be opened. What is printed to stderr is a list of the diagnostics, not their wording.
\<close>

datatype identity_diag =
    Cannot_read string
  | Mode_warning string u32
  | Cannot_open string
  | Invalid_key string

fun getline :: "string \<Rightarrow> string" where
  "getline [] = []"
| "getline (c # cs) = (if c = CHR ''\<newline>'' then [] else c # getline cs)"

text \<open>The loop that pops trailing carriage returns and blanks, on the reversed line.\<close>

fun trim_back :: "string \<Rightarrow> string" where
  "trim_back [] = []"
| "trim_back (c # cs) = (if c = CHR 0x0D \<or> c = CHR '' '' then trim_back cs else c # cs)"

definition load_identity ::
  "'s crypto_lib \<Rightarrow> bool \<Rightarrow> u32 option \<Rightarrow> string option \<Rightarrow> string \<Rightarrow> string \<Rightarrow>
   (identity_diag list \<times> Identity option) result" where
  "load_identity L allocated st_mode contents private_key_path peer_public_base64 =
     (case st_mode of
        None \<Rightarrow> Inr ([Cannot_read private_key_path], None)
      | Some mode \<Rightarrow>
          let err = (if mode AND 0x3f \<noteq> 0 then [Mode_warning private_key_path (mode AND 0xfff)] else [])
          in (case contents of
               None \<Rightarrow> Inr (err @ [Cannot_open private_key_path], None)
             | Some text \<Rightarrow>
                 let line = rev (trim_back (rev (getline text)))
                 in bindR (Identity_from_base64 L allocated line peer_public_base64) (\<lambda>identity.
                      Inr (if identity = None then err @ [Invalid_key private_key_path] else err, identity))))"

section \<open>The timestamp guard\<close>

record TimestampGuard =
  tg_greatest :: bytes
  tg_seen :: bool

definition TimestampGuard_init :: TimestampGuard where
  "TimestampGuard_init = \<lparr>tg_greatest = replicate crypto_kTimestampSize 0, tg_seen = False\<rparr>"

definition guard_accept :: "TimestampGuard \<Rightarrow> bytes \<Rightarrow> TimestampGuard \<times> bool" where
  "guard_accept g ts =
     (if tg_seen g \<and> \<not> timestamp_after ts (tg_greatest g) then (g, False)
      else (\<lparr>tg_greatest = blit 0 ts (tg_greatest g), tg_seen = True\<rparr>, True))"

section \<open>The handshake\<close>

record TransportKeys =
  tk_send :: bytes
  tk_receive :: bytes
  tk_local_index :: u32
  tk_peer_index :: u32

definition TransportKeys_init :: TransportKeys where
  "TransportKeys_init =
     \<lparr>tk_send = SecureBuf kKeySize, tk_receive = SecureBuf kKeySize, tk_local_index = 0, tk_peer_index = 0\<rparr>"

record Handshake =
  hs_identity :: Identity
  hs_chaining_key :: bytes
  hs_hash :: bytes
  hs_ephemeral_private :: bytes
  hs_ephemeral_public :: bytes
  hs_peer_ephemeral :: bytes
  hs_local_index :: u32
  hs_peer_index :: u32

definition Handshake_init :: "Identity \<Rightarrow> Handshake" where
  "Handshake_init I =
     \<lparr>hs_identity = I, hs_chaining_key = SecureBuf kHashSize, hs_hash = SecureBuf kHashSize,
      hs_ephemeral_private = SecureBuf kKeySize, hs_ephemeral_public = replicate kKeySize 0,
      hs_peer_ephemeral = replicate kKeySize 0, hs_local_index = 0, hs_peer_index = 0\<rparr>"

definition write_initiation ::
  "'s crypto_lib \<Rightarrow> bytes \<Rightarrow> bytes \<Rightarrow> timespec \<Rightarrow> Handshake \<Rightarrow> bytes \<Rightarrow>
   (Handshake \<times> bytes \<times> bytes option) result" where
  "write_initiation L rnd_index rnd_key clock hs out =
     (if length out < kInitiationSize then Inr (hs, out, None)
      else
        let I = hs_identity hs; message = take kInitiationSize out; rest = drop kInitiationSize out
        in bindR (noise_begin L (id_peer_public I)) (\<lambda>(chaining_key, h).
           let index = random_index rnd_index;
               message = noise_write_prefix message handshake_initiation;
               message = noise_write_u32_le kInitiationSenderOffset index message
           in
           bindR (generate_keypair L rnd_key) (\<lambda>(ephemeral_private, ephemeral_public).
           bindR (kdf1 L chaining_key ephemeral_public) (\<lambda>chaining_key.
           let message = blit kInitiationEphemeralOffset ephemeral_public message in
           bindR (mix_hash L h ephemeral_public) (\<lambda>h.
           bindR (mix_dh_key L chaining_key ephemeral_private (id_peer_public I)) (\<lambda>mixed.
           case mixed of None \<Rightarrow> Inr (hs, message @ rest, None) | Some (chaining_key, key) \<Rightarrow>
           bindR (crypto_seal L kEncryptedStaticSize key 0 (id_public_key I) h) (\<lambda>field.
           let message = blit kInitiationStaticOffset field message in
           bindR (mix_hash L h field) (\<lambda>h.
           bindR (mix_dh_key L chaining_key (id_private_key I) (id_peer_public I)) (\<lambda>mixed.
           case mixed of None \<Rightarrow> Inr (hs, message @ rest, None) | Some (chaining_key, key) \<Rightarrow>
           let now = timestamp clock in
           bindR (crypto_seal L kEncryptedTimestampSize key 0 now h) (\<lambda>field.
           let message = blit kInitiationTimestampOffset field message in
           bindR (mix_hash L h field) (\<lambda>h.
           bindR (write_macs L message (id_peer_mac1_key I)) (\<lambda>message.
             Inr (hs\<lparr>hs_chaining_key := copy_into (hs_chaining_key hs) chaining_key,
                      hs_hash := copy_into (hs_hash hs) h,
                      hs_ephemeral_private := blit 0 ephemeral_private (hs_ephemeral_private hs),
                      hs_ephemeral_public := ephemeral_public,
                      hs_local_index := index\<rparr>,
                  message @ rest, Some message)))))))))))))"

definition read_initiation ::
  "'s crypto_lib \<Rightarrow> Handshake \<Rightarrow> TimestampGuard \<Rightarrow> bytes \<Rightarrow>
   (Handshake \<times> TimestampGuard \<times> bool) result" where
  "read_initiation L hs g message =
     (case decode message of
        Some (Msg_Initiation initiation) \<Rightarrow>
          let I = hs_identity hs; rejected = Inr (hs, g, False) in
          bindR (mac1_ok L message (id_own_mac1_key I) (hi_mac1 initiation)) (\<lambda>ok.
          if \<not> ok then rejected else
          bindR (noise_begin L (id_public_key I)) (\<lambda>(chaining_key, h).
          bindR (kdf1 L chaining_key (hi_ephemeral initiation)) (\<lambda>chaining_key.
          bindR (mix_hash L h (hi_ephemeral initiation)) (\<lambda>h.
          bindR (mix_dh_key L chaining_key (id_private_key I) (hi_ephemeral initiation)) (\<lambda>mixed.
          case mixed of None \<Rightarrow> rejected | Some (chaining_key, key) \<Rightarrow>
          (case crypto_open L kKeySize key 0 (hi_encrypted_static initiation) h of
             None \<Rightarrow> rejected
           | Some claimed_static \<Rightarrow>
          bindR (mix_hash L h (hi_encrypted_static initiation)) (\<lambda>h.
          if \<not> crypto_equal L claimed_static (id_peer_public I) then rejected else
          bindR (mix_dh_key L chaining_key (id_private_key I) claimed_static) (\<lambda>mixed.
          case mixed of None \<Rightarrow> rejected | Some (chaining_key, key) \<Rightarrow>
          (case crypto_open L crypto_kTimestampSize key 0 (hi_encrypted_timestamp initiation) h of
             None \<Rightarrow> rejected
           | Some ts \<Rightarrow>
          bindR (mix_hash L h (hi_encrypted_timestamp initiation)) (\<lambda>h.
          let (g', fresh) = guard_accept g ts in
          if \<not> fresh then Inr (hs, g', False)
          else Inr (hs\<lparr>hs_chaining_key := copy_into (hs_chaining_key hs) chaining_key,
                         hs_hash := copy_into (hs_hash hs) h,
                         hs_peer_ephemeral := blit 0 (hi_ephemeral initiation) (hs_peer_ephemeral hs),
                         hs_peer_index := hi_sender_index initiation\<rparr>,
                    g', True)))))))))))
      | _ \<Rightarrow> Inr (hs, g, False))"

definition write_response ::
  "'s crypto_lib \<Rightarrow> bytes \<Rightarrow> bytes \<Rightarrow> Handshake \<Rightarrow> bytes \<Rightarrow> TransportKeys \<Rightarrow>
   (Handshake \<times> bytes \<times> TransportKeys \<times> bytes option) result" where
  "write_response L rnd_index rnd_key hs out keys =
     (if length out < kResponseSize then Inr (hs, out, keys, None)
      else
        let I = hs_identity hs; message = take kResponseSize out; rest = drop kResponseSize out;
            chaining_key = copy_into (SecureBuf kHashSize) (hs_chaining_key hs);
            h = copy_into (SecureBuf kHashSize) (hs_hash hs);
            index = random_index rnd_index;
            message = noise_write_prefix message handshake_response;
            message = noise_write_u32_le kResponseSenderOffset index message;
            message = noise_write_u32_le kResponseReceiverOffset (hs_peer_index hs) message
        in bindR (generate_keypair L rnd_key) (\<lambda>(ephemeral_private, ephemeral_public).
           bindR (kdf1 L chaining_key ephemeral_public) (\<lambda>chaining_key.
           let message = blit kResponseEphemeralOffset ephemeral_public message in
           bindR (mix_hash L h ephemeral_public) (\<lambda>h.
           bindR (mix_dh L chaining_key ephemeral_private (hs_peer_ephemeral hs)) (\<lambda>mixed.
           case mixed of None \<Rightarrow> Inr (hs, message @ rest, keys, None) | Some chaining_key \<Rightarrow>
           bindR (mix_dh L chaining_key ephemeral_private (id_peer_public I)) (\<lambda>mixed.
           case mixed of None \<Rightarrow> Inr (hs, message @ rest, keys, None) | Some chaining_key \<Rightarrow>
           bindR (kdf3 L chaining_key zero_psk) (\<lambda>(chaining_key, tau, key).
           bindR (mix_hash L h tau) (\<lambda>h.
           bindR (crypto_seal L kEncryptedNothingSize key 0 [] h) (\<lambda>field.
           let message = blit kResponseNothingOffset field message in
           bindR (mix_hash L h field) (\<lambda>h.
           bindR (kdf2 L chaining_key []) (\<lambda>(receive, send).
           let keys = keys\<lparr>tk_receive := receive, tk_send := send,
                           tk_local_index := index, tk_peer_index := hs_peer_index hs\<rparr>;
               hs = hs\<lparr>hs_local_index := index, hs_chaining_key := wipe (hs_chaining_key hs),
                       hs_hash := wipe (hs_hash hs),
                       hs_ephemeral_private := wipe (hs_ephemeral_private hs)\<rparr>
           in bindR (write_macs L message (id_peer_mac1_key I)) (\<lambda>message.
                Inr (hs, message @ rest, keys, Some message)))))))))))))"

definition read_response ::
  "'s crypto_lib \<Rightarrow> Handshake \<Rightarrow> bytes \<Rightarrow> TransportKeys \<Rightarrow>
   (Handshake \<times> TransportKeys \<times> bool) result" where
  "read_response L hs message keys =
     (case decode message of
        Some (Msg_Response response) \<Rightarrow>
          let I = hs_identity hs; rejected = Inr (hs, keys, False) in
          if hr_receiver_index response \<noteq> hs_local_index hs then rejected else
          bindR (mac1_ok L message (id_own_mac1_key I) (hr_mac1 response)) (\<lambda>ok.
          if \<not> ok then rejected else
          let chaining_key = copy_into (SecureBuf kHashSize) (hs_chaining_key hs);
              h = copy_into (SecureBuf kHashSize) (hs_hash hs) in
          bindR (kdf1 L chaining_key (hr_ephemeral response)) (\<lambda>chaining_key.
          bindR (mix_hash L h (hr_ephemeral response)) (\<lambda>h.
          bindR (mix_dh L chaining_key (hs_ephemeral_private hs) (hr_ephemeral response)) (\<lambda>mixed.
          case mixed of None \<Rightarrow> rejected | Some chaining_key \<Rightarrow>
          bindR (mix_dh L chaining_key (id_private_key I) (hr_ephemeral response)) (\<lambda>mixed.
          case mixed of None \<Rightarrow> rejected | Some chaining_key \<Rightarrow>
          bindR (kdf3 L chaining_key zero_psk) (\<lambda>(chaining_key, tau, key).
          bindR (mix_hash L h tau) (\<lambda>h.
          if crypto_open L 0 key 0 (hr_encrypted_nothing response) h = None then rejected else
          bindR (mix_hash L h (hr_encrypted_nothing response)) (\<lambda>h.
          bindR (kdf2 L chaining_key []) (\<lambda>(send, receive).
            Inr (hs\<lparr>hs_peer_ephemeral := blit 0 (hr_ephemeral response) (hs_peer_ephemeral hs),
                     hs_peer_index := hr_sender_index response,
                     hs_chaining_key := wipe (hs_chaining_key hs),
                     hs_hash := wipe (hs_hash hs),
                     hs_ephemeral_private := wipe (hs_ephemeral_private hs)\<rparr>,
                 keys\<lparr>tk_send := send, tk_receive := receive,
                      tk_local_index := hs_local_index hs,
                      tk_peer_index := hr_sender_index response\<rparr>,
                 True))))))))))
      | _ \<Rightarrow> Inr (hs, keys, False))"

section \<open>The messages of the protocol\<close>

definition wp_C :: "'s crypto_lib \<Rightarrow> bytes" where
  "wp_C L = H L (bytes_of kConstruction)"

definition wp_H :: "'s crypto_lib \<Rightarrow> bytes \<Rightarrow> bytes" where
  "wp_H L S = H L (H L (wp_C L @ bytes_of kIdentifier) @ S)"

text \<open>
  An initiation to the static key \<open>S\<close> with ephemeral key \<open>E\<close> and the shared secrets \<open>es\<close> and \<open>ss\<close>:
  the two sealed fields, the chaining keys and the transcript hashes.
\<close>

definition wp_c1 :: "'s crypto_lib \<Rightarrow> bytes \<Rightarrow> bytes" where
  "wp_c1 L E = KDF L 1 (wp_C L) E"

definition wp_h1 :: "'s crypto_lib \<Rightarrow> bytes \<Rightarrow> bytes \<Rightarrow> bytes" where
  "wp_h1 L S E = H L (wp_H L S @ E)"

definition wp_static :: "'s crypto_lib \<Rightarrow> bytes \<Rightarrow> bytes \<Rightarrow> bytes \<Rightarrow> bytes \<Rightarrow> bytes" where
  "wp_static L S E es Si = aead_encrypt L (KDF L 2 (wp_c1 L E) es) (Nonce 0) (wp_h1 L S E) Si"

definition wp_c2 :: "'s crypto_lib \<Rightarrow> bytes \<Rightarrow> bytes \<Rightarrow> bytes" where
  "wp_c2 L E es = KDF L 1 (wp_c1 L E) es"

definition wp_h2 :: "'s crypto_lib \<Rightarrow> bytes \<Rightarrow> bytes \<Rightarrow> bytes \<Rightarrow> bytes \<Rightarrow> bytes" where
  "wp_h2 L S E es Si = H L (wp_h1 L S E @ wp_static L S E es Si)"

definition wp_time :: "'s crypto_lib \<Rightarrow> bytes \<Rightarrow> bytes \<Rightarrow> bytes \<Rightarrow> bytes \<Rightarrow> bytes \<Rightarrow> bytes \<Rightarrow> bytes" where
  "wp_time L S E es ss Si T =
     aead_encrypt L (KDF L 2 (wp_c2 L E es) ss) (Nonce 0) (wp_h2 L S E es Si) T"

definition wp_c3 :: "'s crypto_lib \<Rightarrow> bytes \<Rightarrow> bytes \<Rightarrow> bytes \<Rightarrow> bytes" where
  "wp_c3 L E es ss = KDF L 1 (wp_c2 L E es) ss"

definition wp_h3 :: "'s crypto_lib \<Rightarrow> bytes \<Rightarrow> bytes \<Rightarrow> bytes \<Rightarrow> bytes \<Rightarrow> bytes \<Rightarrow> bytes \<Rightarrow> bytes" where
  "wp_h3 L S E es ss Si T = H L (wp_h2 L S E es Si @ wp_time L S E es ss Si T)"

definition mac1_key :: "'s crypto_lib \<Rightarrow> bytes \<Rightarrow> bytes" where
  "mac1_key L S = H L (bytes_of kLabelMac1 @ S)"

definition wp_initiation ::
  "'s crypto_lib \<Rightarrow> u32 \<Rightarrow> bytes \<Rightarrow> bytes \<Rightarrow> bytes \<Rightarrow> bytes \<Rightarrow> bytes \<Rightarrow> bytes \<Rightarrow> bytes \<Rightarrow> HandshakeInitiation"
where
  "wp_initiation L i S E es ss Si T mac2 =
     \<lparr>hi_sender_index = i, hi_ephemeral = E, hi_encrypted_static = wp_static L S E es Si,
      hi_encrypted_timestamp = wp_time L S E es ss Si T,
      hi_mac1 = MAC L (mac1_key L S) (prefix_bytes handshake_initiation @ le_bytes 4 i @ E @
        wp_static L S E es Si @ wp_time L S E es ss Si T),
      hi_mac2 = mac2\<rparr>"

text \<open>
  A response to a transcript \<open>(c, h)\<close> with ephemeral key \<open>E\<close> and the shared secrets \<open>ee\<close> and \<open>se\<close>,
  to a peer with static key \<open>S\<close>.
\<close>

definition wp_cr :: "'s crypto_lib \<Rightarrow> bytes \<Rightarrow> bytes \<Rightarrow> bytes \<Rightarrow> bytes \<Rightarrow> bytes" where
  "wp_cr L c E ee se = KDF L 1 (KDF L 1 (KDF L 1 c E) ee) se"

definition wp_hr :: "'s crypto_lib \<Rightarrow> bytes \<Rightarrow> bytes \<Rightarrow> bytes \<Rightarrow> bytes \<Rightarrow> bytes \<Rightarrow> bytes" where
  "wp_hr L c h E ee se = H L (H L (h @ E) @ KDF L 2 (wp_cr L c E ee se) zero_psk)"

definition wp_nothing :: "'s crypto_lib \<Rightarrow> bytes \<Rightarrow> bytes \<Rightarrow> bytes \<Rightarrow> bytes \<Rightarrow> bytes \<Rightarrow> bytes" where
  "wp_nothing L c h E ee se =
     aead_encrypt L (KDF L 3 (wp_cr L c E ee se) zero_psk) (Nonce 0) (wp_hr L c h E ee se) []"

definition wp_response ::
  "'s crypto_lib \<Rightarrow> u32 \<Rightarrow> u32 \<Rightarrow> bytes \<Rightarrow> bytes \<Rightarrow> bytes \<Rightarrow> bytes \<Rightarrow> bytes \<Rightarrow> bytes \<Rightarrow> bytes \<Rightarrow> HandshakeResponse"
where
  "wp_response L i r S c h E ee se mac2 =
     \<lparr>hr_sender_index = i, hr_receiver_index = r, hr_ephemeral = E,
      hr_encrypted_nothing = wp_nothing L c h E ee se,
      hr_mac1 = MAC L (mac1_key L S) (prefix_bytes handshake_response @ le_bytes 4 i @ le_bytes 4 r @
        E @ wp_nothing L c h E ee se),
      hr_mac2 = mac2\<rparr>"

text \<open>The two transport keys: the first is for packets from the initiator.\<close>

definition wp_key :: "'s crypto_lib \<Rightarrow> nat \<Rightarrow> bytes \<Rightarrow> bytes \<Rightarrow> bytes \<Rightarrow> bytes \<Rightarrow> bytes" where
  "wp_key L n c E ee se = KDF L n (KDF L 1 (wp_cr L c E ee se) zero_psk) []"

section \<open>Well-formed objects\<close>

definition wf_Identity :: "'s crypto_lib \<Rightarrow> Identity \<Rightarrow> bool" where
  "wf_Identity L I \<longleftrightarrow>
     length (id_private_key I) = 32 \<and> length (id_public_key I) = 32 \<and> length (id_peer_public I) = 32 \<and>
     id_public_key I = snd (scalarmult_base L (id_private_key I)) \<and>
     id_own_mac1_key I = mac1_key L (id_public_key I) \<and>
     id_peer_mac1_key I = mac1_key L (id_peer_public I)"

definition wf_Handshake :: "'s crypto_lib \<Rightarrow> Handshake \<Rightarrow> bool" where
  "wf_Handshake L hs \<longleftrightarrow>
     wf_Identity L (hs_identity hs) \<and> length (hs_chaining_key hs) = 32 \<and> length (hs_hash hs) = 32 \<and>
     length (hs_ephemeral_private hs) = 32 \<and> length (hs_ephemeral_public hs) = 32 \<and>
     length (hs_peer_ephemeral hs) = 32"

definition wf_guard :: "TimestampGuard \<Rightarrow> bool" where
  "wf_guard g \<longleftrightarrow> length (tg_greatest g) = 12"

definition clamp :: "bytes \<Rightarrow> bytes" where
  "clamp r = (r[0 := r ! 0 AND 248])[31 := (r ! 31 AND 127) OR 64]"

section \<open>Values of the helpers\<close>

named_theorems noise_simps

lemma H_append_length [simp]: "blake2s_ok L \<Longrightarrow> length h = 32 \<Longrightarrow> length (H L (h @ d)) = 32"
  by (rule H_length) auto

lemma label_length [simp]: "bytes_of kLabelMac1 \<noteq> []" "bytes_of kConstruction \<noteq> []"
  by (simp_all add: bytes_of_def kLabelMac1_def kConstruction_def)

lemma wp_lengths [simp]:
  assumes "blake2s_ok L"
  shows "length (wp_C L) = 32" "length (wp_H L S) = 32" "length (wp_c1 L E) = 32"
    "length (wp_h1 L S E) = 32" "length (wp_c2 L E es) = 32" "length (wp_h2 L S E es Si) = 32"
    "length (wp_c3 L E es ss) = 32" "length (wp_h3 L S E es ss Si T) = 32" "length (mac1_key L S) = 32"
    "length (wp_cr L c E ee se) = 32"
  using assms by (simp_all add: wp_C_def wp_H_def wp_c1_def wp_h1_def wp_c2_def wp_h2_def wp_c3_def
      wp_h3_def mac1_key_def wp_cr_def)

lemma wp_sealed_lengths [simp]:
  assumes "aead_ok L"
  shows "length (wp_static L S E es Si) = length Si + 16" "length (wp_time L S E es ss Si T) = length T + 16"
    "length (wp_nothing L c h E ee se) = 16"
  using assms by (simp_all add: wp_static_def wp_time_def wp_nothing_def aead_length)

lemma hash2_32: "blake2s_ok L \<Longrightarrow> length h = 32 \<Longrightarrow> hash2 L h d = Inr (H L (h @ d))"
  by (rule hash2_value) auto

lemma noise_begin_value [noise_simps]: "blake2s_ok L \<Longrightarrow> noise_begin L S = Inr (wp_C L, wp_H L S)"
  by (simp add: noise_begin_def hash_value hash2_32 wp_C_def wp_H_def)

lemma mix_hash_value [noise_simps]:
  "blake2s_ok L \<Longrightarrow> length h = 32 \<Longrightarrow> mix_hash L h d = Inr (H L (h @ d))"
  unfolding mix_hash_def by (rule hash2_32)

lemma mix_dh_value [noise_simps]:
  "blake2s_ok L \<Longrightarrow> mix_dh L c a B = Inr (map_option (KDF L 1 c) (dh L a B))"
  by (simp add: mix_dh_def kdf1_value split: option.split)

lemma mix_dh_key_value [noise_simps]:
  "blake2s_ok L \<Longrightarrow> mix_dh_key L c a B = Inr (map_option (\<lambda>s. (KDF L 1 c s, KDF L 2 c s)) (dh L a B))"
  by (simp add: mix_dh_key_def kdf2_value split: option.split)

lemma copy_into_value [simp]: "length dest = length src \<Longrightarrow> copy_into dest src = src"
  by (simp add: copy_into_def blit_def)

lemma blit_0_value [simp]: "length dest = length src \<Longrightarrow> blit 0 src dest = src"
  by (simp add: blit_def)

lemma SecureBuf_length [simp]: "length (SecureBuf n) = n"
  by (simp add: SecureBuf_def)

lemma wipe_length [simp]: "length (wipe b) = length b"
  by (simp add: wipe_def)

lemma clamp_length [simp]: "length (clamp r) = length r"
  by (simp add: clamp_def)

lemma generate_keypair_clamp [noise_simps]:
  "x25519_ok L \<Longrightarrow> length r = 32 \<Longrightarrow> generate_keypair L r = Inr (clamp r, snd (scalarmult_base L (clamp r)))"
  by (simp add: generate_keypair_def Let_def derive_public_value clamp_def)

lemma public_length [simp]: "x25519_ok L \<Longrightarrow> length a = 32 \<Longrightarrow> length (snd (scalarmult_base L a)) = 32"
  by (simp add: x25519_ok_def)

lemma noise_write_u32_le_eq: "noise_write_u32_le off v out = write_u32_le off v out"
  by (simp add: noise_write_u32_le_def write_u32_le_def)

lemma noise_write_prefix_eq: "noise_write_prefix out t = write_prefix out t"
  by (simp add: noise_write_prefix_def write_prefix_def)

lemmas noise_writes = noise_write_u32_le_eq noise_write_prefix_eq le_write_simps

lemma mac1_ok_value:
  assumes "blake2s_ok L" and "memcmp_ok L" and "length k = 32" and "mac1_input m = Some x"
  shows "mac1_ok L m k claimed = Inr (claimed = MAC L k x)"
proof -
  from assms(4) have "x \<noteq> []" by (auto simp: mac1_input_def mac_offsets_def split: if_splits)
  with assms show ?thesis by (auto simp: mac1_ok_def mac_value crypto_equal_iff)
qed

lemma mac_offsets_prefix:
  assumes "take 4 m = prefix_bytes t"
  shows "mac_offsets m =
    (if t = handshake_initiation \<and> length m = 148 then Some \<lparr>mo_mac1 = 116, mo_mac2 = 132\<rparr>
     else if t = handshake_response \<and> length m = 92 then Some \<lparr>mo_mac1 = 60, mo_mac2 = 76\<rparr> else None)"
proof -
  have n: "m ! i = prefix_bytes t ! i" if "i < 4" for i using assms that by (metis nth_take)
  have "4 \<le> length m" using arg_cong [OF assms, of length] by simp
  then show ?thesis
    using n [of 0] n [of 1] n [of 2] n [of 3]
    by (cases t) (simp_all add: mac_offsets_def prefix_ok_def prefix_bytes_def)
qed

lemma write_macs_value:
  assumes "blake2s_ok L" and "length k = 32" and "take 4 m = prefix_bytes t"
    and "t = handshake_initiation \<and> length m = 148 \<and> n = 116 \<or> t = handshake_response \<and> length m = 92 \<and> n = 60"
  shows "write_macs L m k = Inr (take n m @ MAC L k (take n m) @ replicate 16 0)"
proof -
  have "take n m \<noteq> []" using assms(4) by auto
  with assms show ?thesis
    by (auto simp: write_macs_def mac1_input_def mac1_field_def mac2_field_def mac_offsets_prefix
        mac_value blit_def)
qed

section \<open>Writing messages\<close>

lemma timestamp_length [simp]: "length (timestamp t) = 12"
  by (simp add: timestamp_be_list)

lemma initiation_assembly:
  assumes "length out = 148" and "length E = 32" and "length s = 48" and "length t = 28"
    and "M = blit 88 t (blit 40 s (blit 8 E (noise_write_u32_le 4 i (noise_write_prefix out handshake_initiation))))"
  shows "take 116 M = prefix_bytes handshake_initiation @ le_bytes 4 i @ E @ s @ t" and "length M = 148"
  using assms by (simp_all add: noise_writes take_blit_exact prefix_bytes_def)

lemma response_assembly:
  assumes "length out = 92" and "length E = 32" and "length s = 16"
    and "M = blit 44 s (blit 12 E (noise_write_u32_le 8 r (noise_write_u32_le 4 i (noise_write_prefix out handshake_response))))"
  shows "take 60 M = prefix_bytes handshake_response @ le_bytes 4 i @ le_bytes 4 r @ E @ s" and "length M = 92"
  using assms by (simp_all add: noise_writes take_blit_exact prefix_bytes_def)

lemma write_macs_initiation:
  assumes "blake2s_ok L" and "length k = 32" and "take 116 M = prefix_bytes handshake_initiation @ x" and "length M = 148"
  shows "write_macs L M k = Inr (prefix_bytes handshake_initiation @ x @ MAC L k (prefix_bytes handshake_initiation @ x) @ replicate 16 0)"
proof -
  have "take 4 M = take 4 (take 116 M)" by simp
  then have "take 4 M = prefix_bytes handshake_initiation" unfolding assms(3) by simp
  then show ?thesis using assms by (subst write_macs_value [where n = 116]) auto
qed

lemma write_macs_response:
  assumes "blake2s_ok L" and "length k = 32" and "take 60 M = prefix_bytes handshake_response @ x" and "length M = 92"
  shows "write_macs L M k = Inr (prefix_bytes handshake_response @ x @ MAC L k (prefix_bytes handshake_response @ x) @ replicate 16 0)"
proof -
  have "take 4 M = take 4 (take 60 M)" by simp
  then have "take 4 M = prefix_bytes handshake_response" unfolding assms(3) by simp
  then show ?thesis using assms by (subst write_macs_value [where n = 60]) auto
qed

lemma crypto_okD:
  assumes "crypto_ok L" shows "blake2s_ok L" "x25519_ok L" "aead_ok L" "memcmp_ok L"
  using assms by (simp_all add: crypto_ok_def)

lemma wf_HandshakeD:
  assumes "wf_Handshake L hs" and "I = hs_identity hs"
  shows "length (id_private_key I) = 32" "length (id_public_key I) = 32" "length (id_peer_public I) = 32"
     "id_public_key I = snd (scalarmult_base L (id_private_key I))"
     "id_own_mac1_key I = mac1_key L (id_public_key I)"
     "id_peer_mac1_key I = mac1_key L (id_peer_public I)"
     "length (hs_chaining_key hs) = 32" "length (hs_hash hs) = 32"
     "length (hs_ephemeral_private hs) = 32" "length (hs_peer_ephemeral hs) = 32"
  using assms unfolding wf_Handshake_def wf_Identity_def by blast+

lemma write_initiation_value:
  assumes "crypto_ok L" and "wf_Handshake L hs" and "length rk = 32" and "148 \<le> length out"
    and "I = hs_identity hs" and "e = clamp rk" and "E = snd (scalarmult_base L e)"
    and "dh L e (id_peer_public I) = Some es" and "dh L (id_private_key I) (id_peer_public I) = Some ss"
    and "m = wp_initiation L (random_index ri) (id_peer_public I) E es ss (id_public_key I) (timestamp now) (replicate 16 0)"
  shows "write_initiation L ri rk now hs out =
    Inr (hs\<lparr>hs_chaining_key := wp_c3 L E es ss,
            hs_hash := wp_h3 L (id_peer_public I) E es ss (id_public_key I) (timestamp now),
            hs_ephemeral_private := e, hs_ephemeral_public := E, hs_local_index := random_index ri\<rparr>,
         initiation_layout m @ drop 148 out, Some (initiation_layout m))"
proof -
  note ok = crypto_okD [OF assms(1)] and wf = wf_HandshakeD [OF assms(2,5)]
  let ?S = "id_peer_public I" and ?Si = "id_public_key I" and ?T = "timestamp now"
  let ?M = "blit 88 (wp_time L ?S E es ss ?Si ?T) (blit 40 (wp_static L ?S E es ?Si)
     (blit 8 E (noise_write_u32_le 4 (random_index ri) (noise_write_prefix (take 148 out) handshake_initiation))))"
  have E: "length E = 32" using assms ok by simp
  have M: "take 116 ?M = prefix_bytes handshake_initiation @ le_bytes 4 (random_index ri) @ E @
      wp_static L ?S E es ?Si @ wp_time L ?S E es ss ?Si ?T" "length ?M = 148"
    using assms(4) E ok wf(2) by (intro initiation_assembly [OF _ _ _ _ refl]; simp)+
  have mac: "write_macs L ?M (id_peer_mac1_key I) = Inr (initiation_layout m)"
    using ok wf(6) by (subst write_macs_initiation [OF _ _ M])
      (simp_all add: assms(10) wp_initiation_def initiation_layout_def)
  have c: "wp_c1 L E = KDF L 1 (wp_C L) E" "wp_c2 L E es = KDF L 1 (wp_c1 L E) es"
    "wp_c3 L E es ss = KDF L 1 (wp_c2 L E es) ss" by (simp_all add: wp_c1_def wp_c2_def wp_c3_def)
  have s: "crypto_seal L 48 (KDF L 2 (wp_c1 L E) es) 0 ?Si (wp_h1 L ?S E) = Inr (wp_static L ?S E es ?Si)"
    "crypto_seal L 28 (KDF L 2 (wp_c2 L E es) ss) 0 ?T (wp_h2 L ?S E es ?Si) = Inr (wp_time L ?S E es ss ?Si ?T)"
    using wf(2) by (simp_all add: crypto_seal_value wp_static_def wp_time_def)
  have h: "mix_hash L (wp_H L ?S) E = Inr (wp_h1 L ?S E)"
    "mix_hash L (wp_h1 L ?S E) (wp_static L ?S E es ?Si) = Inr (wp_h2 L ?S E es ?Si)"
    "mix_hash L (wp_h2 L ?S E es ?Si) (wp_time L ?S E es ss ?Si ?T) = Inr (wp_h3 L ?S E es ss ?Si ?T)"
    using ok by (simp_all add: mix_hash_value wp_h1_def wp_h2_def wp_h3_def)
  have k: "generate_keypair L rk = Inr (e, E)" "length e = 32"
    using ok assms by (simp_all add: generate_keypair_clamp)
  show ?thesis
    using assms(4) k(2) ok wf(7-9) unfolding write_initiation_def assms(5) [symmetric]
    by (simp add: Let_def noise_begin_value k(1) kdf1_value mix_dh_key_value assms(8,9)
        c [symmetric] s h mac del: One_nat_def)
qed

lemma write_response_value:
  assumes "crypto_ok L" and "wf_Handshake L hs" and "length rk = 32" and "92 \<le> length out"
    and "I = hs_identity hs" and "c = hs_chaining_key hs" and "h = hs_hash hs"
    and "e = clamp rk" and "E = snd (scalarmult_base L e)"
    and "dh L e (hs_peer_ephemeral hs) = Some ee" and "dh L e (id_peer_public I) = Some se"
    and "m = wp_response L (random_index ri) (hs_peer_index hs) (id_peer_public I) c h E ee se (replicate 16 0)"
  shows "write_response L ri rk hs out keys =
    Inr (hs\<lparr>hs_local_index := random_index ri, hs_chaining_key := replicate 32 0,
            hs_hash := replicate 32 0, hs_ephemeral_private := replicate 32 0\<rparr>,
         response_layout m @ drop 92 out,
         keys\<lparr>tk_receive := wp_key L 1 c E ee se, tk_send := wp_key L 2 c E ee se,
              tk_local_index := random_index ri, tk_peer_index := hs_peer_index hs\<rparr>,
         Some (response_layout m))"
proof -
  note ok = crypto_okD [OF assms(1)] and wf = wf_HandshakeD [OF assms(2,5)]
  let ?M = "blit 44 (wp_nothing L c h E ee se) (blit 12 E (noise_write_u32_le 8 (hs_peer_index hs)
     (noise_write_u32_le 4 (random_index ri) (noise_write_prefix (take 92 out) handshake_response))))"
  have E: "length E = 32" using assms ok by simp
  have M: "take 60 ?M = prefix_bytes handshake_response @ le_bytes 4 (random_index ri) @
      le_bytes 4 (hs_peer_index hs) @ E @ wp_nothing L c h E ee se" "length ?M = 92"
    using assms(4) E ok by (intro response_assembly [OF _ _ _ refl]; simp)+
  have mac: "write_macs L ?M (id_peer_mac1_key I) = Inr (response_layout m)"
    using ok wf(6) by (subst write_macs_response [OF _ _ M])
      (simp_all add: assms(12) wp_response_def response_layout_def)
  let ?C = "wp_cr L c E ee se"
  have c: "KDF L 1 (KDF L 1 (KDF L 1 c E) ee) se = ?C" by (simp add: wp_cr_def)
  have s: "crypto_seal L 16 (KDF L 3 ?C zero_psk) 0 [] (wp_hr L c h E ee se) = Inr (wp_nothing L c h E ee se)"
    by (simp add: crypto_seal_value wp_nothing_def)
  have "length h = 32" using wf(8) assms(7) by simp
  then have hh: "mix_hash L h E = Inr (H L (h @ E))"
    "mix_hash L (H L (h @ E)) (KDF L 2 ?C zero_psk) = Inr (wp_hr L c h E ee se)"
    "mix_hash L (wp_hr L c h E ee se) x = Inr (H L (wp_hr L c h E ee se @ x))" for x
    using ok by (simp_all add: mix_hash_value wp_hr_def)
  have k: "generate_keypair L rk = Inr (e, E)" "length e = 32"
    using ok assms by (simp_all add: generate_keypair_clamp)
  have key: "KDF L n (KDF L 1 ?C zero_psk) [] = wp_key L n c E ee se" for n by (simp add: wp_key_def)
  show ?thesis
    using assms(4) ok wf(7-9) unfolding write_response_def assms(5) [symmetric]
    by (simp add: Let_def k(1) kdf1_value kdf2_value kdf3_value mix_dh_value assms(10,11) key
        assms(6,7) [symmetric] c s hh mac wipe_def del: One_nat_def)
qed

section \<open>Reading messages\<close>

definition valid_response :: "'s crypto_lib \<Rightarrow> Handshake \<Rightarrow> bytes \<Rightarrow> u32 \<Rightarrow> bytes \<Rightarrow> bytes \<Rightarrow> bytes \<Rightarrow> bytes \<Rightarrow> bool" where
  "valid_response L hs d i E ee se mac2 \<longleftrightarrow>
     length E = 32 \<and> length mac2 = 16 \<and>
     dh L (hs_ephemeral_private hs) E = Some ee \<and> dh L (id_private_key (hs_identity hs)) E = Some se \<and>
     d = response_layout (wp_response L i (hs_local_index hs) (id_public_key (hs_identity hs))
           (hs_chaining_key hs) (hs_hash hs) E ee se mac2)"

lemma read_response_cases:
  assumes "crypto_ok L" and "wf_Handshake L hs" and "decode d = Some (Msg_Response r)"
    and "I = hs_identity hs" and "c = hs_chaining_key hs" and "h = hs_hash hs"
    and "E = hr_ephemeral r"
  shows "read_response L hs d keys =
    (if hr_receiver_index r \<noteq> hs_local_index hs \<or> hr_mac1 r \<noteq> MAC L (mac1_key L (id_public_key I)) (take 60 d)
     then Inr (hs, keys, False)
     else case (dh L (hs_ephemeral_private hs) E, dh L (id_private_key I) E) of
       (Some ee, Some se) \<Rightarrow>
         if crypto_open L 0 (KDF L 3 (wp_cr L c E ee se) zero_psk) 0 (hr_encrypted_nothing r) (wp_hr L c h E ee se) = None
         then Inr (hs, keys, False)
         else Inr (hs\<lparr>hs_peer_ephemeral := E, hs_peer_index := hr_sender_index r,
                hs_chaining_key := replicate 32 0, hs_hash := replicate 32 0, hs_ephemeral_private := replicate 32 0\<rparr>,
              keys\<lparr>tk_send := wp_key L 1 c E ee se, tk_receive := wp_key L 2 c E ee se,
                tk_local_index := hs_local_index hs, tk_peer_index := hr_sender_index r\<rparr>, True)
     | _ \<Rightarrow> Inr (hs, keys, False))"
proof -
  note ok = crypto_okD [OF assms(1)] and wf = wf_HandshakeD [OF assms(2,4)]
  have E: "length E = 32" using response_layout_decode [OF assms(3)] assms(7) by (simp add: wf_defs)
  have mac: "mac1_ok L d (id_own_mac1_key I) x = Inr (x = MAC L (mac1_key L (id_public_key I)) (take 60 d))" for x
    using ok wf(5) mac1_input_layout(2) [OF assms(3)] by (subst mac1_ok_value) auto
  have c: "KDF L 1 (KDF L 1 (KDF L 1 c E) ee) se = wp_cr L c E ee se" for ee se by (simp add: wp_cr_def)
  have "length h = 32" using wf(8) assms(6) by simp
  then have hh: "mix_hash L h E = Inr (H L (h @ E))"
    "mix_hash L (H L (h @ E)) (KDF L 2 (wp_cr L c E ee se) zero_psk) = Inr (wp_hr L c h E ee se)"
    "mix_hash L (wp_hr L c h E ee se) x = Inr (H L (wp_hr L c h E ee se @ x))" for x ee se
    using ok by (simp_all add: mix_hash_value wp_hr_def)
  have key: "KDF L n (KDF L 1 (wp_cr L c E ee se) zero_psk) [] = wp_key L n c E ee se" for n ee se by (simp add: wp_key_def)
  show ?thesis
    using ok wf(7-10) E unfolding read_response_def assms(3,4) [symmetric]
    by (simp add: assms(3) Let_def mac kdf1_value kdf2_value kdf3_value mix_dh_value key
        assms(5-7) [symmetric] c hh wipe_def del: One_nat_def split: option.split)
qed

definition valid_initiation ::
  "'s crypto_lib \<Rightarrow> Identity \<Rightarrow> bytes \<Rightarrow> u32 \<Rightarrow> bytes \<Rightarrow> bytes \<Rightarrow> bytes \<Rightarrow> bytes \<Rightarrow> bytes \<Rightarrow> bool" where
  "valid_initiation L I d i E es ss T mac2 \<longleftrightarrow>
     length E = 32 \<and> length T = 12 \<and> length mac2 = 16 \<and>
     dh L (id_private_key I) E = Some es \<and> dh L (id_private_key I) (id_peer_public I) = Some ss \<and>
     d = initiation_layout (wp_initiation L i (id_public_key I) E es ss (id_peer_public I) T mac2)"

lemma read_initiation_cases:
  assumes "crypto_ok L" and "wf_Handshake L hs" and "decode d = Some (Msg_Initiation r)"
    and "I = hs_identity hs" and "S = id_public_key I" and "E = hi_ephemeral r" and "P = id_peer_public I"
    and "s = hi_encrypted_static r" and "t = hi_encrypted_timestamp r"
  shows "read_initiation L hs g d =
    (if hi_mac1 r \<noteq> MAC L (mac1_key L S) (take 116 d) then Inr (hs, g, False)
     else (case dh L (id_private_key I) E of None \<Rightarrow> Inr (hs, g, False) | Some es \<Rightarrow>
      (case crypto_open L 32 (KDF L 2 (wp_c1 L E) es) 0 s (wp_h1 L S E) of None \<Rightarrow> Inr (hs, g, False) | Some Si \<Rightarrow>
       if Si \<noteq> P then Inr (hs, g, False)
       else (case dh L (id_private_key I) P of None \<Rightarrow> Inr (hs, g, False) | Some ss \<Rightarrow>
        (case crypto_open L 12 (KDF L 2 (wp_c2 L E es) ss) 0 t (H L (wp_h1 L S E @ s)) of
           None \<Rightarrow> Inr (hs, g, False)
         | Some T \<Rightarrow>
            if snd (guard_accept g T)
            then Inr (hs\<lparr>hs_chaining_key := wp_c3 L E es ss, hs_hash := H L (H L (wp_h1 L S E @ s) @ t),
                hs_peer_ephemeral := E, hs_peer_index := hi_sender_index r\<rparr>, fst (guard_accept g T), True)
            else Inr (hs, g, False))))))"
proof -
  note ok = crypto_okD [OF assms(1)] and wf = wf_HandshakeD [OF assms(2,4)]
  have E: "length E = 32" using initiation_layout_decode [OF assms(3)] assms(6) by (simp add: wf_defs)
  have mac: "mac1_ok L d (id_own_mac1_key I) x = Inr (x = MAC L (mac1_key L S) (take 116 d))" for x
    using ok wf(5) assms(5) mac1_input_layout(1) [OF assms(3)] by (subst mac1_ok_value) auto
  have c: "KDF L 1 (wp_C L) E = wp_c1 L E" "KDF L 1 (wp_c1 L E) es = wp_c2 L E es"
    "KDF L 1 (wp_c2 L E es) ss = wp_c3 L E es ss" for es ss by (simp_all add: wp_c1_def wp_c2_def wp_c3_def)
  have hh: "mix_hash L (wp_H L S) E = Inr (wp_h1 L S E)"
    "mix_hash L (wp_h1 L S E) x = Inr (H L (wp_h1 L S E @ x))"
    "mix_hash L (H L (wp_h1 L S E @ x)) y = Inr (H L (H L (wp_h1 L S E @ x) @ y))" for x y
    using ok by (simp_all add: mix_hash_value wp_h1_def)
  have g: "\<not> snd (guard_accept g T) \<Longrightarrow> guard_accept g T = (g, False)" for T
    by (simp add: guard_accept_def split: if_splits)
  show ?thesis
    using ok wf(7-10) E unfolding read_initiation_def assms(3) assms(4) [symmetric]
    by (simp add: Let_def mac noise_begin_value kdf1_value mix_dh_key_value crypto_equal_iff
        assms(5-9) [symmetric] c hh g split_beta del: One_nat_def split: option.split)
qed

end
