(* ===== verification/Noise_Protocol.thy ===== *)
theory Noise_Protocol
  imports Noise
begin

text \<open>
  What the handshake of \<^verbatim>\<open>src/src/noise.cpp\<close> guarantees: which datagrams the two readers accept,
  that a complete exchange gives both sides the same keys, that no initiation is accepted twice,
  what the two writers put into the buffer, and when an identity can be loaded. The replay defence
  is proved through the locale \<open>high_water\<close>, an interface of filters that keep a strictly
  increasing mark, interpreted on the code's timestamp guard.
\<close>

lemma take_116_layout:
  "aead_ok L \<Longrightarrow> length E = 32 \<Longrightarrow> length Si = 32 \<Longrightarrow> length T = 12 \<Longrightarrow>
   take 116 (initiation_layout (wp_initiation L i S E es ss Si T mac2)) =
     prefix_bytes handshake_initiation @ le_bytes 4 i @ E @ wp_static L S E es Si @ wp_time L S E es ss Si T"
  by (simp add: initiation_layout_def wp_initiation_def)

lemma take_60_layout:
  "aead_ok L \<Longrightarrow> length E = 32 \<Longrightarrow>
   take 60 (response_layout (wp_response L i r S c h E ee se mac2)) =
     prefix_bytes handshake_response @ le_bytes 4 i @ le_bytes 4 r @ E @ wp_nothing L c h E ee se"
  by (simp add: response_layout_def wp_response_def)

lemma prefix_bytes_neq_Nil [simp]: "prefix_bytes t \<noteq> []"
  by (simp add: prefix_bytes_def)

lemma wf_wp_initiation:
  assumes "crypto_ok L" and "length E = 32" and "length Si = 32" and "length T = 12" and "length mac2 = 16"
  shows "wf_HandshakeInitiation (wp_initiation L i S E es ss Si T mac2)"
  using assms crypto_okD [OF assms(1)] by (simp add: wp_initiation_def wf_defs)

lemma wf_wp_response:
  assumes "crypto_ok L" and "length E = 32" and "length mac2 = 16"
  shows "wf_HandshakeResponse (wp_response L i r S c h E ee se mac2)"
  using assms crypto_okD [OF assms(1)] by (simp add: wp_response_def wf_defs)

lemma read_initiation_accepts:
  assumes "crypto_ok L" and "wf_Handshake L hs" and "I = hs_identity hs"
    and "valid_initiation L I d i E es ss T mac2" and "snd (guard_accept g T)"
  shows "read_initiation L hs g d =
    Inr (hs\<lparr>hs_chaining_key := wp_c3 L E es ss,
            hs_hash := wp_h3 L (id_public_key I) E es ss (id_peer_public I) T,
            hs_peer_ephemeral := E, hs_peer_index := i\<rparr>, fst (guard_accept g T), True)"
proof -
  let ?m = "wp_initiation L i (id_public_key I) E es ss (id_peer_public I) T mac2"
  note ok = crypto_okD [OF assms(1)] and wf = wf_HandshakeD [OF assms(2,3)]
  from assms(4) have v: "length E = 32" "length T = 12" "length mac2 = 16"
      "dh L (id_private_key I) E = Some es" "dh L (id_private_key I) (id_peer_public I) = Some ss"
      "d = initiation_layout ?m"
    unfolding valid_initiation_def by blast+
  have dec: "decode d = Some (Msg_Initiation ?m)"
    using v wf(3) assms(1) by (simp add: decode_initiation_layout wf_wp_initiation)
  have mac: "hi_mac1 ?m = MAC L (mac1_key L (id_public_key I)) (take 116 d)"
    using take_116_layout [OF ok(3) v(1) wf(3) v(2)] by (simp add: v(6)) (simp add: wp_initiation_def)
  have op: "crypto_open L 32 (KDF L 2 (wp_c1 L E) es) 0 (wp_static L S E es (id_peer_public I)) (wp_h1 L S E) = Some (id_peer_public I)"
    "crypto_open L 12 (KDF L 2 (wp_c2 L E es) ss) 0 (wp_time L S E es ss P T) (wp_h2 L S E es P) = Some T" for S P
    using ok wf(3) v(2) by (simp_all add: wp_static_def wp_time_def crypto_open_encrypt)
  have h: "H L (wp_h1 L S E @ wp_static L S E es P) = wp_h2 L S E es P"
    "H L (wp_h2 L S E es P @ wp_time L S E es ss P T) = wp_h3 L S E es ss P T" for S P
    by (simp_all add: wp_h2_def wp_h3_def)
  have f: "hi_ephemeral ?m = E" "hi_encrypted_static ?m = wp_static L (id_public_key I) E es (id_peer_public I)"
    "hi_encrypted_timestamp ?m = wp_time L (id_public_key I) E es ss (id_peer_public I) T" "hi_sender_index ?m = i"
    by (simp_all add: wp_initiation_def)
  show ?thesis
    using assms(5) mac by (simp add: read_initiation_cases [OF assms(1,2) dec assms(3) refl refl refl refl refl] f v(4,5) op h)
qed

lemma read_initiation_rejects:
  assumes "crypto_ok L" and "aead_authentic L" and "wf_Handshake L hs" and "I = hs_identity hs"
    and "\<And>i E es ss T mac2. valid_initiation L I d i E es ss T mac2 \<Longrightarrow> \<not> snd (guard_accept g T)"
  shows "read_initiation L hs g d = Inr (hs, g, False)"
proof (cases "\<exists>r. decode d = Some (Msg_Initiation r)")
  case False
  then show ?thesis by (auto simp: read_initiation_def split: option.split message.split)
next
  case True
  then obtain r where dec: "decode d = Some (Msg_Initiation r)" by blast
  show ?thesis
  proof (rule ccontr)
    assume no: "read_initiation L hs g d \<noteq> Inr (hs, g, False)"
    let ?E = "hi_ephemeral r" and ?S = "id_public_key I" and ?P = "id_peer_public I"
    note ok = crypto_okD [OF assms(1)] and wf = wf_HandshakeD [OF assms(3,4)]
    from no [unfolded read_initiation_cases [OF assms(1,3) dec assms(4) refl refl refl refl refl]]
    obtain es ss T where v: "hi_mac1 r = MAC L (mac1_key L ?S) (take 116 d)"
        "dh L (id_private_key I) ?E = Some es" "dh L (id_private_key I) ?P = Some ss"
        "crypto_open L 32 (KDF L 2 (wp_c1 L ?E) es) 0 (hi_encrypted_static r) (wp_h1 L ?S ?E) = Some ?P"
        "crypto_open L 12 (KDF L 2 (wp_c2 L ?E es) ss) 0 (hi_encrypted_timestamp r)
           (H L (wp_h1 L ?S ?E @ hi_encrypted_static r)) = Some T"
        "snd (guard_accept g T)"
      by (auto split: if_splits option.splits)
    have wfr: "wf_HandshakeInitiation r" "initiation_layout r = d" using initiation_layout_decode [OF dec] by auto
    have s: "hi_encrypted_static r = wp_static L ?S ?E es ?P"
      using crypto_open_authentic [OF assms(2) v(4)] by (simp add: wp_static_def)
    have t: "hi_encrypted_timestamp r = wp_time L ?S ?E es ss ?P T"
      using crypto_open_authentic [OF assms(2) v(5)] s by (simp add: wp_time_def wp_h2_def)
    have T: "length T = 12" using arg_cong [OF t, of length] wfr(1) ok by (simp add: wf_defs)
    have "take 116 d = prefix_bytes handshake_initiation @ le_bytes 4 (hi_sender_index r) @ ?E @
        wp_static L ?S ?E es ?P @ wp_time L ?S ?E es ss ?P T"
      using wfr(1) unfolding wfr(2) [symmetric] initiation_layout_def s [symmetric] t [symmetric] by (simp add: wf_defs)
    then have "r = wp_initiation L (hi_sender_index r) ?S ?E es ss ?P T (hi_mac2 r)"
      using v(1) s t by (simp add: wp_initiation_def)
    then have "valid_initiation L I d (hi_sender_index r) ?E es ss T (hi_mac2 r)"
      using wfr v(2,3) T by (auto simp: valid_initiation_def wf_defs)
    with assms(5) v(6) show False by blast
  qed
qed

lemma read_response_accepts:
  assumes "crypto_ok L" and "wf_Handshake L hs" and "valid_response L hs d i E ee se mac2"
    and "c = hs_chaining_key hs"
  shows "read_response L hs d keys =
    Inr (hs\<lparr>hs_peer_ephemeral := E, hs_peer_index := i, hs_chaining_key := replicate 32 0,
            hs_hash := replicate 32 0, hs_ephemeral_private := replicate 32 0\<rparr>,
         keys\<lparr>tk_send := wp_key L 1 c E ee se, tk_receive := wp_key L 2 c E ee se,
              tk_local_index := hs_local_index hs, tk_peer_index := i\<rparr>, True)"
proof -
  let ?I = "hs_identity hs" and ?h = "hs_hash hs"
  let ?m = "wp_response L i (hs_local_index hs) (id_public_key ?I) c ?h E ee se mac2"
  note ok = crypto_okD [OF assms(1)]
  from assms(3,4) have v: "length E = 32" "length mac2 = 16" "dh L (hs_ephemeral_private hs) E = Some ee"
      "dh L (id_private_key ?I) E = Some se" "d = response_layout ?m"
    unfolding valid_response_def by blast+
  have dec: "decode d = Some (Msg_Response ?m)"
    using v assms(1) by (simp add: decode_response_layout wf_wp_response)
  have mac: "hr_mac1 ?m = MAC L (mac1_key L (id_public_key ?I)) (take 60 d)"
    using take_60_layout [OF ok(3) v(1)] by (simp add: v(5)) (simp add: wp_response_def)
  have op: "crypto_open L 0 (KDF L 3 (wp_cr L c E ee se) zero_psk) 0 (wp_nothing L c ?h E ee se) (wp_hr L c ?h E ee se) = Some []"
    using ok by (simp add: wp_nothing_def crypto_open_encrypt)
  have f: "hr_ephemeral ?m = E" "hr_encrypted_nothing ?m = wp_nothing L c ?h E ee se"
    "hr_sender_index ?m = i" "hr_receiver_index ?m = hs_local_index hs"
    by (simp_all add: wp_response_def)
  show ?thesis
    using mac by (simp add: read_response_cases [OF assms(1,2) dec refl assms(4) refl refl] f v(3,4) op)
qed

lemma read_response_rejects:
  assumes "crypto_ok L" and "aead_authentic L" and "wf_Handshake L hs"
    and "\<And>i E ee se mac2. \<not> valid_response L hs d i E ee se mac2"
  shows "read_response L hs d keys = Inr (hs, keys, False)"
proof (cases "\<exists>r. decode d = Some (Msg_Response r)")
  case False
  then show ?thesis by (auto simp: read_response_def split: option.split message.split)
next
  case True
  then obtain r where dec: "decode d = Some (Msg_Response r)" by blast
  show ?thesis
  proof (rule ccontr)
    assume no: "read_response L hs d keys \<noteq> Inr (hs, keys, False)"
    let ?E = "hr_ephemeral r" and ?I = "hs_identity hs" and ?c = "hs_chaining_key hs" and ?h = "hs_hash hs"
    let ?S = "id_public_key ?I"
    note ok = crypto_okD [OF assms(1)]
    from no [unfolded read_response_cases [OF assms(1,3) dec refl refl refl refl]]
    obtain ee se p where v: "hr_receiver_index r = hs_local_index hs" "hr_mac1 r = MAC L (mac1_key L ?S) (take 60 d)"
        "dh L (hs_ephemeral_private hs) ?E = Some ee" "dh L (id_private_key ?I) ?E = Some se"
        "crypto_open L 0 (KDF L 3 (wp_cr L ?c ?E ee se) zero_psk) 0 (hr_encrypted_nothing r) (wp_hr L ?c ?h ?E ee se) = Some p"
      by (auto split: if_splits option.splits)
    have wfr: "wf_HandshakeResponse r" "response_layout r = d" using response_layout_decode [OF dec] by auto
    note n = crypto_open_authentic [OF assms(2) v(5)]
    have "p = []" using arg_cong [OF n, of length] wfr(1) ok by (simp add: wf_defs aead_length)
    with n have n: "hr_encrypted_nothing r = wp_nothing L ?c ?h ?E ee se" by (simp add: wp_nothing_def)
    have "take 60 d = prefix_bytes handshake_response @ le_bytes 4 (hr_sender_index r) @
        le_bytes 4 (hr_receiver_index r) @ ?E @ wp_nothing L ?c ?h ?E ee se"
      using wfr(1) unfolding wfr(2) [symmetric] response_layout_def n [symmetric] by (simp add: wf_defs)
    then have "r = wp_response L (hr_sender_index r) (hs_local_index hs) ?S ?c ?h ?E ee se (hr_mac2 r)"
      using v(1,2) n by (simp add: wp_response_def)
    then have "valid_response L hs d (hr_sender_index r) ?E ee se (hr_mac2 r)"
      using wfr v(3,4) by (auto simp: valid_response_def wf_defs)
    with assms(4) show False by blast
  qed
qed

section \<open>Identities\<close>

lemma make_Identity_value:
  assumes "crypto_ok L" and "length a = 32" and "length P = 32"
  shows "\<exists>I. make_Identity L True a P = Inr I \<and> wf_Identity L I \<and> id_private_key I = a \<and> id_peer_public I = P"
  using crypto_okD [OF assms(1)] assms
  by (simp add: make_Identity_def LockedKey_def Let_def derive_public_value hash2_value wf_Identity_def mac1_key_def)

lemma wf_Handshake_init: "wf_Identity L I \<Longrightarrow> wf_Handshake L (Handshake_init I)"
  by (simp add: wf_Handshake_def Handshake_init_def)

lemma write_initiation_fails:
  assumes "crypto_ok L" and "wf_Handshake L hs" and "length rk = 32" and "I = hs_identity hs"
    and "length out < 148 \<or> dh L (clamp rk) (id_peer_public I) = None \<or>
      dh L (id_private_key I) (id_peer_public I) = None"
  shows "\<exists>out'. write_initiation L ri rk now hs out = Inr (hs, out', None) \<and> length out' = length out \<and>
    drop 148 out' = drop 148 out"
proof (cases "length out < 148")
  case True
  then show ?thesis by (simp add: write_initiation_def)
next
  case False
  note ok = crypto_okD [OF assms(1)] and wf = wf_HandshakeD [OF assms(2,4)]
  let ?E = "snd (scalarmult_base L (clamp rk))"
  have E: "length ?E = 32" using ok assms(3) by simp
  have len: "length (noise_write_u32_le 4 i (noise_write_prefix (take 148 out) t)) = 148" for i t
    using False by (simp add: noise_writes)
  show ?thesis
  proof (cases "dh L (clamp rk) (id_peer_public I)")
    case None
    then show ?thesis
      using False ok E len assms(3) unfolding write_initiation_def assms(4) [symmetric]
      by (simp add: Let_def noise_begin_value generate_keypair_clamp kdf1_value mix_hash_value mix_dh_key_value)
  next
    case (Some es)
    with assms(5) False have "dh L (id_private_key I) (id_peer_public I) = None" by simp
    then show ?thesis
      using False ok E len Some assms(3) wf(2) unfolding write_initiation_def assms(4) [symmetric]
      by (simp add: Let_def noise_begin_value generate_keypair_clamp kdf1_value mix_hash_value mix_dh_key_value
          crypto_seal_def aead_length)
  qed
qed

lemma write_response_fails:
  assumes "crypto_ok L" and "wf_Handshake L hs" and "length rk = 32" and "I = hs_identity hs"
    and "length out < 92 \<or> dh L (clamp rk) (hs_peer_ephemeral hs) = None \<or>
      dh L (clamp rk) (id_peer_public I) = None"
  shows "\<exists>out'. write_response L ri rk hs out keys = Inr (hs, out', keys, None) \<and> length out' = length out \<and>
    drop 92 out' = drop 92 out"
proof (cases "length out < 92")
  case True
  then show ?thesis by (simp add: write_response_def)
next
  case False
  note ok = crypto_okD [OF assms(1)] and wf = wf_HandshakeD [OF assms(2,4)]
  let ?E = "snd (scalarmult_base L (clamp rk))"
  have E: "length ?E = 32" using ok assms(3) by simp
  have len: "length (noise_write_u32_le 8 j (noise_write_u32_le 4 i (noise_write_prefix (take 92 out) t))) = 92" for i j t
    using False by (simp add: noise_writes)
  show ?thesis
    using False ok E len assms(3,5) wf(7,8) unfolding write_response_def assms(4) [symmetric]
    by (cases "dh L (clamp rk) (hs_peer_ephemeral hs)")
      (auto simp: Let_def generate_keypair_clamp kdf1_value mix_hash_value mix_dh_value)
qed

section \<open>The timestamp guard as a high-water mark\<close>

text \<open>The values that a filter accepts out of a sequence, and its final state.\<close>

fun accepted :: "('st \<Rightarrow> 'v \<Rightarrow> 'st \<times> bool) \<Rightarrow> 'st \<Rightarrow> 'v list \<Rightarrow> 'v list" where
  "accepted acc s [] = []"
| "accepted acc s (v # vs) = (let (s', b) = acc s v in if b then v # accepted acc s' vs else accepted acc s' vs)"

text \<open>
  A filter with a mark: a value passes when there is no mark yet or when it is strictly above the
  mark; a value that passed is the new mark; a value that did not leaves the state alone.
\<close>

locale high_water =
  fixes acc :: "'st \<Rightarrow> 'v \<Rightarrow> 'st \<times> bool" and mark :: "'st \<Rightarrow> 'k option"
    and key :: "'v \<Rightarrow> 'k option" and above :: "'k \<Rightarrow> 'k \<Rightarrow> bool" and wf :: "'st \<Rightarrow> bool"
  assumes above_irrefl: "\<not> above k k"
    and above_trans: "above a b \<Longrightarrow> above b c \<Longrightarrow> above a c"
    and acc_wf: "wf s \<Longrightarrow> wf (fst (acc s v))"
    and acc_passes: "wf s \<Longrightarrow>
      snd (acc s v) \<longleftrightarrow> (case (key v, mark s) of (None, _) \<Rightarrow> False | (Some k, None) \<Rightarrow> True | (Some k, Some m) \<Rightarrow> above k m)"
    and acc_mark: "wf s \<Longrightarrow> mark (fst (acc s v)) = (if snd (acc s v) then key v else mark s)"
begin

lemma accepted_keys:
  assumes "wf s"
  shows "\<exists>ks. map key (accepted acc s vs) = map Some ks \<and> sorted_wrt (\<lambda>a b. above b a) ks \<and>
    (\<forall>k\<in>set ks. case mark s of None \<Rightarrow> True | Some m \<Rightarrow> above k m)"
  using assms
proof (induction vs arbitrary: s)
  case (Cons v vs)
  obtain s' b where sb: "acc s v = (s', b)" by fastforce
  from Cons.prems acc_wf sb have "wf s'" by (metis fst_conv)
  with Cons.IH obtain ks where ks: "map key (accepted acc s' vs) = map Some ks"
      "sorted_wrt (\<lambda>a b. above b a) ks" "\<forall>k\<in>set ks. case mark s' of None \<Rightarrow> True | Some m \<Rightarrow> above k m"
    by blast
  show ?case
  proof (cases b)
    case False
    with acc_mark [OF Cons.prems, of v] sb have "mark s' = mark s" by simp
    with ks sb False show ?thesis by auto
  next
    case True
    with acc_passes [OF Cons.prems, of v] sb obtain k where k: "key v = Some k"
        "case mark s of None \<Rightarrow> True | Some m \<Rightarrow> above k m"
      by (auto split: option.splits)
    moreover from True k acc_mark [OF Cons.prems, of v] sb have "mark s' = Some k" by simp
    ultimately show ?thesis using ks sb True above_trans
      by (intro exI [of _ "k # ks"]) (auto split: option.splits)
  qed
qed simp

lemma accepted_distinct:
  assumes "wf s"
  shows "distinct (accepted acc s vs)"
proof -
  obtain ks where ks: "map key (accepted acc s vs) = map Some ks" "sorted_wrt (\<lambda>a b. above b a) ks"
    using accepted_keys [OF assms] by blast
  from ks(2) have "distinct ks" by (induction ks) (use above_irrefl in auto)
  with ks(1) have "distinct (map key (accepted acc s vs))" by (simp add: distinct_map)
  then show ?thesis by (simp add: distinct_map)
qed

end

lemma timestamp_after_irrefl: "\<not> timestamp_after t t"
  by (induction t) auto

lemma timestamp_after_trans: "timestamp_after a b \<Longrightarrow> timestamp_after b c \<Longrightarrow> timestamp_after a c"
proof (induction a b arbitrary: c rule: timestamp_after.induct)
  case (1 a as b bs)
  then show ?case by (cases c) (auto split: if_splits)
qed auto

definition guard_mark :: "TimestampGuard \<Rightarrow> bytes option" where
  "guard_mark g = (if tg_seen g then Some (tg_greatest g) else None)"

text \<open>Stamps are twelve bytes long; a string of another length never reaches the guard.\<close>

interpretation guard: high_water
  "\<lambda>g t. if length t = 12 then guard_accept g t else (g, False)" guard_mark
  "\<lambda>t. if length t = 12 then Some t else None" timestamp_after wf_guard
  by unfold_locales
    (auto simp: guard_accept_def guard_mark_def wf_guard_def timestamp_after_irrefl
      intro: timestamp_after_trans split: option.splits)

text \<open>The stamp inside an initiation, if everything before the guard accepts the message.\<close>

definition initiation_time :: "'s crypto_lib \<Rightarrow> Identity \<Rightarrow> bytes \<Rightarrow> bytes option" where
  "initiation_time L I d =
     (case decode d of
        Some (Msg_Initiation r) \<Rightarrow>
          let S = id_public_key I; P = id_peer_public I; E = hi_ephemeral r; s = hi_encrypted_static r in
          if hi_mac1 r \<noteq> MAC L (mac1_key L S) (take 116 d) then None
          else Option.bind (dh L (id_private_key I) E) (\<lambda>es.
            if crypto_open L 32 (KDF L 2 (wp_c1 L E) es) 0 s (wp_h1 L S E) \<noteq> Some P then None
            else Option.bind (dh L (id_private_key I) P) (\<lambda>ss.
              crypto_open L 12 (KDF L 2 (wp_c2 L E es) ss) 0 (hi_encrypted_timestamp r)
                (H L (wp_h1 L S E @ s))))
      | _ \<Rightarrow> None)"

lemma read_initiation_guard:
  assumes "crypto_ok L" and "wf_Handshake L hs" and "I = hs_identity hs"
  shows "\<exists>hs'. read_initiation L hs g d =
    (case initiation_time L I d of
       None \<Rightarrow> Inr (hs, g, False)
     | Some T \<Rightarrow> Inr (if snd (guard_accept g T) then hs' else hs, guard_accept g T))"
proof (cases "\<exists>r. decode d = Some (Msg_Initiation r)")
  case False
  then show ?thesis
    by (auto simp: read_initiation_def initiation_time_def split: option.split message.split)
next
  case True
  then obtain r where dec: "decode d = Some (Msg_Initiation r)" by blast
  have g: "\<not> snd (guard_accept g T) \<Longrightarrow> guard_accept g T = (g, False)" for T
    by (simp add: guard_accept_def split: if_splits)
  show ?thesis
    unfolding read_initiation_cases [OF assms(1,2) dec assms(3) refl refl refl refl refl]
    by (auto simp: initiation_time_def dec Let_def g prod_eq_iff split: option.split)
qed

lemma initiation_time_length:
  assumes "crypto_ok L" and "aead_authentic L" and "initiation_time L I d = Some T"
  shows "length T = 12"
proof -
  from assms(3) obtain k x aad where o: "crypto_open L 12 k 0 x aad = Some T"
    by (auto simp: initiation_time_def Let_def split: option.splits message.splits if_splits bind_splits)
  from crypto_open_length [OF o] arg_cong [OF crypto_open_authentic [OF assms(2) o], of length]
    crypto_okD [OF assms(1)]
  show ?thesis by (simp add: aead_length)
qed

text \<open>A responder that starts a new handshake object for every datagram and keeps only the guard.\<close>

definition responder :: "'s crypto_lib \<Rightarrow> Identity \<Rightarrow> TimestampGuard \<Rightarrow> bytes \<Rightarrow> TimestampGuard \<times> bool" where
  "responder L I g d =
     (case read_initiation L (Handshake_init I) g d of Inl _ \<Rightarrow> (g, False) | Inr (hs, g', ok) \<Rightarrow> (g', ok))"

lemma responder_value:
  assumes "crypto_ok L" and "wf_Identity L I"
  shows "responder L I g d = (case initiation_time L I d of None \<Rightarrow> (g, False) | Some T \<Rightarrow> guard_accept g T)"
proof -
  have "hs_identity (Handshake_init I) = I" by (simp add: Handshake_init_def)
  with read_initiation_guard [OF assms(1) wf_Handshake_init [OF assms(2)] refl, of g d]
  show ?thesis by (auto simp: responder_def split: option.split prod.split)
qed

lemma responder_high_water:
  assumes "crypto_ok L" and "aead_authentic L" and "wf_Identity L I"
  shows "high_water (responder L I) guard_mark (initiation_time L I) timestamp_after wf_guard"
  using assms
  by unfold_locales
    (auto simp: responder_value guard_accept_def guard_mark_def wf_guard_def timestamp_after_irrefl
      intro: timestamp_after_trans dest: initiation_time_length split: option.splits)

lemma wf_guard_init: "wf_guard TimestampGuard_init"
  by (simp add: wf_guard_def TimestampGuard_init_def)

lemma first_guard_accept: "snd (guard_accept TimestampGuard_init t)"
  by (simp add: guard_accept_def TimestampGuard_init_def)

text \<open>Two identities that know each other, for the witnesses.\<close>

definition demo_identity :: "u8 \<Rightarrow> u8 \<Rightarrow> Identity" where
  "demo_identity a b =
     \<lparr>id_private_key = replicate 32 a, id_public_key = replicate 32 a, id_peer_public = replicate 32 b,
      id_own_mac1_key = mac1_key demo_lib (replicate 32 a), id_peer_mac1_key = mac1_key demo_lib (replicate 32 b)\<rparr>"

lemma demo_identity_wf: "wf_Identity demo_lib (demo_identity a b)"
  by (simp add: wf_Identity_def demo_identity_def demo_lib_def)

text \<open>Transport keys that belong together, and a handshake object that holds no secret.\<close>

definition mirrored :: "TransportKeys \<Rightarrow> TransportKeys \<Rightarrow> bool" where
  "mirrored a b \<longleftrightarrow>
     tk_send a = tk_receive b \<and> tk_receive a = tk_send b \<and>
     tk_local_index a = tk_peer_index b \<and> tk_peer_index a = tk_local_index b \<and>
     length (tk_send a) = 32 \<and> length (tk_receive a) = 32"

definition wiped :: "Handshake \<Rightarrow> bool" where
  "wiped hs \<longleftrightarrow> hs_chaining_key hs = replicate 32 0 \<and> hs_hash hs = replicate 32 0 \<and>
     hs_ephemeral_private hs = replicate 32 0"

lemma handshake_run:
  assumes "crypto_ok L" and "wf_Handshake L hi" and "wf_Handshake L hr"
    and "id_peer_public (hs_identity hi) = id_public_key (hs_identity hr)"
    and "id_peer_public (hs_identity hr) = id_public_key (hs_identity hi)"
    and "length rk1 = 32" and "length rk2 = 32" and "148 \<le> length out1" and "92 \<le> length out2"
    and "snd (guard_accept g (timestamp now))"
  shows "\<exists>hi1 o1 m1 hr1 hr2 o2 kr m2 hi2 ki.
    write_initiation L ri1 rk1 now hi out1 = Inr (hi1, o1, Some m1) \<and>
    read_initiation L hr g m1 = Inr (hr1, fst (guard_accept g (timestamp now)), True) \<and>
    write_response L ri2 rk2 hr1 out2 keys2 = Inr (hr2, o2, kr, Some m2) \<and>
    read_response L hi1 m2 keys1 = Inr (hi2, ki, True) \<and>
    mirrored ki kr \<and> tk_local_index ki = random_index ri1 \<and> tk_local_index kr = random_index ri2 \<and>
    wiped hi2 \<and> wiped hr2"
proof -
  let ?I = "hs_identity hi" and ?R = "hs_identity hr" and ?T = "timestamp now"
  note ok = crypto_okD [OF assms(1)]
  note wi = wf_HandshakeD [OF assms(2) refl] and wr = wf_HandshakeD [OF assms(3) refl]
  define e1 E1 e2 E2 where e: "e1 = clamp rk1" "E1 = snd (scalarmult_base L e1)"
    "e2 = clamp rk2" "E2 = snd (scalarmult_base L e2)"
  have le: "length e1 = 32" "length e2 = 32" "length E1 = 32" "length E2 = 32"
    using assms(6,7) ok by (simp_all add: e)
  obtain es ss ee se where
    d: "dh L e1 (id_public_key ?R) = Some es" "dh L (id_private_key ?R) E1 = Some es"
      "dh L (id_private_key ?I) (id_public_key ?R) = Some ss" "dh L (id_private_key ?R) (id_public_key ?I) = Some ss"
      "dh L e2 E1 = Some ee" "dh L e1 E2 = Some ee"
      "dh L e2 (id_public_key ?I) = Some se" "dh L (id_private_key ?I) E2 = Some se"
    using dh_agree [OF ok(2)] le(1,2) wi(1) wr(1) unfolding e(2,4) wi(4) wr(4) by metis
  define c h where ch: "c = wp_c3 L E1 es ss" "h = wp_h3 L (id_public_key ?R) E1 es ss (id_public_key ?I) ?T"
  define m1 where m1: "m1 = initiation_layout (wp_initiation L (random_index ri1) (id_public_key ?R) E1 es ss
      (id_public_key ?I) ?T (replicate 16 0))"
  define hi1 where hi1: "hi1 = hi\<lparr>hs_chaining_key := c, hs_hash := h, hs_ephemeral_private := e1,
      hs_ephemeral_public := E1, hs_local_index := random_index ri1\<rparr>"
  define hr1 where hr1: "hr1 = hr\<lparr>hs_chaining_key := c, hs_hash := h, hs_peer_ephemeral := E1,
      hs_peer_index := random_index ri1\<rparr>"
  define m2 where m2: "m2 = response_layout (wp_response L (random_index ri2) (random_index ri1) (id_public_key ?I)
      c h E2 ee se (replicate 16 0))"
  have wf1: "wf_Handshake L hi1" "wf_Handshake L hr1"
    using assms(2,3) le ok by (simp_all add: wf_Handshake_def hi1 hr1 ch)
  have w1: "write_initiation L ri1 rk1 now hi out1 = Inr (hi1, m1 @ drop 148 out1, Some m1)"
    using write_initiation_value [OF assms(1,2,6,8) refl e(1,2) _ _ refl, where ri = ri1 and now = now,
      unfolded assms(4), OF d(1,3)] by (simp add: m1 hi1 ch)
  have r1: "read_initiation L hr g m1 = Inr (hr1, fst (guard_accept g ?T), True)"
    using le d assms(5) unfolding m1 hr1 ch
    by (subst read_initiation_accepts [OF assms(1,3) refl _ assms(10), where ?mac2.0 = "replicate 16 0"]) (simp_all add: valid_initiation_def)
  have w2: "write_response L ri2 rk2 hr1 out2 keys2 = Inr (hr1\<lparr>hs_local_index := random_index ri2,
      hs_chaining_key := replicate 32 0, hs_hash := replicate 32 0, hs_ephemeral_private := replicate 32 0\<rparr>,
      m2 @ drop 92 out2, keys2\<lparr>tk_receive := wp_key L 1 c E2 ee se, tk_send := wp_key L 2 c E2 ee se,
        tk_local_index := random_index ri2, tk_peer_index := random_index ri1\<rparr>, Some m2)"
    using d(5,7) assms(5)
    by (subst write_response_value [OF assms(1) wf1(2) assms(7,9) refl refl refl e(3,4) _ _ refl])
      (simp_all add: hr1 m2)
  have "valid_response L hi1 m2 (random_index ri2) E2 ee se (replicate 16 0)"
    using le d by (simp add: valid_response_def hi1 m2)
  note r2 = read_response_accepts [OF assms(1) wf1(1) this refl, of keys1]
  from w1 r1 w2 r2 ok show ?thesis
    by (intro exI conjI) (assumption | simp add: hi1 hr1 wp_key_def mirrored_def wiped_def)+
qed

section \<open>Properties\<close>

text \<open>
  C7: Two peers that are configured with each other's public key complete the handshake. For any
  random bytes, any large enough buffers and a time stamp the responder's guard has not seen, the
  initiation is written and accepted, the response is written and accepted, the keys of the two
  sides are mirrored, the session indices are crossed, and no handshake secret stays behind in
  either object.
\<close>

theorem handshake_agreement:
  assumes "crypto_ok L" and "wf_Handshake L hi" and "wf_Handshake L hr"
    and "id_peer_public (hs_identity hi) = id_public_key (hs_identity hr)"
    and "id_peer_public (hs_identity hr) = id_public_key (hs_identity hi)"
    and "length rk1 = 32" and "length rk2 = 32" and "148 \<le> length out1" and "92 \<le> length out2"
    and "snd (guard_accept g (timestamp now))"
  shows "\<exists>hi1 o1 m1 hr1 hr2 o2 kr m2 hi2 ki.
    write_initiation L ri1 rk1 now hi out1 = Inr (hi1, o1, Some m1) \<and>
    read_initiation L hr g m1 = Inr (hr1, fst (guard_accept g (timestamp now)), True) \<and>
    write_response L ri2 rk2 hr1 out2 keys2 = Inr (hr2, o2, kr, Some m2) \<and>
    read_response L hi1 m2 keys1 = Inr (hi2, ki, True) \<and>
    mirrored ki kr \<and> tk_local_index ki = random_index ri1 \<and> tk_local_index kr = random_index ri2 \<and>
    wiped hi2 \<and> wiped hr2"
  using handshake_run [OF assms] .

theorem handshake_agreement_witness:
  "\<exists>hi1 o1 m1 hr1 g1 hr2 o2 kr m2 hi2 ki.
    write_initiation demo_lib [1, 0, 0, 0] (replicate 32 5) (Timespec 1700000000 0)
      (Handshake_init (demo_identity 7 8)) (replicate 148 0) = Inr (hi1, o1, Some m1) \<and>
    read_initiation demo_lib (Handshake_init (demo_identity 8 7)) TimestampGuard_init m1 = Inr (hr1, g1, True) \<and>
    write_response demo_lib [2, 0, 0, 0] (replicate 32 6) hr1 (replicate 92 0) TransportKeys_init =
      Inr (hr2, o2, kr, Some m2) \<and>
    read_response demo_lib hi1 m2 TransportKeys_init = Inr (hi2, ki, True) \<and> mirrored ki kr"
proof -
  have i: "hs_identity (Handshake_init (demo_identity a b)) = demo_identity a b"
    "id_peer_public (demo_identity a b) = id_public_key (demo_identity b a)" for a b
    by (simp_all add: Handshake_init_def demo_identity_def)
  have w: "wf_Handshake demo_lib (Handshake_init (demo_identity a b))" for a b
    by (rule wf_Handshake_init [OF demo_identity_wf])
  show ?thesis
    using handshake_agreement [OF demo_crypto_ok w [of 7 8] w [of 8 7], unfolded i, OF refl refl, where g = TimestampGuard_init,
        of "replicate 32 5" "replicate 32 6" "replicate 148 0" "replicate 92 0" "Timespec 1700000000 0"
          "[1, 0, 0, 0]" "[2, 0, 0, 0]" TransportKeys_init TransportKeys_init]
      first_guard_accept [of "timestamp (Timespec 1700000000 0)"]
    by simp blast
qed

text \<open>
  C29: A responder accepts exactly the initiations of its configured peer. It always returns, and it
  returns success if and only if the datagram is, byte for byte, the protocol's initiation to this
  responder's static key for some sender index and ephemeral key, carrying the configured peer's
  static key and a time stamp that the guard accepts, with the right mac1 (mac2 is not checked). In
  every other case the handshake object and the guard are unchanged.
\<close>

theorem initiation_accepted_iff:
  assumes "crypto_ok L" and "aead_authentic L" and "wf_Handshake L hs"
  shows "\<exists>hs' g' ok. read_initiation L hs g d = Inr (hs', g', ok) \<and>
    (ok \<longleftrightarrow> (\<exists>i E es ss T mac2. valid_initiation L (hs_identity hs) d i E es ss T mac2 \<and> snd (guard_accept g T))) \<and>
    (\<not> ok \<longrightarrow> hs' = hs \<and> g' = g)"
proof (cases "\<exists>i E es ss T mac2. valid_initiation L (hs_identity hs) d i E es ss T mac2 \<and> snd (guard_accept g T)")
  case True
  then obtain i E es ss T mac2 where v: "valid_initiation L (hs_identity hs) d i E es ss T mac2" "snd (guard_accept g T)"
    by blast
  with True read_initiation_accepts [OF assms(1,3) refl v] show ?thesis by (simp add: ex_bool_eq)
next
  case False
  then have "read_initiation L hs g d = Inr (hs, g, False)" by (blast intro: read_initiation_rejects [OF assms refl])
  with False show ?thesis by simp
qed

definition demo_initiation :: bytes where
  "demo_initiation = initiation_layout (wp_initiation demo_lib 1 (replicate 32 8) (replicate 32 0) (replicate 32 8)
     (replicate 32 (7 XOR 8)) (replicate 32 7) (replicate 12 3) (replicate 16 0))"

lemma demo_initiation_valid:
  "valid_initiation demo_lib (demo_identity 8 7) demo_initiation 1 (replicate 32 0) (replicate 32 8)
     (replicate 32 (7 XOR 8)) (replicate 12 3) (replicate 16 0)"
  by (simp add: valid_initiation_def demo_initiation_def demo_identity_def dh_def demo_lib_def map2_map_map)

theorem initiation_accepted_iff_witness:
  "\<exists>hs' g'. read_initiation demo_lib (Handshake_init (demo_identity 8 7)) TimestampGuard_init demo_initiation =
     Inr (hs', g', True)"
proof -
  have i: "hs_identity (Handshake_init (demo_identity 8 7)) = demo_identity 8 7" by (simp add: Handshake_init_def)
  obtain hs' g' ok where r: "read_initiation demo_lib (Handshake_init (demo_identity 8 7)) TimestampGuard_init demo_initiation =
        Inr (hs', g', ok)"
      "ok \<longleftrightarrow> (\<exists>i E es ss T mac2. valid_initiation demo_lib (demo_identity 8 7) demo_initiation i E es ss T mac2 \<and>
        snd (guard_accept TimestampGuard_init T))"
    using initiation_accepted_iff [OF demo_crypto_ok demo_aead_authentic wf_Handshake_init [OF demo_identity_wf [of 8 7]],
        of TimestampGuard_init demo_initiation, unfolded i] by auto
  have ok unfolding r(2) using demo_initiation_valid first_guard_accept by blast
  with r(1) show ?thesis by simp
qed

text \<open>
  C30: An initiator accepts exactly the response to its own initiation. It always returns, and it
  returns success if and only if the datagram is the protocol's response that continues its own
  transcript, addressed to its own index, with the right mac1. In every other case the handshake
  object and the caller's keys are unchanged, so a forged response cannot cancel a handshake in
  flight.
\<close>

theorem response_accepted_iff:
  assumes "crypto_ok L" and "aead_authentic L" and "wf_Handshake L hs"
  shows "\<exists>hs' keys' ok. read_response L hs d keys = Inr (hs', keys', ok) \<and>
    (ok \<longleftrightarrow> (\<exists>i E ee se mac2. valid_response L hs d i E ee se mac2)) \<and>
    (\<not> ok \<longrightarrow> hs' = hs \<and> keys' = keys)"
proof (cases "\<exists>i E ee se mac2. valid_response L hs d i E ee se mac2")
  case True
  then obtain i E ee se mac2 where v: "valid_response L hs d i E ee se mac2" by blast
  with True read_response_accepts [OF assms(1,3) v refl, of keys] show ?thesis by (simp add: ex_bool_eq)
next
  case False
  then have "read_response L hs d keys = Inr (hs, keys, False)" by (blast intro: read_response_rejects [OF assms])
  with False show ?thesis by (simp add: ex_bool_eq)
qed

theorem response_accepted_iff_witness:
  "read_response demo_lib (Handshake_init (demo_identity 7 8)) (replicate 92 0) TransportKeys_init =
     Inr (Handshake_init (demo_identity 7 8), TransportKeys_init, False)"
proof -
  have "replicate 92 0 ! 0 \<noteq> response_layout m ! 0" for m
    by (simp add: response_layout_def)
  then have "\<not> valid_response demo_lib (Handshake_init (demo_identity 7 8)) (replicate 92 0) i E ee se mac2" for i E ee se mac2
    unfolding valid_response_def by metis
  then show ?thesis
    using response_accepted_iff [OF demo_crypto_ok demo_aead_authentic wf_Handshake_init [OF demo_identity_wf [of 7 8]],
        of "replicate 92 0" TransportKeys_init] by auto
qed

text \<open>
  C31: No initiation is accepted twice. Over any sequence of datagrams, whatever their order and
  with any number of repetitions, the accepted ones are pairwise different and the time stamps
  sealed inside them increase strictly.
\<close>

theorem initiations_not_replayed:
  assumes "crypto_ok L" and "aead_authentic L" and "wf_Identity L I"
  shows "distinct (accepted (responder L I) TimestampGuard_init ds) \<and>
    (\<exists>ts. map (initiation_time L I) (accepted (responder L I) TimestampGuard_init ds) = map Some ts \<and>
      sorted_wrt (\<lambda>a b. timestamp_after b a) ts)"
  using high_water.accepted_distinct [OF responder_high_water [OF assms] wf_guard_init]
    high_water.accepted_keys [OF responder_high_water [OF assms] wf_guard_init] by blast

theorem initiations_not_replayed_witness:
  "accepted (responder demo_lib (demo_identity 8 7)) TimestampGuard_init [demo_initiation, demo_initiation] = [demo_initiation]"
proof -
  have "\<exists>hs' g'. read_initiation demo_lib (Handshake_init (demo_identity 8 7)) TimestampGuard_init demo_initiation = Inr (hs', g', True)"
    using read_initiation_accepts [OF demo_crypto_ok wf_Handshake_init [OF demo_identity_wf [of 8 7]] refl, of demo_initiation]
      demo_initiation_valid first_guard_accept by (fastforce simp: Handshake_init_def)
  then have "snd (responder demo_lib (demo_identity 8 7) TimestampGuard_init demo_initiation)"
    by (auto simp: responder_def)
  then show ?thesis
    using initiations_not_replayed [OF demo_crypto_ok demo_aead_authentic demo_identity_wf [of 8 7],
        of "[demo_initiation, demo_initiation]"]
    by (auto simp: split_beta split: if_splits)
qed

text \<open>
  Writing an initiation never throws and either writes the protocol's message to the configured
  peer (fresh ephemeral key, own static key and current time stamp sealed, mac1 keyed on the
  peer, mac2 zero), or, exactly when the buffer is shorter than 148 bytes or a Diffie-Hellman
  result is refused, gives nothing and leaves the object as it was. The buffer beyond the message
  is never touched.
\<close>

theorem initiation_written:
  assumes "crypto_ok L" and "wf_Handshake L hs" and "length rk = 32"
  shows "\<exists>hs' out' v. write_initiation L ri rk now hs out = Inr (hs', out', v) \<and>
    wf_Handshake L hs' \<and> length out' = length out \<and> drop 148 out' = drop 148 out \<and>
    (case v of
       None \<Rightarrow> hs' = hs \<and> (length out < 148 \<or> dh L (clamp rk) (id_peer_public (hs_identity hs)) = None \<or>
         dh L (id_private_key (hs_identity hs)) (id_peer_public (hs_identity hs)) = None)
     | Some d \<Rightarrow> take 148 out' = d \<and> hs_local_index hs' = random_index ri \<and>
         (\<exists>es ss. d = initiation_layout (wp_initiation L (random_index ri) (id_peer_public (hs_identity hs))
            (hs_ephemeral_public hs') es ss (id_public_key (hs_identity hs)) (timestamp now) (replicate 16 0))))"
proof (cases "length out < 148 \<or> dh L (clamp rk) (id_peer_public (hs_identity hs)) = None \<or>
         dh L (id_private_key (hs_identity hs)) (id_peer_public (hs_identity hs)) = None")
  case True
  then show ?thesis using write_initiation_fails [OF assms refl True, of ri now] assms(2) by auto
next
  case False
  then obtain es ss where d: "dh L (clamp rk) (id_peer_public (hs_identity hs)) = Some es"
      "dh L (id_private_key (hs_identity hs)) (id_peer_public (hs_identity hs)) = Some ss" "148 \<le> length out"
    by auto
  note ok = crypto_okD [OF assms(1)]
  let ?m = "wp_initiation L (random_index ri) (id_peer_public (hs_identity hs)) (snd (scalarmult_base L (clamp rk))) es ss
     (id_public_key (hs_identity hs)) (timestamp now) (replicate 16 0)"
  have "length (initiation_layout ?m) = 148"
    using wf_wp_initiation [OF assms(1)] ok assms(3) wf_HandshakeD [OF assms(2) refl]
    by (subst length_initiation_layout) auto
  with write_initiation_value [OF assms d(3) refl refl refl d(1,2) refl, of ri now] d(3) ok assms(2,3)
  show ?thesis by (auto simp: wf_Handshake_def)
qed

lemma demo_dh: "dh demo_lib a B = Some (map2 (XOR) a B)"
  by (simp add: dh_def demo_lib_def)

theorem initiation_written_witness:
  "\<exists>hs' out' d. write_initiation demo_lib [1, 0, 0, 0] (replicate 32 5) (Timespec 0 0)
      (Handshake_init (demo_identity 7 8)) (replicate 200 9) = Inr (hs', out', Some d) \<and>
      drop 148 out' = replicate 52 9"
proof -
  have l: "length (replicate 32 (5 :: u8)) = 32" by simp
  from initiation_written [OF demo_crypto_ok wf_Handshake_init [OF demo_identity_wf [of 7 8]] l,
      of "[1, 0, 0, 0]" "Timespec 0 0" "replicate 200 9"]
  obtain hs' out' v where w: "write_initiation demo_lib [1, 0, 0, 0] (replicate 32 5) (Timespec 0 0)
      (Handshake_init (demo_identity 7 8)) (replicate 200 9) = Inr (hs', out', v)"
      "drop 148 out' = drop 148 (replicate 200 9)" "v = None \<Longrightarrow> False"
    unfolding demo_dh by fastforce
  then show ?thesis by (cases v) auto
qed

text \<open>
  Writing a response never throws. On success the message is the protocol's response that
  continues the accepted initiation, the keys are the two derived transport keys in the
  responder's order with the indices of this session, and the object's secrets are wiped. Exactly
  when the buffer is shorter than 92 bytes or a Diffie-Hellman result is refused it gives nothing,
  and neither the object nor the caller's keys change.
\<close>

theorem response_written:
  assumes "crypto_ok L" and "wf_Handshake L hs" and "length rk = 32"
  shows "\<exists>hs' out' keys' v. write_response L ri rk hs out keys = Inr (hs', out', keys', v) \<and>
    wf_Handshake L hs' \<and> length out' = length out \<and> drop 92 out' = drop 92 out \<and>
    (case v of
       None \<Rightarrow> hs' = hs \<and> keys' = keys \<and> (length out < 92 \<or> dh L (clamp rk) (hs_peer_ephemeral hs) = None \<or>
         dh L (clamp rk) (id_peer_public (hs_identity hs)) = None)
     | Some d \<Rightarrow> take 92 out' = d \<and> wiped hs' \<and> hs_local_index hs' = random_index ri \<and>
         tk_local_index keys' = random_index ri \<and> tk_peer_index keys' = hs_peer_index hs \<and>
         (\<exists>E ee se. d = response_layout (wp_response L (random_index ri) (hs_peer_index hs)
              (id_peer_public (hs_identity hs)) (hs_chaining_key hs) (hs_hash hs) E ee se (replicate 16 0)) \<and>
            tk_receive keys' = wp_key L 1 (hs_chaining_key hs) E ee se \<and>
            tk_send keys' = wp_key L 2 (hs_chaining_key hs) E ee se))"
proof (cases "length out < 92 \<or> dh L (clamp rk) (hs_peer_ephemeral hs) = None \<or>
         dh L (clamp rk) (id_peer_public (hs_identity hs)) = None")
  case True
  then show ?thesis using write_response_fails [OF assms refl True, of ri keys] assms(2) by auto
next
  case False
  then obtain ee se where d: "dh L (clamp rk) (hs_peer_ephemeral hs) = Some ee"
      "dh L (clamp rk) (id_peer_public (hs_identity hs)) = Some se" "92 \<le> length out"
    by auto
  note ok = crypto_okD [OF assms(1)]
  let ?m = "wp_response L (random_index ri) (hs_peer_index hs) (id_peer_public (hs_identity hs)) (hs_chaining_key hs)
    (hs_hash hs) (snd (scalarmult_base L (clamp rk))) ee se (replicate 16 0)"
  have "length (response_layout ?m) = 92"
    using wf_wp_response [OF assms(1)] ok assms(3) by (subst length_response_layout) auto
  with write_response_value [OF assms d(3) refl refl refl refl refl d(1,2) refl, of ri keys] d(3) assms(2)
  show ?thesis by (auto simp: wf_Handshake_def wiped_def)
qed

theorem response_written_witness:
  "\<exists>hs' out' keys' d. write_response demo_lib [1, 0, 0, 0] (replicate 32 5) (Handshake_init (demo_identity 7 8))
      (replicate 92 9) TransportKeys_init = Inr (hs', out', keys', Some d) \<and> wiped hs'"
proof -
  have l: "length (replicate 32 (5 :: u8)) = 32" by simp
  from response_written [OF demo_crypto_ok wf_Handshake_init [OF demo_identity_wf [of 7 8]] l,
      of "[1, 0, 0, 0]" "replicate 92 9" TransportKeys_init]
  obtain hs' out' keys' v where w: "write_response demo_lib [1, 0, 0, 0] (replicate 32 5) (Handshake_init (demo_identity 7 8))
      (replicate 92 9) TransportKeys_init = Inr (hs', out', keys', v)" "v = None \<Longrightarrow> False"
      "\<And>d. v = Some d \<Longrightarrow> wiped hs'"
    by (elim exE conjE) (simp add: demo_dh split: option.splits)
  then show ?thesis by (cases v) auto
qed

lemma getline_takeWhile: "getline s = takeWhile (\<lambda>c. c \<noteq> CHR 0x0A) s"
  by (induction s) auto

lemma trim_back_dropWhile: "trim_back s = dropWhile (\<lambda>c. c = CHR 0x0D \<or> c = CHR '' '') s"
  by (induction s) auto

definition key_line :: "string \<Rightarrow> string" where
  "key_line s = rev (dropWhile (\<lambda>c. c = CHR 0x0D \<or> c = CHR '' '') (rev (takeWhile (\<lambda>c. c \<noteq> CHR 0x0A) s)))"


lemma demo_from_base64: "s \<noteq> [] \<Longrightarrow> from_base64 demo_lib s = Some (map (\<lambda>c. of_nat (of_char c)) s)"
  by (simp add: from_base64_def demo_lib_def)


end
