(* ===== verification/Session.thy ===== *)
theory Session
  imports Noise_Protocol Replay_Window
begin

text \<open>
  The transport session, class \<^verbatim>\<open>Session\<close> of \<^verbatim>\<open>src/src/session.h\<close> and \<^verbatim>\<open>src/src/session.cpp\<close>: the
  transport keys, the send counter and the replay window. \<open>session_seal\<close> works in place on the
  caller's buffer, which it takes and returns; the size computations are done in \<open>size_t\<close> as in
  the code. \<open>session_open\<close> returns \<open>None\<close> if the clearing loop of the replay window would not end,
  otherwise the new session and the inner packet, if there is one. The bytes that a failed or
  successful decryption leaves in the receive buffer are not tracked: no caller reads them.
\<close>

section \<open>State and operations\<close>

record Session =
  s_keys :: TransportKeys
  s_window :: ReplayWindow
  s_send_counter :: u64
  s_active :: bool

definition Session_init :: Session where
  "Session_init = \<lparr>s_keys = TransportKeys_init, s_window = ReplayWindow_init, s_send_counter = 0, s_active = False\<rparr>"

definition activate :: "Session \<Rightarrow> Session" where
  "activate s = s\<lparr>s_window := ReplayWindow_init, s_send_counter := 0, s_active := True\<rparr>"

definition counter_usable :: "u64 \<Rightarrow> bool" where
  "counter_usable counter \<longleftrightarrow> counter < kRejectAfterMessages"

definition replay_acceptable :: "Session \<Rightarrow> u64 \<Rightarrow> bool" where
  "replay_acceptable s counter = acceptable (s_window s) counter"

definition wants_rekey :: "Session \<Rightarrow> bool" where
  "wants_rekey s \<longleftrightarrow> s_send_counter s \<ge> kRekeyAfterMessages"

text \<open>
  The zeroed range runs from the packet's end to the padded length; where the padded length wraps
  below the packet length the range of the C++ call is not a valid one, and the model writes
  nothing.
\<close>

definition session_seal ::
  "'s crypto_lib \<Rightarrow> Session \<Rightarrow> bytes \<Rightarrow> size_t \<Rightarrow> (Session \<times> bytes \<times> bytes option) result" where
  "session_seal L s buffer plaintext_len =
     (if \<not> s_active s then Inr (s, buffer, None)
      else if \<not> counter_usable (s_send_counter s) then Inr (s, buffer, None)
      else
        let padded = padded_length plaintext_len
        in if of_nat (length buffer) < of_nat kTransportHeaderSize + padded + (of_nat kTagSize :: size_t)
           then Inr (s, buffer, None)
           else
             let len = unat plaintext_len; pad = unat padded;
                 buffer = blit (kTransportHeaderSize + len) (replicate (pad - len) 0) buffer;
                 counter = s_send_counter s;
                 s = s\<lparr>s_send_counter := counter + 1\<rparr>
             in bindR (crypto_seal L (pad + kTagSize) (tk_send (s_keys s)) counter
                         (subspan kTransportHeaderSize pad buffer) []) (\<lambda>sealed.
                  let buffer = blit kTransportHeaderSize sealed buffer;
                      buffer = fst (encode_transport_header buffer (tk_peer_index (s_keys s)) counter)
                  in Inr (s, buffer, Some (take (kTransportHeaderSize + pad + kTagSize) buffer))))"

definition session_open ::
  "'s crypto_lib \<Rightarrow> Session \<Rightarrow> u64 \<Rightarrow> bytes \<Rightarrow> (Session \<times> bytes option) option" where
  "session_open L s counter sealed =
     (if \<not> s_active s \<or> length sealed < kTagSize then Some (s, None)
      else if \<not> acceptable (s_window s) counter then Some (s, None)
      else
        let plaintext_len = length sealed - kTagSize
        in if plaintext_len mod 16 \<noteq> 0 then Some (s, None)
           else case crypto_open L plaintext_len (tk_receive (s_keys s)) counter sealed [] of
                  None \<Rightarrow> Some (s, None)
                | Some plaintext \<Rightarrow>
                    map_option (\<lambda>w.
                      let s = s\<lparr>s_window := w\<rparr>
                      in if plaintext = [] then (s, Some plaintext)
                         else case inner_packet_length plaintext of
                                None \<Rightarrow> (s, None)
                              | Some n \<Rightarrow> (s, Some (take n plaintext)))
                      (accept (s_window s) counter))"

section \<open>Sealing\<close>

definition padded_packet :: "bytes \<Rightarrow> bytes" where
  "padded_packet p = p @ replicate ((length p + 15) div 16 * 16 - length p) 0"

lemma padded_packet_length [simp]: "length (padded_packet p) = (length p + 15) div 16 * 16"
  by (simp add: padded_packet_def)

text \<open>The datagram that carries a packet.\<close>

definition sealed_packet :: "'s crypto_lib \<Rightarrow> TransportKeys \<Rightarrow> u64 \<Rightarrow> bytes \<Rightarrow> TransportData" where
  "sealed_packet L keys c p =
     \<lparr>td_receiver_index = tk_peer_index keys, td_counter = c,
      td_sealed = aead_encrypt L (tk_send keys) (Nonce c) [] (padded_packet p)\<rparr>"

definition sealed_size :: "nat \<Rightarrow> nat" where
  "sealed_size n = 32 + (n + 15) div 16 * 16"

lemma size_check:
  assumes "16 + unat n \<le> length buf" and "length buf < 2 ^ 63"
  shows "(of_nat (length buf) < of_nat kTransportHeaderSize + padded_length n + (of_nat kTagSize :: size_t)) \<longleftrightarrow>
    length buf < sealed_size (unat n)" and "unat (padded_length n) = (unat n + 15) div 16 * 16"
proof -
  show p: "unat (padded_length n) = (unat n + 15) div 16 * 16"
    using assms by (intro unat_padded_length) simp
  have "unat n < 2 ^ 63" using assms by simp
  then have b: "(unat n + 15) div 16 * 16 < 2 ^ 63 + 16" by simp
  have "unat (of_nat kTransportHeaderSize + padded_length n + (of_nat kTagSize :: size_t)) = sealed_size (unat n)"
    using b by (simp add: unat_word_ariths p sealed_size_def)
  moreover have "unat (of_nat (length buf) :: size_t) = length buf"
    using assms(2) by (simp add: unat_of_nat)
  ultimately show "(of_nat (length buf) < of_nat kTransportHeaderSize + padded_length n + (of_nat kTagSize :: size_t)) \<longleftrightarrow>
    length buf < sealed_size (unat n)" by (simp add: word_less_nat_alt)
qed

lemma session_seal_refuses:
  assumes "16 + unat n \<le> length buf" and "length buf < 2 ^ 63"
    and "\<not> s_active s \<or> \<not> counter_usable (s_send_counter s) \<or> length buf < sealed_size (unat n)"
  shows "session_seal L s buf n = Inr (s, buf, None)"
  using assms(3) size_check [OF assms(1,2)] by (auto simp: session_seal_def Let_def)

lemma session_seal_value:
  assumes "aead_ok L" and "16 + unat n \<le> length buf" and "length buf < 2 ^ 63"
    and "s_active s" and "counter_usable (s_send_counter s)" and "sealed_size (unat n) \<le> length buf"
    and "d = transport_layout (sealed_packet L (s_keys s) (s_send_counter s) (subspan 16 (unat n) buf))"
  shows "session_seal L s buf n =
    Inr (s\<lparr>s_send_counter := s_send_counter s + 1\<rparr>, d @ drop (sealed_size (unat n)) buf, Some d)"
proof -
  let ?n = "unat n" and ?c = "s_send_counter s" and ?k = "s_keys s"
  let ?pad = "(unat n + 15) div 16 * 16"
  let ?P = "padded_packet (subspan 16 ?n buf)" and ?B = "blit (16 + ?n) (replicate (?pad - ?n) 0) buf"
  let ?x = "aead_encrypt L (tk_send ?k) (Nonce ?c) [] ?P"
  note sz = size_check [OF assms(2,3)]
  have le: "?n \<le> ?pad" "32 + ?pad \<le> length buf" using assms(6) by (auto simp: sealed_size_def)
  have l: "length (subspan 16 ?n buf) = ?n" using assms(2) by simp
  have B: "subspan 16 ?pad ?B = ?P"
    using le assms(2) by (intro nth_equalityI)
      (auto simp: nth_subspan nth_blit padded_packet_def nth_append)
  have x: "length ?x = ?pad + 16" using assms(1) l by (simp add: aead_length)
  have s: "crypto_seal L (?pad + 16) (tk_send ?k) ?c ?P [] = Inr ?x"
    using l by (simp add: crypto_seal_value)
  have h: "encode_transport_header (blit 16 ?x ?B) i c =
      (transport_header_layout i c @ ?x @ drop (sealed_size ?n) buf, Some (transport_header_layout i c))" for i c
  proof -
    have "drop 16 (blit 16 ?x ?B) = ?x @ drop (sealed_size ?n) ?B"
      using le x by (simp add: blit_def sealed_size_def add.commute)
    also have "drop (sealed_size ?n) ?B = drop (sealed_size ?n) buf"
      using le by (intro drop_blit_after) (auto simp: sealed_size_def)
    finally show ?thesis using le x by (subst encode_transport_header_fits) auto
  qed
  have "session_seal L s buf n = Inr (s\<lparr>s_send_counter := ?c + 1\<rparr>,
      transport_header_layout (tk_peer_index ?k) ?c @ ?x @ drop (sealed_size ?n) buf,
      Some (transport_header_layout (tk_peer_index ?k) ?c @ ?x))"
    using assms(4-6) sz x by (simp add: session_seal_def Let_def B s h)
  then show ?thesis by (simp add: assms(7) transport_layout_def sealed_packet_def)
qed

section \<open>Opening\<close>

text \<open>What an authenticated plaintext delivers: nothing but itself when it is empty (a keepalive),
  otherwise the IPv4 packet at its front, if it is one.\<close>

definition delivered :: "bytes \<Rightarrow> bytes option" where
  "delivered P = (if P = [] then Some [] else map_option (\<lambda>n. take n P) (inner_packet_length P))"

definition authentic :: "'s crypto_lib \<Rightarrow> Session \<Rightarrow> u64 \<Rightarrow> bytes \<Rightarrow> bytes \<Rightarrow> bool" where
  "authentic L s c x P \<longleftrightarrow>
     s_active s \<and> 16 dvd length P \<and> x = aead_encrypt L (tk_receive (s_keys s)) (Nonce c) [] P"

lemma session_open_authentic:
  assumes "aead_ok L" and "window_tracks (s_window s) hist" and "fresh hist c" and "authentic L s c x P"
  shows "\<exists>w. session_open L s c x = Some (s\<lparr>s_window := w\<rparr>, delivered P) \<and> window_tracks w (insert c hist)"
proof -
  from assms(2,3) obtain w where w: "acceptable (s_window s) c" "accept (s_window s) c = Some w" "window_tracks w (insert c hist)"
    using window.tracks_ok window.tracks_commit by blast
  from assms(4) have a: "s_active s" "16 dvd length P" "x = aead_encrypt L (tk_receive (s_keys s)) (Nonce c) [] P"
    by (simp_all add: authentic_def)
  have o: "crypto_open L (length P) (tk_receive (s_keys s)) c x [] = Some P"
    using assms(1) a(3) by (simp add: crypto_open_encrypt)
  have l: "length x = length P + 16" using assms(1) a(3) by (simp add: aead_length)
  show ?thesis
    using a(1,2) w o l by (auto simp: session_open_def Let_def delivered_def dvd_eq_mod_eq_0 split: option.split)
qed

lemma session_open_rejects:
  assumes "aead_ok L" and "aead_authentic L" and "window_tracks (s_window s) hist"
    and "\<not> (fresh hist c \<and> (\<exists>P. authentic L s c x P))"
  shows "session_open L s c x = Some (s, None)"
proof (rule ccontr)
  assume no: "session_open L s c x \<noteq> Some (s, None)"
  then obtain P where P: "s_active s" "acceptable (s_window s) c" "(length x - 16) mod 16 = 0" "16 \<le> length x"
      "crypto_open L (length x - 16) (tk_receive (s_keys s)) c x [] = Some P"
    by (auto simp: session_open_def Let_def split: if_splits option.splits)
  note x = crypto_open_authentic [OF assms(2) P(5)]
  have "length x = length P + 16" using arg_cong [OF x, of length] assms(1) by (simp add: aead_length)
  with P x have "authentic L s c x P" by (simp add: authentic_def dvd_eq_mod_eq_0)
  moreover have "fresh hist c" using P(2) window.tracks_ok [OF assms(3)] by blast
  ultimately show False using assms(4) by blast
qed

section \<open>Packets\<close>

text \<open>A buffer content that is one complete IPv4 packet.\<close>

definition ipv4_packet :: "bytes \<Rightarrow> bool" where
  "ipv4_packet p \<longleftrightarrow> inner_packet_length p = Some (length p)"

lemma delivered_padded:
  assumes "ipv4_packet p"
  shows "delivered (padded_packet p) = Some p"
proof -
  from assms have i: "inner_packet_length p = Some (length p)" by (simp add: ipv4_packet_def)
  then have "20 \<le> length p" using inner_packet_length_bounds by blast
  moreover have "padded_packet p ! k = p ! k" if "k < 20" for k
    using that \<open>20 \<le> length p\<close> by (simp add: padded_packet_def nth_append)
  moreover have "length p \<le> length (padded_packet p)" by (simp add: padded_packet_def)
  ultimately have "inner_packet_length (padded_packet p) = Some (length p)"
    using i unfolding inner_packet_length_Some_iff by (simp del: padded_packet_length)
  with \<open>20 \<le> length p\<close> show ?thesis
    by (auto simp: delivered_def padded_packet_def)
qed

lemma padded_packet_dvd [simp]: "16 dvd length (padded_packet p)"
  by simp

lemma sealed_authentic:
  assumes "mirrored (s_keys a) (s_keys b)" and "s_active b"
  shows "authentic L b c (td_sealed (sealed_packet L (s_keys a) c p)) (padded_packet p)"
  using assms by (simp add: authentic_def sealed_packet_def mirrored_def)

section \<open>Runs\<close>

datatype session_event =
    Seal_packet bytes size_t
  | Open_packet u64 bytes

text \<open>
  A run of calls on one session, with the counters that were used for sealing and the counters of
  the packets that were delivered. \<open>None\<close> stands for a call that throws or does not return.
\<close>

fun session_run :: "'s crypto_lib \<Rightarrow> Session \<Rightarrow> session_event list \<Rightarrow> (Session \<times> u64 list \<times> u64 list) option" where
  "session_run L s [] = Some (s, [], [])"
| "session_run L s (Seal_packet buf n # evs) =
     (case session_seal L s buf n of
        Inl _ \<Rightarrow> None
      | Inr (s', _, d) \<Rightarrow>
          map_option (\<lambda>(s'', sent, got). (s'', (if d = None then sent else s_send_counter s # sent), got))
            (session_run L s' evs))"
| "session_run L s (Open_packet c x # evs) =
     (case session_open L s c x of
        None \<Rightarrow> None
      | Some (s', p) \<Rightarrow>
          map_option (\<lambda>(s'', sent, got). (s'', sent, if p = None then got else c # got))
            (session_run L s' evs))"

fun event_ok :: "session_event \<Rightarrow> bool" where
  "event_ok (Seal_packet buf n) \<longleftrightarrow> 16 + unat n \<le> length buf \<and> length buf < 2 ^ 63"
| "event_ok (Open_packet c x) \<longleftrightarrow> True"

lemma session_run_counters:
  assumes "aead_ok L" and "aead_authentic L"
  shows "window_tracks (s_window s) hist \<Longrightarrow> s_send_counter s \<le> kRejectAfterMessages \<Longrightarrow> \<forall>e\<in>set evs. event_ok e \<Longrightarrow>
    \<exists>s' sent got. session_run L s evs = Some (s', sent, got) \<and>
      sent = map of_nat [unat (s_send_counter s) ..< unat (s_send_counter s) + length sent] \<and>
      unat (s_send_counter s) + length sent \<le> unat kRejectAfterMessages \<and>
      distinct got \<and> (\<forall>c\<in>set got. fresh hist c)"
proof (induction evs arbitrary: s hist)
  case Nil
  then show ?case by (simp add: word_le_nat_alt)
next
  case (Cons e evs)
  show ?case
  proof (cases e)
    case (Seal_packet buf n)
    with Cons.prems(3) have n: "16 + unat n \<le> length buf" "length buf < 2 ^ 63" by auto
    show ?thesis
    proof (cases "s_active s \<and> counter_usable (s_send_counter s) \<and> sealed_size (unat n) \<le> length buf")
      case False
      then have "session_seal L s buf n = Inr (s, buf, None)" using session_seal_refuses [OF n] by force
      with Seal_packet Cons.IH [OF Cons.prems(1,2)] Cons.prems(3) show ?thesis by auto
    next
      case True
      let ?c = "s_send_counter s"
      have lt: "?c < kRejectAfterMessages" using True by (simp add: counter_usable_def)
      then have "unat ?c < unat kRejectAfterMessages" by (simp add: word_less_nat_alt)
      moreover from this have u: "unat (?c + 1) = Suc (unat ?c)"
        by (simp add: unat_word_ariths kRejectAfterMessages_value)
      ultimately have "?c + 1 \<le> kRejectAfterMessages" by (simp add: word_le_nat_alt)
      with Cons.IH [of "s\<lparr>s_send_counter := ?c + 1\<rparr>" hist] Cons.prems obtain s' sent got where
        ih: "session_run L (s\<lparr>s_send_counter := ?c + 1\<rparr>) evs = Some (s', sent, got)"
          "sent = map of_nat [Suc (unat ?c) ..< Suc (unat ?c) + length sent]"
          "Suc (unat ?c) + length sent \<le> unat kRejectAfterMessages" "distinct got" "\<forall>c\<in>set got. fresh hist c"
        by (auto simp: u)
      have "?c # sent = map of_nat [unat ?c ..< unat ?c + length (?c # sent)]"
        using ih(2) by (simp add: upt_conv_Cons del: upt_Suc)
      moreover obtain b d where "session_seal L s buf n = Inr (s\<lparr>s_send_counter := ?c + 1\<rparr>, b, Some d)"
        using session_seal_value [OF assms(1) n] True by blast
      ultimately show ?thesis using Seal_packet ih by (intro exI [of _ s'] exI [of _ "?c # sent"] exI [of _ got]) simp
    qed
  next
    case (Open_packet c x)
    show ?thesis
    proof (cases "fresh hist c \<and> (\<exists>P. authentic L s c x P)")
      case False
      with Open_packet Cons.IH [OF Cons.prems(1,2)] Cons.prems(3) session_open_rejects [OF assms Cons.prems(1) False]
      show ?thesis by auto
    next
      case True
      then obtain P w where w: "session_open L s c x = Some (s\<lparr>s_window := w\<rparr>, delivered P)" "window_tracks w (insert c hist)"
        using session_open_authentic [OF assms(1) Cons.prems(1)] by blast
      have f: "fresh (insert c hist) d \<Longrightarrow> d \<noteq> c \<and> fresh hist d" for d by (auto simp: fresh_def)
      from Cons.IH [of "s\<lparr>s_window := w\<rparr>" "insert c hist"] w(2) Cons.prems(2,3) obtain s' sent got where
        ih: "session_run L (s\<lparr>s_window := w\<rparr>) evs = Some (s', sent, got)"
          "sent = map of_nat [unat (s_send_counter s) ..< unat (s_send_counter s) + length sent]"
          "unat (s_send_counter s) + length sent \<le> unat kRejectAfterMessages" "distinct got"
          "\<forall>d\<in>set got. fresh (insert c hist) d"
        by auto
      with True f w(1) Open_packet show ?thesis
        by (intro exI [of _ s'] exI [of _ sent] exI [of _ "if delivered P = None then got else c # got"]) auto
    qed
  qed
qed

lemma wf_sealed_packet: "aead_ok L \<Longrightarrow> wf_TransportData (sealed_packet L k c p)"
  by (simp add: wf_TransportData_def sealed_packet_def aead_length)

lemma sealed_packet_size:
  "aead_ok L \<Longrightarrow> length (transport_layout (sealed_packet L k c p)) = sealed_size (length p)"
  by (simp add: transport_layout_def sealed_packet_def aead_length sealed_size_def)

lemma seal_then_open:
  assumes "aead_ok L" and "mirrored (s_keys a) (s_keys b)" and "s_active a" and "s_active b"
    and "counter_usable (s_send_counter a)" and "window_tracks (s_window b) hist"
    and "fresh hist (s_send_counter a)" and "p = subspan 16 (unat n) buf" and "ipv4_packet p"
    and "sealed_size (unat n) \<le> length buf" and "length buf < 2 ^ 63"
  shows "\<exists>d t w. session_seal L a buf n =
      Inr (a\<lparr>s_send_counter := s_send_counter a + 1\<rparr>, d @ drop (sealed_size (unat n)) buf, Some d) \<and>
    decode d = Some (Msg_Transport t) \<and> td_receiver_index t = tk_local_index (s_keys b) \<and>
    td_counter t = s_send_counter a \<and> length d = sealed_size (unat n) \<and>
    session_open L b (td_counter t) (td_sealed t) = Some (b\<lparr>s_window := w\<rparr>, Some p) \<and>
    window_tracks w (insert (td_counter t) hist)"
proof -
  let ?t = "sealed_packet L (s_keys a) (s_send_counter a) p"
  have n: "16 + unat n \<le> length buf" using assms(10) by (simp add: sealed_size_def)
  then have p: "length p = unat n" using assms(8) by simp
  have i: "td_receiver_index ?t = tk_local_index (s_keys b)" "td_counter ?t = s_send_counter a"
    using assms(2) by (simp_all add: sealed_packet_def mirrored_def)
  obtain w where "session_open L b (s_send_counter a) (td_sealed ?t) = Some (b\<lparr>s_window := w\<rparr>, Some p)"
      "window_tracks w (insert (s_send_counter a) hist)"
    using session_open_authentic [OF assms(1,6,7) sealed_authentic [OF assms(2,4)], of p] delivered_padded [OF assms(9)]
    by auto
  moreover note session_seal_value [OF assms(1) n assms(11,3,5,10) refl, folded assms(8)]
  moreover have "decode (transport_layout ?t) = Some (Msg_Transport ?t)"
    using wf_sealed_packet [OF assms(1)] by (rule decode_transport_layout)
  ultimately show ?thesis using i p sealed_packet_size [OF assms(1), of "s_keys a" "s_send_counter a" p]
    by (intro exI [of _ "transport_layout ?t"] exI [of _ ?t] exI [of _ w]) simp
qed

definition demo_keys :: "u8 \<Rightarrow> u8 \<Rightarrow> u32 \<Rightarrow> u32 \<Rightarrow> TransportKeys" where
  "demo_keys a b i j = \<lparr>tk_send = replicate 32 a, tk_receive = replicate 32 b, tk_local_index = i, tk_peer_index = j\<rparr>"

definition demo_session :: "TransportKeys \<Rightarrow> Session" where
  "demo_session k = activate (Session_init\<lparr>s_keys := k\<rparr>)"

definition demo_packet :: bytes where
  "demo_packet = [0x45, 0, 0, 20] @ replicate 16 1"

lemma demo_session_simps [simp]:
  "s_keys (demo_session k) = k" "s_window (demo_session k) = ReplayWindow_init"
  "s_send_counter (demo_session k) = 0" "s_active (demo_session k)"
  by (simp_all add: demo_session_def activate_def Session_init_def)

lemma demo_packet_ok: "ipv4_packet demo_packet" "length demo_packet = 20"
  by (simp_all add: ipv4_packet_def demo_packet_def inner_packet_length_Some_iff)

lemma fresh_empty: "fresh {} c \<longleftrightarrow> c < kRejectAfterMessages"
  by (simp add: fresh_def)

section \<open>Properties\<close>

text \<open>
  C9: What one side seals the other side opens. For sessions with mirrored keys, an IPv4 packet
  that lies behind the header space of a large enough buffer is sealed into a datagram that
  decodes as transport data with the other side's index and the sender's counter; opening it
  returns exactly the packet, the padding removed, and the same counter is refused from then on.
\<close>

theorem session_round_trip:
  assumes "aead_ok L" and "mirrored (s_keys a) (s_keys b)" and "s_active a" and "s_active b"
    and "counter_usable (s_send_counter a)" and "window_tracks (s_window b) hist"
    and "fresh hist (s_send_counter a)" and "ipv4_packet (subspan 16 (unat n) buf)"
    and "sealed_size (unat n) \<le> length buf" and "length buf < 2 ^ 63"
  shows "\<exists>a' buf' d t b'. session_seal L a buf n = Inr (a', buf', Some d) \<and>
    decode d = Some (Msg_Transport t) \<and> td_receiver_index t = tk_local_index (s_keys b) \<and>
    td_counter t = s_send_counter a \<and> length d = sealed_size (unat n) \<and>
    session_open L b (td_counter t) (td_sealed t) = Some (b', Some (subspan 16 (unat n) buf)) \<and>
    \<not> replay_acceptable b' (td_counter t)"
proof -
  obtain d t w where o: "session_seal L a buf n =
      Inr (a\<lparr>s_send_counter := s_send_counter a + 1\<rparr>, d @ drop (sealed_size (unat n)) buf, Some d)"
      "decode d = Some (Msg_Transport t)" "td_receiver_index t = tk_local_index (s_keys b)"
      "td_counter t = s_send_counter a" "length d = sealed_size (unat n)"
      "session_open L b (td_counter t) (td_sealed t) = Some (b\<lparr>s_window := w\<rparr>, Some (subspan 16 (unat n) buf))"
      "window_tracks w (insert (td_counter t) hist)"
    using seal_then_open [OF assms(1-7) refl assms(8-10)] by blast
  have "\<not> replay_acceptable (b\<lparr>s_window := w\<rparr>) (td_counter t)"
    using window.tracks_ok [OF o(7)] by (simp add: replay_acceptable_def fresh_def)
  with o show ?thesis by blast
qed

theorem session_round_trip_witness:
  "\<exists>a' buf' d t b'. session_seal demo_lib (demo_session (demo_keys 1 2 10 20)) (replicate 16 0 @ demo_packet @ replicate 44 9) 20 =
      Inr (a', buf', Some d) \<and> decode d = Some (Msg_Transport t) \<and>
    session_open demo_lib (demo_session (demo_keys 2 1 20 10)) (td_counter t) (td_sealed t) = Some (b', Some demo_packet)"
proof -
  have s: "subspan 16 (unat (20 :: size_t)) (replicate 16 0 @ demo_packet @ replicate 44 9) = demo_packet"
    by (simp add: subspan_def demo_packet_ok)
  have "mirrored (demo_keys 1 2 10 20) (demo_keys 2 1 20 10)" by (simp add: mirrored_def demo_keys_def)
  then show ?thesis
    using session_round_trip [OF demo_aead_ok, of "demo_session (demo_keys 1 2 10 20)" "demo_session (demo_keys 2 1 20 10)" "{}"
        20 "replicate 16 0 @ demo_packet @ replicate 44 9", unfolded s]
      window.tracks_start demo_packet_ok
    by (simp add: counter_usable_def kRejectAfterMessages_value fresh_empty sealed_size_def) blast
qed



text \<open>
  C33: Opening accepts exactly the fresh authentic packets. It always returns. If the counter is
  fresh and the bytes are the encryption, under the receive key and that counter, of a plaintext
  whose length is a multiple of 16, the counter is committed and the plaintext's packet is
  delivered; in every other case nothing is delivered and the session does not change, so a
  forgery or a replay cannot move the window.
\<close>

theorem session_open_exactly:
  assumes "aead_ok L" and "aead_authentic L" and "window_tracks (s_window s) hist"
  shows "if fresh hist c \<and> (\<exists>P. authentic L s c x P)
    then \<exists>P w. authentic L s c x P \<and> session_open L s c x = Some (s\<lparr>s_window := w\<rparr>, delivered P) \<and>
      window_tracks w (insert c hist)
    else session_open L s c x = Some (s, None)"
  using session_open_authentic [OF assms(1,3)] session_open_rejects [OF assms] by (simp split: if_split) blast

theorem session_open_exactly_witness:
  "session_open demo_lib (demo_session (demo_keys 2 1 20 10)) 5 (replicate 31 0) =
     Some (demo_session (demo_keys 2 1 20 10), None)"
proof -
  have "\<not> authentic demo_lib (demo_session (demo_keys 2 1 20 10)) 5 (replicate 31 0) P" for P
  proof
    assume a: "authentic demo_lib (demo_session (demo_keys 2 1 20 10)) 5 (replicate 31 0) P"
    then have e: "replicate 31 0 = aead_encrypt demo_lib (tk_receive (demo_keys 2 1 20 10)) (Nonce 5) [] P" and "16 dvd length P"
      by (simp_all add: authentic_def)
    moreover have "length P = 15" using arg_cong [OF e, of length] unfolding aead_length [OF demo_aead_ok] by simp
    ultimately show False by simp
  qed
  then show ?thesis
    using session_open_exactly [OF demo_aead_ok demo_aead_authentic, of "demo_session (demo_keys 2 1 20 10)" "{}" 5 "replicate 31 0"]
      window.tracks_start by simp
qed



end
