(* ===== verification/Fd.thy ===== *)
theory Fd
  imports Prelude "HOL-Library.Multiset"
begin

text \<open>
  The descriptor owner \<^verbatim>\<open>UniqueFd\<close> of \<^verbatim>\<open>src/src/fd.h\<close>. An object is its descriptor, with -1 for none;
  the operations that may close a descriptor return the descriptors they closed. A program's
  objects live in a store, in which destroyed objects stay behind as \<open>None\<close>, so that a sequence of
  operations can move descriptors between any two of them.
\<close>

section \<open>One object\<close>

definition UniqueFd_default :: int where
  "UniqueFd_default = - 1"

definition UniqueFd :: "int \<Rightarrow> int" where
  "UniqueFd fd = fd"

definition fd_get :: "int \<Rightarrow> int" where
  "fd_get fd = fd"

definition fd_valid :: "int \<Rightarrow> bool" where
  "fd_valid fd \<longleftrightarrow> fd \<ge> 0"

text \<open>The new value and the closed descriptors.\<close>

definition fd_reset :: "int \<Rightarrow> int \<times> int list" where
  "fd_reset fd = (if fd \<ge> 0 then (- 1, [fd]) else (fd, []))"

definition fd_destroy :: "int \<Rightarrow> int list" where
  "fd_destroy fd = snd (fd_reset fd)"

text \<open>The new object and what is left of the other one.\<close>

definition fd_move_construct :: "int \<Rightarrow> int \<times> int" where
  "fd_move_construct other = (other, - 1)"

text \<open>This object, the other object, and the closed descriptors.\<close>

definition fd_move_assign :: "bool \<Rightarrow> int \<Rightarrow> int \<Rightarrow> int \<times> int \<times> int list" where
  "fd_move_assign same this other =
     (if \<not> same then let (this', closed) = fd_reset this in (other, - 1, closed) else (this, other, []))"

lemmas fd_simps = UniqueFd_def UniqueFd_default_def fd_get_def fd_reset_def fd_destroy_def fd_move_construct_def fd_move_assign_def

text \<open>
  What the operations of the other components report of descriptors: the kernel handed one out, an
  owner closed one, and a read from one.
\<close>

datatype fd_event = Opened int | Closed int | Read_from int

section \<open>Programs over a store\<close>

datatype fd_op =
    Construct_default
  | Construct int
  | Move_construct nat
  | Move_assign nat nat
  | Reset nat
  | Destroy nat

record fd_store =
  fs_objects :: "int option list"
  fs_closed :: "int list"

text \<open>An operation on an object that is not alive is not a program; it is \<open>None\<close>.\<close>

definition alive :: "fd_store \<Rightarrow> nat \<Rightarrow> bool" where
  "alive st i \<longleftrightarrow> i < length (fs_objects st) \<and> fs_objects st ! i \<noteq> None"

definition obj :: "fd_store \<Rightarrow> nat \<Rightarrow> int" where
  "obj st i = the (fs_objects st ! i)"

fun fd_step :: "fd_store \<Rightarrow> fd_op \<Rightarrow> fd_store option" where
  "fd_step st Construct_default = Some (st\<lparr>fs_objects := fs_objects st @ [Some UniqueFd_default]\<rparr>)"
| "fd_step st (Construct fd) = Some (st\<lparr>fs_objects := fs_objects st @ [Some (UniqueFd fd)]\<rparr>)"
| "fd_step st (Move_construct j) =
     (if \<not> alive st j then None
      else let (new, other) = fd_move_construct (obj st j)
           in Some (st\<lparr>fs_objects := (fs_objects st)[j := Some other] @ [Some new]\<rparr>))"
| "fd_step st (Move_assign i j) =
     (if \<not> alive st i \<or> \<not> alive st j then None
      else let (this, other, closed) = fd_move_assign (i = j) (obj st i) (obj st j)
           in Some (st\<lparr>fs_objects := (fs_objects st)[j := Some other, i := Some this],
                       fs_closed := fs_closed st @ closed\<rparr>))"
| "fd_step st (Reset i) =
     (if \<not> alive st i then None
      else let (this, closed) = fd_reset (obj st i)
           in Some (st\<lparr>fs_objects := (fs_objects st)[i := Some this], fs_closed := fs_closed st @ closed\<rparr>))"
| "fd_step st (Destroy i) =
     (if \<not> alive st i then None
      else Some (st\<lparr>fs_objects := (fs_objects st)[i := None],
                    fs_closed := fs_closed st @ fd_destroy (obj st i)\<rparr>))"

fun fd_run :: "fd_store \<Rightarrow> fd_op list \<Rightarrow> fd_store option" where
  "fd_run st [] = Some st"
| "fd_run st (p # ps) = (case fd_step st p of None \<Rightarrow> None | Some st' \<Rightarrow> fd_run st' ps)"

section \<open>Conservation of descriptors\<close>

definition owns :: "int option \<Rightarrow> int multiset" where
  "owns x = (case x of Some fd \<Rightarrow> if fd \<ge> 0 then {#fd#} else {#} | None \<Rightarrow> {#})"

definition owned :: "fd_store \<Rightarrow> int multiset" where
  "owned st = sum_list (map owns (fs_objects st))"

definition adopted :: "fd_op list \<Rightarrow> int multiset" where
  "adopted ps = sum_list (map (\<lambda>p. case p of Construct fd \<Rightarrow> owns (Some fd) | _ \<Rightarrow> {#}) ps)"

lemma owns_simps [simp]: "owns None = {#}" "owns (Some (- 1)) = {#}"
  by (simp_all add: owns_def)

lemma sum_list_update_owns:
  "i < length xs \<Longrightarrow> sum_list (map owns (xs[i := x])) + owns (xs ! i) = sum_list (map owns xs) + owns x"
  by (induction xs arbitrary: i) (auto split: nat.split simp: ac_simps)

lemma all_destroyed: "\<forall>x\<in>set xs. x = None \<Longrightarrow> sum_list (map owns xs) = {#}"
  by (induction xs) auto

lemma alive_obj: "alive st i \<Longrightarrow> fs_objects st ! i = Some (obj st i) \<and> i < length (fs_objects st)"
  by (auto simp: alive_def obj_def)

lemma reset_owns: "fd_reset fd = (fd', closed) \<Longrightarrow> owns (Some fd') = {#} \<and> mset closed = owns (Some fd)"
  by (auto simp: fd_reset_def owns_def split: if_splits)

lemma fd_step_conserves:
  assumes "fd_step st p = Some st'"
  shows "owned st' + mset (fs_closed st') = owned st + mset (fs_closed st) + adopted [p]"
proof (cases p)
  case (Move_construct j)
  with assms alive_obj [of st j] sum_list_update_owns [of j "fs_objects st" "Some (- 1)"] show ?thesis
    by (auto simp: owned_def adopted_def fd_move_construct_def split: if_splits)
next
  case (Move_assign i j)
  with assms have al: "alive st i" "alive st j" by (auto split: if_splits)
  let ?os = "fs_objects st" and ?a = "Some (obj st i)" and ?b = "Some (obj st j)"
  have at: "?os ! i = ?a" "i < length ?os" "?os ! j = ?b" "j < length ?os" using al alive_obj by auto
  show ?thesis
  proof (cases "i = j")
    case True
    with assms Move_assign al at sum_list_update_owns [of j ?os ?b] show ?thesis
      by (auto simp: owned_def adopted_def fd_move_assign_def)
  next
    case False
    have "sum_list (map owns (?os[j := Some (- 1), i := ?b])) + owns ?a = sum_list (map owns ?os)"
      using sum_list_update_owns [of i "?os[j := Some (- 1)]" ?b] sum_list_update_owns [of j ?os "Some (- 1)"] at False
      by simp
    with False assms Move_assign al reset_owns [of "obj st i"] show ?thesis
      by (auto simp: owned_def adopted_def fd_move_assign_def ac_simps split: prod.splits)
  qed
next
  case (Reset i)
  with assms have al: "alive st i" by (auto split: if_splits)
  obtain this closed where r: "fd_reset (obj st i) = (this, closed)" by fastforce
  with Reset assms al alive_obj [OF al] sum_list_update_owns [of i "fs_objects st" "Some this"] reset_owns [OF r] show ?thesis
    by (auto simp: owned_def adopted_def ac_simps)
next
  case (Destroy i)
  with assms have al: "alive st i" by (auto split: if_splits)
  obtain this closed where r: "fd_reset (obj st i) = (this, closed)" by fastforce
  with Destroy assms al alive_obj [OF al] sum_list_update_owns [of i "fs_objects st" None] reset_owns [OF r] show ?thesis
    by (auto simp: owned_def adopted_def fd_destroy_def ac_simps)
qed (use assms in \<open>auto simp: owned_def adopted_def UniqueFd_def UniqueFd_default_def ac_simps\<close>)

lemma adopted_Cons: "adopted (p # ps) = adopted [p] + adopted ps"
  by (simp add: adopted_def)

lemma fd_run_conserves:
  "fd_run st ps = Some st' \<Longrightarrow> owned st' + mset (fs_closed st') = owned st + mset (fs_closed st) + adopted ps"
proof (induction ps arbitrary: st)
  case (Cons p ps)
  then obtain st1 where "fd_step st p = Some st1" "fd_run st1 ps = Some st'" by (auto split: option.splits)
  with Cons.IH fd_step_conserves adopted_Cons [of p ps] show ?case by (simp add: ac_simps)
qed (simp add: adopted_def)

section \<open>Properties\<close>

text \<open>
  C40: Every descriptor is closed exactly once. In any program over descriptor owners that constructs,
  moves, resets and destroys them in any order, the descriptors closed so far and the ones still
  owned are together exactly the adopted ones, counted with multiplicity; so none is closed
  twice, and when every object has been destroyed each adopted descriptor was closed once.
\<close>

theorem descriptors_closed_once:
  assumes "fd_run \<lparr>fs_objects = [], fs_closed = []\<rparr> ps = Some st"
  shows "mset (fs_closed st) + owned st = adopted ps \<and>
    ((\<forall>x\<in>set (fs_objects st). x = None) \<longrightarrow> mset (fs_closed st) = adopted ps)"
proof -
  have c: "mset (fs_closed st) + owned st = adopted ps"
    using fd_run_conserves [OF assms] by (simp add: owned_def add.commute)
  moreover have "owned st = {#}" if "\<forall>x\<in>set (fs_objects st). x = None"
    using that unfolding owned_def by (rule all_destroyed)
  ultimately show ?thesis by auto
qed

theorem descriptors_closed_once_witness:
  "\<exists>st. fd_run \<lparr>fs_objects = [], fs_closed = []\<rparr>
      [Construct 5, Construct_default, Move_assign 1 0, Construct 7, Move_construct 1, Destroy 0, Destroy 1, Destroy 2, Destroy 3] =
      Some st \<and> mset (fs_closed st) = {#5, 7#}"
proof -
  let ?ps = "[Construct 5, Construct_default, Move_assign 1 0, Construct 7, Move_construct 1, Destroy 0, Destroy 1, Destroy 2, Destroy 3]"
  obtain st where st: "fd_run \<lparr>fs_objects = [], fs_closed = []\<rparr> ?ps = Some st" "fs_objects st = [None, None, None, None]"
    by (simp add: UniqueFd_def UniqueFd_default_def alive_def obj_def fd_move_assign_def fd_move_construct_def fd_reset_def fd_destroy_def)
  with descriptors_closed_once [OF st(1)] show ?thesis by (auto simp: adopted_def owns_def)
qed

end
