(* ===== verification/Args.thy ===== *)
theory Args
  imports Prelude
begin

text \<open>
  Numbers as text: the parts of \<^verbatim>\<open>std::from_chars\<close> and \<^verbatim>\<open>std::to_string\<close> the program uses, and the
  argument parsers of \<^verbatim>\<open>src/src/args.h\<close>. An integer type is given by its signedness and range.
\<close>

section \<open>Definitions\<close>

definition is_digit :: "char \<Rightarrow> bool" where
  "is_digit c \<longleftrightarrow> 48 \<le> (of_char c :: nat) \<and> (of_char c :: nat) \<le> 57"

definition digit_value :: "char \<Rightarrow> nat" where
  "digit_value c = of_char c - 48"

definition decimal :: "string \<Rightarrow> nat" where
  "decimal ds = foldl (\<lambda>n c. 10 * n + digit_value c) 0 ds"

datatype errc = Errc_ok | Errc_invalid_argument | Errc_out_of_range

text \<open>The result is the text from the returned pointer on, the error code and the value.\<close>

definition from_chars :: "bool \<Rightarrow> int \<Rightarrow> int \<Rightarrow> string \<Rightarrow> string \<times> errc \<times> int" where
  "from_chars is_signed lo hi t =
     (let neg = is_signed \<and> t \<noteq> [] \<and> hd t = CHR ''-'';
          body = (if neg then tl t else t);
          ds = takeWhile is_digit body;
          rest = dropWhile is_digit body
      in if ds = [] then (t, Errc_invalid_argument, 0)
         else
           let v = (if neg then - int (decimal ds) else int (decimal ds))
           in if v < lo \<or> v > hi then (rest, Errc_out_of_range, 0) else (rest, Errc_ok, v))"

fun to_string :: "nat \<Rightarrow> string" where
  "to_string n = (if n < 10 then [char_of (48 + n)] else to_string (n div 10) @ [char_of (48 + n mod 10)])"

definition parse_number :: "bool \<Rightarrow> int \<Rightarrow> int \<Rightarrow> string \<Rightarrow> int \<Rightarrow> int \<Rightarrow> int option" where
  "parse_number is_signed lo hi t low high =
     (let (rest, ec, value) = from_chars is_signed lo hi t
      in if ec \<noteq> Errc_ok \<or> rest \<noteq> [] \<or> value < low \<or> value > high then None else Some value)"

definition parse_mtu :: "string \<Rightarrow> int option" where
  "parse_mtu t = parse_number True (- (2 ^ 31)) (2 ^ 31 - 1) t 576 1500"

definition parse_port :: "string \<Rightarrow> u16 option" where
  "parse_port t = map_option word_of_int (parse_number False 0 65535 t 1 65535)"

declare to_string.simps [simp del]

section \<open>Decimal text\<close>

lemma digit_char [simp]: "d < 10 \<Longrightarrow> is_digit (char_of (48 + d))" "d < 10 \<Longrightarrow> digit_value (char_of (48 + d)) = d"
  by (simp_all add: is_digit_def digit_value_def)

lemma digit_zero [simp]: "is_digit (char_of (48 :: nat))" "digit_value (char_of (48 :: nat)) = 0"
  using digit_char [of 0] by simp_all

lemma decimal_snoc [simp]: "decimal (ds @ [c]) = 10 * decimal ds + digit_value c"
  by (simp add: decimal_def)

lemma decimal_single [simp]: "decimal [c] = digit_value c" "decimal [] = 0"
  by (simp_all add: decimal_def)

lemma to_string_digits: "to_string n \<noteq> [] \<and> (\<forall>c\<in>set (to_string n). is_digit c)"
  by (induction n rule: to_string.induct) (subst (1 2) to_string.simps, auto)

lemma decimal_to_string [simp]: "decimal (to_string n) = n"
  by (induction n rule: to_string.induct) (subst to_string.simps, auto)

text \<open>The texts that denote an integer: decimal digits, with a leading minus for signed types.\<close>

definition denotes :: "bool \<Rightarrow> string \<Rightarrow> int \<Rightarrow> bool" where
  "denotes is_signed t v \<longleftrightarrow>
     (\<exists>ds. ds \<noteq> [] \<and> (\<forall>c\<in>set ds. is_digit c) \<and>
        (t = ds \<and> v = int (decimal ds) \<or> is_signed \<and> t = CHR ''-'' # ds \<and> v = - int (decimal ds)))"

lemma minus_no_digit [simp]: "\<not> is_digit (CHR ''-'')"
  by (simp add: is_digit_def)

lemma denotes_minus:
  "denotes sg (CHR ''-'' # ds) v \<longleftrightarrow> sg \<and> ds \<noteq> [] \<and> (\<forall>c\<in>set ds. is_digit c) \<and> v = - int (decimal ds)"
  by (auto simp: denotes_def)

lemma denotes_plain:
  "\<not> (sg \<and> t \<noteq> [] \<and> hd t = CHR ''-'') \<Longrightarrow>
   denotes sg t v \<longleftrightarrow> t \<noteq> [] \<and> (\<forall>c\<in>set t. is_digit c) \<and> v = int (decimal t)"
  by (auto simp: denotes_def)

lemma takeWhile_id: "\<forall>x\<in>set xs. P x \<Longrightarrow> takeWhile P xs = xs"
  by simp

lemma from_chars_all:
  "from_chars sg lo hi t = ([], Errc_ok, v) \<longleftrightarrow> denotes sg t v \<and> lo \<le> v \<and> v \<le> hi"
proof (cases "sg \<and> t \<noteq> [] \<and> hd t = CHR ''-''")
  case True
  then obtain ds where t: "t = CHR ''-'' # ds" by (cases t) auto
  with True show ?thesis
    by (auto simp: from_chars_def Let_def denotes_minus takeWhile_id split: if_splits)
next
  case False
  then show ?thesis
    by (auto simp: from_chars_def Let_def denotes_plain takeWhile_id split: if_splits)
qed

lemma denotes_unique: "denotes sg t v \<Longrightarrow> denotes sg t w \<Longrightarrow> v = w"
  using from_chars_all [of sg "min v w" "max v w" t v] from_chars_all [of sg "min v w" "max v w" t w] by auto

lemma parse_number_Some:
  "parse_number sg lo hi t low high = Some v \<longleftrightarrow>
     denotes sg t v \<and> lo \<le> v \<and> v \<le> hi \<and> low \<le> v \<and> v \<le> high"
  using from_chars_all [of sg lo hi t v]
  by (auto simp: parse_number_def split: prod.splits if_splits)

lemma denotes_to_string: "denotes sg (to_string n) v \<longleftrightarrow> v = int n"
proof -
  have "denotes sg (to_string n) (int n)" using to_string_digits [of n] by (auto simp: denotes_def)
  then show ?thesis using denotes_unique by blast
qed

lemma port_range:
  "(\<exists>v. P v \<and> 1 \<le> v \<and> v \<le> 65535 \<and> p = word_of_int v) \<longleftrightarrow> P (uint p) \<and> p \<noteq> 0" for p :: u16
proof
  assume "\<exists>v. P v \<and> 1 \<le> v \<and> v \<le> 65535 \<and> p = word_of_int v"
  then obtain v where v: "P v" "1 \<le> v" "v \<le> 65535" "p = word_of_int v" by blast
  then have "uint p = v" by (simp add: uint_word_of_int_eq take_bit_int_eq_self)
  with v show "P (uint p) \<and> p \<noteq> 0" by auto
next
  assume p: "P (uint p) \<and> p \<noteq> 0"
  have "uint p < 65536" using uint_lt2p [of p] by simp
  moreover have "uint p \<noteq> 0" using p by (simp add: uint_0_iff)
  moreover have "0 \<le> uint p" by simp
  ultimately have "1 \<le> uint p \<and> uint p \<le> 65535" by linarith
  with p show "\<exists>v. P v \<and> 1 \<le> v \<and> v \<le> 65535 \<and> p = word_of_int v" by auto
qed

section \<open>Properties\<close>

text \<open>
  The argument parsers accept exactly the decimal numbers of their range: no sign (but a minus
  where the type is signed, which the range then excludes), no blanks, nothing behind the
  digits, and no value outside 576 to 1500 for an MTU or outside 1 to 65535 for a port; printing
  a value of the range and parsing it gives it back.
\<close>

theorem parse_arguments:
  "(parse_mtu t = Some m \<longleftrightarrow> denotes True t m \<and> 576 \<le> m \<and> m \<le> 1500) \<and>
   (parse_port t = Some p \<longleftrightarrow> denotes False t (uint p) \<and> p \<noteq> 0) \<and>
   parse_mtu (to_string n) = (if 576 \<le> n \<and> n \<le> 1500 then Some (int n) else None)"
proof (intro conjI)
  show "parse_mtu t = Some m \<longleftrightarrow> denotes True t m \<and> 576 \<le> m \<and> m \<le> 1500"
    by (auto simp: parse_mtu_def parse_number_Some)
  have "parse_port t = Some p \<longleftrightarrow> (\<exists>v. denotes False t v \<and> 1 \<le> v \<and> v \<le> 65535 \<and> p = word_of_int v)"
    by (auto simp: parse_port_def parse_number_Some)
  also have "\<dots> \<longleftrightarrow> denotes False t (uint p) \<and> p \<noteq> 0" by (rule port_range)
  finally show "parse_port t = Some p \<longleftrightarrow> denotes False t (uint p) \<and> p \<noteq> 0" .
  have "parse_mtu (to_string n) = Some v \<longleftrightarrow> v = int n \<and> 576 \<le> n \<and> n \<le> 1500" for v
    by (auto simp: parse_mtu_def parse_number_Some denotes_to_string)
  then show "parse_mtu (to_string n) = (if 576 \<le> n \<and> n \<le> 1500 then Some (int n) else None)"
    by (cases "parse_mtu (to_string n)") auto
qed

end
