(* ===== verification/Udp.thy ===== *)
theory Udp
  imports Args Fd
begin

text \<open>
  The UDP socket and the endpoint texts, \<^verbatim>\<open>src/src/udp.h\<close> and \<^verbatim>\<open>src/src/udp.cpp\<close>. The kernel's
  answers are inputs: a loop that retries an interrupted call consumes a list of answers, one per
  call, and is \<open>None\<close> when it has used them all up, that is, when it has not returned yet. The
  address of a \<^verbatim>\<open>sockaddr_in\<close> is its four bytes in memory order and the port is kept in network
  byte order on a little-endian host. \<open>inet_pton\<close> and \<open>inet_ntop\<close> are the library functions for
  \<^verbatim>\<open>AF_INET\<close>.
\<close>

unbundle bit_operations_syntax

section \<open>Kernel answers\<close>

datatype 'a syscall = Sys_ok 'a | Sys_err int

definition EPERM :: int where [simp]: "EPERM = 1"
definition EINTR :: int where [simp]: "EINTR = 4"
definition EAGAIN :: int where [simp]: "EAGAIN = 11"
definition EMSGSIZE :: int where [simp]: "EMSGSIZE = 90"
definition ENETUNREACH :: int where [simp]: "ENETUNREACH = 101"
definition ENOBUFS :: int where [simp]: "ENOBUFS = 105"
definition ECONNREFUSED :: int where [simp]: "ECONNREFUSED = 111"
definition EHOSTUNREACH :: int where [simp]: "EHOSTUNREACH = 113"

section \<open>Addresses\<close>

record sockaddr_in =
  sin_family :: nat
  sin_port :: u16
  sin_addr :: bytes

definition AF_INET :: nat where [simp]: "AF_INET = 2"

definition htons :: "u16 \<Rightarrow> u16" where
  "htons p = push_bit 8 p OR drop_bit 8 p"

definition ntohs :: "u16 \<Rightarrow> u16" where
  "ntohs p = push_bit 8 p OR drop_bit 8 p"

definition c_str :: "string \<Rightarrow> string" where
  "c_str s = takeWhile (\<lambda>c. c \<noteq> CHR 0x00) s"

text \<open>
  The library's scanner of dotted quads: \<open>saw\<close> says whether the current octet has a digit, \<open>octets\<close>
  counts the octets begun, \<open>finished\<close> holds the completed ones in reverse and \<open>cur\<close> the current value.
\<close>

fun pton_loop :: "string \<Rightarrow> bool \<Rightarrow> nat \<Rightarrow> nat list \<Rightarrow> nat \<Rightarrow> bytes option" where
  "pton_loop [] saw octets finished cur =
     (if octets < 4 then None else Some (map of_nat (rev (cur # finished))))"
| "pton_loop (c # cs) saw octets finished cur =
     (if is_digit c then
        let new = cur * 10 + digit_value c
        in if saw \<and> cur = 0 then None
           else if new > 255 then None
           else if \<not> saw then
             (if octets + 1 > 4 then None else pton_loop cs True (octets + 1) finished new)
           else pton_loop cs True octets finished new
      else if c = CHR ''.'' \<and> saw then
        (if octets = 4 then None else pton_loop cs False octets (cur # finished) 0)
      else None)"

definition inet_pton :: "string \<Rightarrow> bytes option" where
  "inet_pton s = pton_loop s False 0 [] 0"

definition inet_ntop :: "bytes \<Rightarrow> string" where
  "inet_ntop a = to_string (unat (a ! 0)) @ ''.'' @ to_string (unat (a ! 1)) @ ''.'' @
     to_string (unat (a ! 2)) @ ''.'' @ to_string (unat (a ! 3))"

definition rfind :: "char \<Rightarrow> string \<Rightarrow> nat option" where
  "rfind c s = (case dropWhile (\<lambda>x. x \<noteq> c) (rev s) of [] \<Rightarrow> None | _ # r \<Rightarrow> Some (length r))"

definition parse_endpoint :: "string \<Rightarrow> sockaddr_in option" where
  "parse_endpoint txt =
     (case rfind (CHR '':'') txt of
        None \<Rightarrow> None
      | Some colon \<Rightarrow>
          if colon = 0 \<or> colon + 1 = length txt then None
          else
            let host = take colon txt; port_text = drop (colon + 1) txt;
                (rest, ec, port) = from_chars False 0 (2 ^ 32 - 1) port_text
            in if ec \<noteq> Errc_ok \<or> rest \<noteq> [] \<or> port = 0 \<or> port > 65535 then None
               else (case inet_pton (c_str host) of
                      None \<Rightarrow> None
                    | Some a \<Rightarrow>
                        Some \<lparr>sin_family = AF_INET, sin_port = htons (word_of_int port), sin_addr = a\<rparr>))"

definition format_address :: "sockaddr_in \<Rightarrow> string" where
  "format_address addr = inet_ntop (sin_addr addr)"

definition format_endpoint :: "sockaddr_in \<Rightarrow> string" where
  "format_endpoint addr = format_address addr @ '':'' @ to_string (unat (ntohs (sin_port addr)))"

definition same_endpoint :: "sockaddr_in \<Rightarrow> sockaddr_in \<Rightarrow> bool" where
  "same_endpoint a b \<longleftrightarrow> sin_addr a = sin_addr b \<and> sin_port a = sin_port b"

section \<open>The socket\<close>

text \<open>
  A socket owns its descriptor. The result of opening is what happened to descriptors and the socket
  or the exception.
\<close>

record UdpSocket =
  us_fd :: int

definition udp_fd :: "UdpSocket \<Rightarrow> int" where
  "udp_fd sock = fd_get (us_fd sock)"

definition bind_any :: "int syscall \<Rightarrow> (sockaddr_in \<Rightarrow> unit syscall) \<Rightarrow> u16 \<Rightarrow> fd_event list \<times> UdpSocket result" where
  "bind_any socket bind port =
     (case socket of
        Sys_err e \<Rightarrow> ([], Inl (System_error e ''socket(AF_INET, SOCK_DGRAM)''))
      | Sys_ok fd \<Rightarrow>
          let me = \<lparr>sin_family = AF_INET, sin_port = htons port, sin_addr = replicate 4 0\<rparr>
          in (case bind me of
                Sys_err e \<Rightarrow> (Opened fd # map Closed (fd_destroy (UniqueFd fd)), Inl (System_error e (''bind udp port '' @ to_string (unat port))))
              | Sys_ok _ \<Rightarrow>
                  let (moved, rest) = fd_move_construct (UniqueFd fd)
                  in (Opened fd # map Closed (fd_destroy rest), Inr \<lparr>us_fd = moved\<rparr>)))"

definition local_port :: "sockaddr_in syscall \<Rightarrow> u16 result" where
  "local_port getsockname =
     (case getsockname of
        Sys_err e \<Rightarrow> Inl (System_error e ''getsockname'')
      | Sys_ok me \<Rightarrow> Inr (ntohs (sin_port me)))"

fun recv_from ::
  "nat \<Rightarrow> (bytes \<times> sockaddr_in) syscall list \<Rightarrow>
   ((bytes \<times> sockaddr_in) option result \<times> (bytes \<times> sockaddr_in) syscall list) option" where
  "recv_from buf_size [] = None"
| "recv_from buf_size (Sys_ok (datagram, from) # ks) = Some (Inr (Some (take buf_size datagram, from)), ks)"
| "recv_from buf_size (Sys_err e # ks) =
     (if e = EINTR then recv_from buf_size ks
      else if e = EAGAIN then Some (Inr None, ks)
      else if e = ECONNREFUSED \<or> e = ENETUNREACH \<or> e = EHOSTUNREACH then Some (Inr None, ks)
      else Some (Inl (System_error e ''recvfrom''), ks))"

fun send_to :: "bytes \<Rightarrow> nat syscall list \<Rightarrow> (bool result \<times> nat syscall list) option" where
  "send_to packet [] = None"
| "send_to packet (Sys_ok n # ks) = Some (Inr (n = length packet), ks)"
| "send_to packet (Sys_err e # ks) =
     (if e = EINTR then send_to packet ks
      else if e = EAGAIN \<or> e = ENOBUFS \<or> e = EMSGSIZE \<or> e = ENETUNREACH \<or> e = EHOSTUNREACH \<or>
        e = ECONNREFUSED \<or> e = EPERM then Some (Inr False, ks)
      else Some (Inl (System_error e ''sendto''), ks))"

section \<open>Byte order\<close>

lemma ntohs_htons [simp]: "ntohs (htons p) = p"
  by (rule bit_word_eqI) (auto simp: ntohs_def htons_def bit_simps)

lemma htons_ntohs [simp]: "htons (ntohs p) = p"
  by (rule bit_word_eqI) (auto simp: ntohs_def htons_def bit_simps)

lemma htons_0: "htons 0 = 0" "ntohs 0 = 0"
  by (simp_all add: htons_def ntohs_def)

lemma htons_eq_0 [simp]: "htons x = 0 \<longleftrightarrow> x = 0"
  by (metis htons_0 ntohs_htons)

lemma ntohs_eq_0 [simp]: "ntohs x = 0 \<longleftrightarrow> x = 0"
  by (metis htons_0 htons_ntohs)

lemma htons_eq_iff: "x = htons p \<longleftrightarrow> ntohs x = p"
  by auto

section \<open>Dotted quads\<close>

lemma dot_no_digit [simp]: "\<not> is_digit (CHR ''.'')" "\<not> is_digit (CHR '':'')"
  by (simp_all add: is_digit_def)

lemma pton_octet:
  assumes "n \<le> 255" and "k < 4"
  shows "pton_loop (to_string n @ cs) False k f 0 = pton_loop cs True (Suc k) f n"
  using assms
proof (induction n arbitrary: cs rule: to_string.induct)
  case (1 n)
  show ?case
  proof (cases "n < 10")
    case True
    then show ?thesis using 1(3) by (subst to_string.simps) simp
  next
    case False
    then have "n div 10 \<noteq> 0" "n div 10 * 10 + n mod 10 = n" by (simp_all add: div_eq_0_iff)
    with False 1 show ?thesis by (subst to_string.simps) simp
  qed
qed

lemma octet_le [simp]: "unat b \<le> 255" for b :: u8
  using unat_u8_less [of b] by simp

lemma inet_pton_ntop:
  assumes "length a = 4"
  shows "inet_pton (inet_ntop a) = Some a"
proof -
  have "a = [a ! 0, a ! 1, a ! 2, a ! 3]"
    using assms by (auto simp: list_eq_iff_nth_eq less_Suc_eq numeral_eq_Suc)
  then show ?thesis
    by (simp add: inet_pton_def inet_ntop_def pton_octet pton_octet [where cs = "[]", simplified])
qed

lemma pton_length:
  "pton_loop s saw k f cur = Some a \<Longrightarrow> (if saw then k = Suc (length f) \<and> k \<le> 4 else k = length f \<and> k < 4) \<Longrightarrow> length a = 4"
  by (induction s saw k f cur rule: pton_loop.induct) (auto simp: Let_def split: if_splits)

lemma inet_pton_length: "inet_pton s = Some a \<Longrightarrow> length a = 4"
  unfolding inet_pton_def by (erule pton_length) simp_all

lemma inet_ntop_chars: "c \<in> set (inet_ntop a) \<Longrightarrow> is_digit c \<or> c = CHR ''.''"
  using to_string_digits by (auto simp: inet_ntop_def)

lemma inet_ntop_c_str: "c_str (inet_ntop a) = inet_ntop a"
proof -
  have "\<not> is_digit (CHR 0x00)" by (simp add: is_digit_def)
  then show ?thesis using inet_ntop_chars [of "CHR 0x00" a] by (auto simp: c_str_def)
qed

lemma inet_ntop_not_Nil: "inet_ntop a \<noteq> []"
  by (simp add: inet_ntop_def)

lemma rfind_append: "c \<notin> set t \<Longrightarrow> rfind c (s @ c # t) = Some (length s)"
proof -
  assume "c \<notin> set t"
  then have "dropWhile (\<lambda>x. x \<noteq> c) (rev t @ c # rev s) = c # rev s" by (subst dropWhile_append2) auto
  then show ?thesis by (simp add: rfind_def)
qed

lemma rfind_Some: "rfind c s = Some k \<Longrightarrow> \<exists>a b. s = a @ c # b \<and> length a = k \<and> c \<notin> set b"
proof -
  assume "rfind c s = Some k"
  then obtain x r where r: "dropWhile (\<lambda>x. x \<noteq> c) (rev s) = x # r" "k = length r"
    by (auto simp: rfind_def split: list.splits)
  then have "x = c" by (metis (mono_tags, lifting) hd_dropWhile list.discI list.sel(1))
  moreover have "rev s = takeWhile (\<lambda>x. x \<noteq> c) (rev s) @ x # r" using r(1) by (metis takeWhile_dropWhile_id)
  then have "s = rev r @ x # rev (takeWhile (\<lambda>x. x \<noteq> c) (rev s))" by (metis rev.simps(2) rev_append rev_rev_ident append_assoc append_Cons append_Nil)
  moreover have "c \<notin> set (takeWhile (\<lambda>x. x \<noteq> c) (rev s))" by (auto dest: set_takeWhileD)
  ultimately show ?thesis using r(2)
    by (intro exI [of _ "rev r"] exI [of _ "rev (takeWhile (\<lambda>x. x \<noteq> c) (rev s))"]) auto
qed

definition wf_endpoint :: "sockaddr_in \<Rightarrow> bool" where
  "wf_endpoint a \<longleftrightarrow> sin_family a = AF_INET \<and> length (sin_addr a) = 4 \<and> sin_port a \<noteq> 0"

lemma parse_endpoint_Some:
  "parse_endpoint t = Some a \<longleftrightarrow>
     (\<exists>host ds port. t = host @ CHR '':'' # ds \<and> CHR '':'' \<notin> set ds \<and> host \<noteq> [] \<and> denotes False ds port \<and>
        0 < port \<and> port \<le> 65535 \<and> inet_pton (c_str host) = Some (sin_addr a) \<and>
        sin_family a = AF_INET \<and> sin_port a = htons (word_of_int port))"
proof
  assume p: "parse_endpoint t = Some a"
  then obtain k where k: "rfind (CHR '':'') t = Some k" "k \<noteq> 0" by (auto simp: parse_endpoint_def split: option.splits if_splits)
  then obtain host ds where h: "t = host @ CHR '':'' # ds" "length host = k" "CHR '':'' \<notin> set ds" using rfind_Some by blast
  obtain rest ec port where f: "from_chars False 0 (2 ^ 32 - 1) ds = (rest, ec, port)" by (metis prod_cases3)
  from p k h f have e: "ec = Errc_ok" "rest = []" "port \<noteq> 0" "port \<le> 65535" "inet_pton (c_str host) = Some (sin_addr a)"
      "sin_family a = AF_INET" "sin_port a = htons (word_of_int port)"
    by (auto simp: parse_endpoint_def split: option.splits if_splits)
  with f have "denotes False ds port" "0 \<le> port" using from_chars_all [of False 0 "2 ^ 32 - 1" ds port] by simp_all
  with h e k(2) show "\<exists>host ds port. t = host @ CHR '':'' # ds \<and> CHR '':'' \<notin> set ds \<and> host \<noteq> [] \<and> denotes False ds port \<and>
        0 < port \<and> port \<le> 65535 \<and> inet_pton (c_str host) = Some (sin_addr a) \<and>
        sin_family a = AF_INET \<and> sin_port a = htons (word_of_int port)"
    by (intro exI [of _ host] exI [of _ ds] exI [of _ port]) auto
next
  assume "\<exists>host ds port. t = host @ CHR '':'' # ds \<and> CHR '':'' \<notin> set ds \<and> host \<noteq> [] \<and> denotes False ds port \<and>
        0 < port \<and> port \<le> 65535 \<and> inet_pton (c_str host) = Some (sin_addr a) \<and>
        sin_family a = AF_INET \<and> sin_port a = htons (word_of_int port)"
  then obtain host ds port where h: "t = host @ CHR '':'' # ds" "CHR '':'' \<notin> set ds" "host \<noteq> []" "denotes False ds port"
        "0 < port" "port \<le> 65535" "inet_pton (c_str host) = Some (sin_addr a)"
        "sin_family a = AF_INET" "sin_port a = htons (word_of_int port)" by blast
  have "ds \<noteq> []" using h(4) by (auto simp: denotes_def)
  moreover have "from_chars False 0 (2 ^ 32 - 1) ds = ([], Errc_ok, port)" using h by (simp add: from_chars_all)
  ultimately show "parse_endpoint t = Some a"
    using h rfind_append [OF h(2), of host] by (simp add: parse_endpoint_def)
qed

lemma parse_format_endpoint: "parse_endpoint (format_endpoint b) = Some b \<longleftrightarrow> wf_endpoint b"
proof
  assume p: "parse_endpoint (format_endpoint b) = Some b"
  then obtain port host where "sin_port b = htons (word_of_int port)" "0 < port" "port \<le> 65535"
      "sin_family b = AF_INET" "inet_pton (c_str host) = Some (sin_addr b)" by (auto simp: parse_endpoint_Some)
  moreover have "word_of_int port \<noteq> (0 :: u16)"
    using port_range [of "\<lambda>v. v = port" "word_of_int port"] calculation(2,3) by force
  ultimately show "wf_endpoint b" by (simp add: wf_endpoint_def inet_pton_length)
next
  assume w: "wf_endpoint b"
  let ?p = "ntohs (sin_port b)"
  have "?p \<noteq> 0" using w by (simp add: wf_endpoint_def)
  then have "uint ?p \<noteq> 0" by (simp add: uint_0_iff)
  moreover have "0 \<le> uint ?p" "uint ?p < 65536" using uint_lt2p [of ?p] by simp_all
  ultimately have "0 < uint ?p" "uint ?p \<le> 65535" by linarith+
  moreover have "CHR '':'' \<notin> set (to_string n)" for n using to_string_digits [of n] by auto
  ultimately show "parse_endpoint (format_endpoint b) = Some b"
    using w unfolding parse_endpoint_Some
    by (intro exI [of _ "inet_ntop (sin_addr b)"] exI [of _ "to_string (unat ?p)"] exI [of _ "uint ?p"])
      (simp add: format_endpoint_def format_address_def inet_ntop_not_Nil denotes_to_string inet_ntop_c_str
        inet_pton_ntop wf_endpoint_def)
qed

section \<open>Properties\<close>

text \<open>
  C39: Endpoint texts. \<open>parse_endpoint\<close> accepts exactly a dotted quad, a colon and a decimal port between
  1 and 65535, the last colon being the separator, and returns that address and port in network
  order; printing an endpoint gives a text that parses back to it.
\<close>

theorem endpoint_text:
  "(parse_endpoint t = Some a \<longleftrightarrow>
      (\<exists>host ds. t = host @ CHR '':'' # ds \<and> host \<noteq> [] \<and> inet_pton (c_str host) = Some (sin_addr a) \<and>
         denotes False ds (uint (ntohs (sin_port a))) \<and> sin_port a \<noteq> 0 \<and> sin_family a = AF_INET)) \<and>
   (parse_endpoint (format_endpoint b) = Some b \<longleftrightarrow> wf_endpoint b)"
proof
  have c: "denotes False ds v \<Longrightarrow> CHR '':'' \<notin> set ds" for ds v by (auto simp: denotes_def)
  have "parse_endpoint t = Some a \<longleftrightarrow>
      (\<exists>host ds. t = host @ CHR '':'' # ds \<and> host \<noteq> [] \<and> inet_pton (c_str host) = Some (sin_addr a) \<and> sin_family a = AF_INET \<and>
        (\<exists>port. denotes False ds port \<and> 1 \<le> port \<and> port \<le> 65535 \<and> ntohs (sin_port a) = word_of_int port))"
    unfolding parse_endpoint_Some htons_eq_iff using c by (auto simp: int_one_le_iff_zero_less)
  then show "parse_endpoint t = Some a \<longleftrightarrow>
      (\<exists>host ds. t = host @ CHR '':'' # ds \<and> host \<noteq> [] \<and> inet_pton (c_str host) = Some (sin_addr a) \<and>
         denotes False ds (uint (ntohs (sin_port a))) \<and> sin_port a \<noteq> 0 \<and> sin_family a = AF_INET)"
    unfolding port_range ntohs_eq_0 by blast
next
  show "parse_endpoint (format_endpoint b) = Some b \<longleftrightarrow> wf_endpoint b" by (rule parse_format_endpoint)
qed

text \<open>
  The socket loops return at the first answer that is not an interruption: a datagram, cut to
  the buffer, with its source; nothing for an empty queue or a queued ICMP error; an exception for
  any other error. A send reports success only when the whole datagram was taken, and failure for
  each of the expected reasons.
\<close>

theorem socket_loops:
  "recv_from n (replicate k (Sys_err EINTR) @ a # ks) =
     (case a of
        Sys_ok (d, from) \<Rightarrow> Some (Inr (Some (take n d, from)), ks)
      | Sys_err e \<Rightarrow>
          if e = EINTR then recv_from n ks
          else Some (if e \<in> {EAGAIN, ECONNREFUSED, ENETUNREACH, EHOSTUNREACH} then Inr None
                     else Inl (System_error e ''recvfrom''), ks)) \<and>
   send_to p (replicate k (Sys_err EINTR) @ b # ls) =
     (case b of
        Sys_ok m \<Rightarrow> Some (Inr (m = length p), ls)
      | Sys_err e \<Rightarrow>
          if e = EINTR then send_to p ls
          else Some (if e \<in> {EAGAIN, ENOBUFS, EMSGSIZE, ENETUNREACH, EHOSTUNREACH, ECONNREFUSED, EPERM} then Inr False
                     else Inl (System_error e ''sendto''), ls))"
proof
  show "recv_from n (replicate k (Sys_err EINTR) @ a # ks) =
     (case a of
        Sys_ok (d, from) \<Rightarrow> Some (Inr (Some (take n d, from)), ks)
      | Sys_err e \<Rightarrow>
          if e = EINTR then recv_from n ks
          else Some (if e \<in> {EAGAIN, ECONNREFUSED, ENETUNREACH, EHOSTUNREACH} then Inr None
                     else Inl (System_error e ''recvfrom''), ks))"
    by (induction k) (auto split: syscall.split)
  show "send_to p (replicate k (Sys_err EINTR) @ b # ls) =
     (case b of
        Sys_ok m \<Rightarrow> Some (Inr (m = length p), ls)
      | Sys_err e \<Rightarrow>
          if e = EINTR then send_to p ls
          else Some (if e \<in> {EAGAIN, ENOBUFS, EMSGSIZE, ENETUNREACH, EHOSTUNREACH, ECONNREFUSED, EPERM} then Inr False
                     else Inl (System_error e ''sendto''), ls))"
    by (induction k) (auto split: syscall.split)
qed

end
