(* ===== verification/Tun.thy ===== *)
theory Tun
  imports Udp
begin

text \<open>
  The TUN device, \<^verbatim>\<open>src/src/tun.h\<close> and \<^verbatim>\<open>src/src/tun.cpp\<close>. The kernel's answers are inputs as for the
  socket. The \<^verbatim>\<open>TUNSETIFF\<close> request is a function from the request's flags and 16-byte name field to
  the name field the kernel writes back.
\<close>

unbundle bit_operations_syntax

definition IFNAMSIZ :: nat where [simp]: "IFNAMSIZ = 16"
definition IFF_TUN :: u16 where "IFF_TUN = 0x0001"
definition IFF_NO_PI :: u16 where "IFF_NO_PI = 0x1000"

text \<open>A device owns its descriptor and keeps the name the kernel gave it.\<close>

record TunDevice =
  tun_owner :: int
  tun_ifname :: string

definition tun_fd :: "TunDevice \<Rightarrow> int" where
  "tun_fd tun = fd_get (tun_owner tun)"

text \<open>What happened to descriptors, and the device or the exception.\<close>

definition tun_open ::
  "int syscall \<Rightarrow> (u16 \<Rightarrow> string \<Rightarrow> string syscall) \<Rightarrow> string \<Rightarrow> fd_event list \<times> TunDevice result" where
  "tun_open open_tun tunsetiff name =
     (if name = [] \<or> length name \<ge> IFNAMSIZ
      then ([], Inl (Invalid_argument (''tun device name must be 1..'' @ to_string (IFNAMSIZ - 1) @
              '' characters: '' @ name)))
      else (case open_tun of
              Sys_err e \<Rightarrow> ([], Inl (System_error e ''open /dev/net/tun''))
            | Sys_ok fd \<Rightarrow>
                let ifr_name = blit 0 name (replicate IFNAMSIZ (CHR 0x00))
                in (case tunsetiff (IFF_TUN OR IFF_NO_PI) ifr_name of
                      Sys_err e \<Rightarrow> (Opened fd # map Closed (fd_destroy (UniqueFd fd)), Inl (System_error e (''ioctl(TUNSETIFF) on '' @ name)))
                    | Sys_ok ifr_name' \<Rightarrow>
                        let (moved, rest) = fd_move_construct (UniqueFd fd)
                        in (Opened fd # map Closed (fd_destroy rest), Inr \<lparr>tun_owner = moved, tun_ifname = c_str (take IFNAMSIZ ifr_name')\<rparr>))))"

fun read_packet :: "string \<Rightarrow> nat \<Rightarrow> bytes syscall list \<Rightarrow> (bytes option result \<times> bytes syscall list) option" where
  "read_packet name buf_size [] = None"
| "read_packet name buf_size (Sys_ok packet # ks) = Some (Inr (Some (take buf_size packet)), ks)"
| "read_packet name buf_size (Sys_err e # ks) =
     (if e = EINTR then read_packet name buf_size ks
      else if e = EAGAIN then Some (Inr None, ks)
      else Some (Inl (System_error e (''read from '' @ name)), ks))"

fun write_packet :: "string \<Rightarrow> bytes \<Rightarrow> nat syscall list \<Rightarrow> (unit result \<times> nat syscall list) option" where
  "write_packet name packet [] = None"
| "write_packet name packet (Sys_err e # ks) =
     (if e = EINTR then write_packet name packet ks
      else if e = EAGAIN then Some (Inr (), ks)
      else Some (Inl (System_error e (''write to '' @ name)), ks))"
| "write_packet name packet (Sys_ok n # ks) =
     (if n \<noteq> length packet
      then Some (Inl (Runtime_error (''short write to '' @ name @ '': '' @ to_string n @ '' of '' @
             to_string (length packet) @ '' bytes'')), ks)
      else Some (Inr (), ks))"

lemma c_str_append: "c_str (s @ CHR 0x00 # xs) = c_str s"
  by (induction s) (auto simp: c_str_def)

section \<open>Properties\<close>

text \<open>
  Opening a device. A kernel that keeps the requested name gives a device of exactly that name
  for every name of 1 to 15 characters without a NUL, and for no other: the name field is
  NUL-terminated and long enough. A descriptor that was opened is returned or, when the kernel
  refuses the request, closed again.
\<close>

theorem tun_open_name:
  "(tun_open (Sys_ok fd) (\<lambda>flags field. Sys_ok field) name = ([Opened fd], Inr \<lparr>tun_owner = fd, tun_ifname = name\<rparr>) \<longleftrightarrow>
      1 \<le> length name \<and> length name \<le> 15 \<and> CHR 0x00 \<notin> set name) \<and>
   (fd \<ge> 0 \<longrightarrow> (case tun_open (Sys_ok fd) tunsetiff name of
      (events, Inr tun) \<Rightarrow> events = [Opened fd] \<and> tun_fd tun = fd
    | (events, Inl e) \<Rightarrow> events = (if 1 \<le> length name \<and> length name \<le> 15 then [Opened fd, Closed fd] else [])))"
proof
  have n: "name = [] \<or> length name \<ge> IFNAMSIZ \<longleftrightarrow> \<not> (1 \<le> length name \<and> length name \<le> 15)"
    by (cases name) auto
  have "c_str (name @ replicate (16 - length name) (CHR 0x00)) = name \<longleftrightarrow> CHR 0x00 \<notin> set name"
    if "length name \<le> 15"
  proof -
    have "16 - length name = Suc (15 - length name)" using that by simp
    then have "c_str (name @ replicate (16 - length name) (CHR 0x00)) = c_str name"
      by (simp only: replicate_Suc c_str_append)
    then show ?thesis by (auto simp: c_str_def)
  qed
  then show "tun_open (Sys_ok fd) (\<lambda>flags field. Sys_ok field) name = ([Opened fd], Inr \<lparr>tun_owner = fd, tun_ifname = name\<rparr>) \<longleftrightarrow>
      1 \<le> length name \<and> length name \<le> 15 \<and> CHR 0x00 \<notin> set name"
    unfolding tun_open_def n by (auto simp: Let_def blit_def fd_simps)
  show "fd \<ge> 0 \<longrightarrow> (case tun_open (Sys_ok fd) tunsetiff name of
      (events, Inr tun) \<Rightarrow> events = [Opened fd] \<and> tun_fd tun = fd
    | (events, Inl e) \<Rightarrow> events = (if 1 \<le> length name \<and> length name \<le> 15 then [Opened fd, Closed fd] else []))"
    unfolding tun_open_def n by (auto simp: Let_def fd_simps tun_fd_def split: syscall.split)
qed

end
