(* ===== verification/Relay.thy ===== *)
theory Relay
  imports Session Tun
begin

text \<open>
  The packet relay, \<^verbatim>\<open>src/src/relay.h\<close> and \<^verbatim>\<open>src/src/relay.cpp\<close>. The local variables of \<^verbatim>\<open>run_relay\<close> are
  the record \<open>relay\<close>. The body of each drain loop is one operation, \<open>on_tun_packet\<close> and
  \<open>on_datagram\<close>; the loops themselves, the dispatch over ready descriptors and the outer loop follow.
  Everything the outside world decides is an input: the answers of the system calls, the random
  bytes and the two clocks (\<open>step_env\<close>; the answers to a send or write may depend on its bytes). Everything the relay does to the outside world is in the
  returned list of \<open>relay_out\<close>: datagrams given to the socket with their destination and whether
  the kernel took them, packets given to the TUN device, and log lines.

  An operation that may throw or wait returns \<open>'a io\<close>: \<open>None\<close> while it has not returned, an exception
  on the left, a value on the right. The receive buffer is not part of the state, since only the
  bytes just received are ever read.
\<close>

section \<open>Results that may throw or wait\<close>

type_synonym 'a io = "'a result option"

definition ret :: "'a \<Rightarrow> 'a io" where
  "ret x = Some (Inr x)"

definition throw :: "exn \<Rightarrow> 'a io" where
  "throw e = Some (Inl e)"

definition bindI :: "'a io \<Rightarrow> ('a \<Rightarrow> 'b io) \<Rightarrow> 'b io" where
  "bindI m f = (case m of None \<Rightarrow> None | Some (Inl e) \<Rightarrow> Some (Inl e) | Some (Inr x) \<Rightarrow> f x)"

lemma bindI_simps [simp]: "bindI None f = None" "bindI (Some (Inl e)) f = Some (Inl e)" "bindI (Some (Inr x)) f = f x"
  "bindI (ret x) f = f x" "bindI (throw e) f = throw e"
  by (simp_all add: bindI_def ret_def throw_def)

lemma ret_inject [simp]: "ret x = ret y \<longleftrightarrow> x = y"
  by (simp add: ret_def)

section \<open>State\<close>

record RelayStats =
  rs_tun_to_udp_packets :: u64
  rs_tun_to_udp_bytes :: u64
  rs_udp_to_tun_packets :: u64
  rs_udp_to_tun_bytes :: u64
  rs_dropped_no_peer :: u64
  rs_dropped_no_session :: u64
  rs_dropped_send_failed :: u64
  rs_dropped_oversize :: u64
  rs_dropped_malformed :: u64
  rs_dropped_replay :: u64
  rs_dropped_auth_failed :: u64
  rs_dropped_counter_exhausted :: u64
  rs_keepalives_received :: u64
  rs_endpoint_updates :: u64
  rs_handshakes_started :: u64
  rs_handshakes_completed :: u64
  rs_handshakes_rejected :: u64

definition RelayStats_init :: RelayStats where
  "RelayStats_init = \<lparr>rs_tun_to_udp_packets = 0, rs_tun_to_udp_bytes = 0, rs_udp_to_tun_packets = 0,
     rs_udp_to_tun_bytes = 0, rs_dropped_no_peer = 0, rs_dropped_no_session = 0, rs_dropped_send_failed = 0,
     rs_dropped_oversize = 0, rs_dropped_malformed = 0, rs_dropped_replay = 0, rs_dropped_auth_failed = 0,
     rs_dropped_counter_exhausted = 0, rs_keepalives_received = 0, rs_endpoint_updates = 0,
     rs_handshakes_started = 0, rs_handshakes_completed = 0, rs_handshakes_rejected = 0\<rparr>"

datatype Role = Initiator | Responder

record RelayConfig =
  rc_mtu :: int
  rc_role :: Role
  rc_peer :: "sockaddr_in option"
  rc_identity :: "Identity option"

record relay =
  rl_tun_name :: string
  rl_mtu :: nat
  rl_role :: Role
  rl_peer :: "sockaddr_in option"
  rl_identity :: Identity
  rl_stats :: RelayStats
  rl_session :: Session
  rl_pending :: "Handshake option"
  rl_guard :: TimestampGuard
  rl_last_initiation_ns :: u64
  rl_tun_buffer :: bytes
  rl_handshake_buffer :: bytes

datatype relay_out =
    Udp_send bytes sockaddr_in bool
  | Tun_write bytes
  | Log_established sockaddr_in
  | Log_roamed sockaddr_in
  | Log_signal nat

record step_env =
  se_rnd_index :: bytes
  se_rnd_key :: bytes
  se_clock :: timespec
  se_mono :: timespec
  se_send :: "bytes \<Rightarrow> nat syscall list"
  se_write :: "bytes \<Rightarrow> nat syscall list"

definition bump :: "(RelayStats \<Rightarrow> RelayStats) \<Rightarrow> relay \<Rightarrow> relay" where
  "bump f st = st\<lparr>rl_stats := f (rl_stats st)\<rparr>"

abbreviation inc :: "u64 \<Rightarrow> u64" where
  "inc n \<equiv> n + 1"

section \<open>Helpers\<close>

definition kHandshakeRetryNs :: u64 where "kHandshakeRetryNs = 1000000000"

definition monotonic_ns :: "timespec \<Rightarrow> u64" where
  "monotonic_ns now = word_of_int (tv_sec now) * 1000000000 + word_of_int (tv_nsec now)"

definition make_signalfd :: "unit syscall \<Rightarrow> int syscall \<Rightarrow> int result" where
  "make_signalfd sigprocmask signalfd =
     (case sigprocmask of
        Sys_err e \<Rightarrow> Inl (System_error e ''sigprocmask'')
      | Sys_ok _ \<Rightarrow>
          (case signalfd of
             Sys_err e \<Rightarrow> Inl (System_error e ''signalfd'')
           | Sys_ok fd \<Rightarrow> Inr fd))"

definition epoll_add :: "unit syscall \<Rightarrow> unit result" where
  "epoll_add epoll_ctl =
     (case epoll_ctl of
        Sys_err e \<Rightarrow> Inl (System_error e ''epoll_ctl(EPOLL_CTL_ADD)'')
      | Sys_ok _ \<Rightarrow> Inr ())"

definition socket_send :: "bytes \<Rightarrow> nat syscall list \<Rightarrow> bool io" where
  "socket_send packet answers = map_option fst (send_to packet answers)"

definition device_write :: "string \<Rightarrow> bytes \<Rightarrow> nat syscall list \<Rightarrow> unit io" where
  "device_write name packet answers = map_option fst (write_packet name packet answers)"

section \<open>Starting a handshake\<close>

definition start_handshake :: "'s crypto_lib \<Rightarrow> step_env \<Rightarrow> relay \<Rightarrow> (relay \<times> relay_out list) io" where
  "start_handshake L env st =
     (case (rl_role st, rl_peer st) of
        (Initiator, Some peer) \<Rightarrow>
          let now = monotonic_ns (se_mono env)
          in if rl_last_initiation_ns st \<noteq> 0 \<and> now - rl_last_initiation_ns st < kHandshakeRetryNs then ret (st, [])
             else
               let st = st\<lparr>rl_last_initiation_ns := now\<rparr>
               in bindI (Some (write_initiation L (se_rnd_index env) (se_rnd_key env) (se_clock env)
                           (Handshake_init (rl_identity st)) (rl_handshake_buffer st)))
                    (\<lambda>(hs, buffer, message).
                       let st = st\<lparr>rl_handshake_buffer := buffer\<rparr>
                       in (case message of
                             None \<Rightarrow> ret (st\<lparr>rl_pending := None\<rparr>, [])
                           | Some m \<Rightarrow>
                               let st = st\<lparr>rl_pending := Some hs\<rparr>
                               in bindI (socket_send m (se_send env m)) (\<lambda>sent.
                                    ret (bump (if sent then rs_handshakes_started_update inc
                                               else rs_dropped_send_failed_update inc) st,
                                         [Udp_send m peer sent]))))
      | _ \<Rightarrow> ret (st, []))"

section \<open>A packet from the TUN device\<close>

text \<open>The packet was read into the payload slot of the send buffer.\<close>

definition on_tun_packet :: "'s crypto_lib \<Rightarrow> step_env \<Rightarrow> relay \<Rightarrow> bytes \<Rightarrow> (relay \<times> relay_out list) io" where
  "on_tun_packet L env st packet =
     (let st = st\<lparr>rl_tun_buffer := blit kTransportHeaderSize packet (rl_tun_buffer st)\<rparr>
      in (case rl_peer st of
            None \<Rightarrow> ret (bump (rs_dropped_no_peer_update inc) st, [])
          | Some peer \<Rightarrow>
              if \<not> s_active (rl_session st)
              then start_handshake L env (bump (rs_dropped_no_session_update inc) st)
              else
                bindI (Some (session_seal L (rl_session st) (rl_tun_buffer st) (of_nat (length packet))))
                  (\<lambda>(s, buffer, datagram).
                     let st = st\<lparr>rl_session := s, rl_tun_buffer := buffer\<rparr>
                     in (case datagram of
                           None \<Rightarrow> ret (bump (rs_dropped_counter_exhausted_update inc) st, [])
                         | Some d \<Rightarrow>
                             bindI (socket_send d (se_send env d)) (\<lambda>sent.
                               ret (if sent
                                    then bump (rs_tun_to_udp_packets_update inc \<circ>
                                               rs_tun_to_udp_bytes_update (\<lambda>n. n + of_nat (length d))) st
                                    else bump (rs_dropped_send_failed_update inc) st,
                                    [Udp_send d peer sent]))))))"

section \<open>A datagram from the socket\<close>

text \<open>The source address becomes the peer.\<close>

definition update_endpoint :: "sockaddr_in \<Rightarrow> relay \<Rightarrow> relay \<times> bool" where
  "update_endpoint from st =
     (case rl_peer st of
        Some peer \<Rightarrow>
          if same_endpoint peer from then (st, False)
          else (bump (rs_endpoint_updates_update inc) (st\<lparr>rl_peer := Some from\<rparr>), True)
      | None \<Rightarrow> (bump (rs_endpoint_updates_update inc) (st\<lparr>rl_peer := Some from\<rparr>), True))"

definition on_initiation ::
  "'s crypto_lib \<Rightarrow> step_env \<Rightarrow> relay \<Rightarrow> bytes \<Rightarrow> sockaddr_in \<Rightarrow> (relay \<times> relay_out list) io" where
  "on_initiation L env st datagram from =
     (if rl_role st \<noteq> Responder then ret (bump (rs_dropped_malformed_update inc) st, [])
      else
        bindI (Some (read_initiation L (Handshake_init (rl_identity st)) (rl_guard st) datagram)) (\<lambda>(hs, g, ok).
        let st = st\<lparr>rl_guard := g\<rparr>
        in if \<not> ok then ret (bump (rs_handshakes_rejected_update inc) st, [])
           else
             bindI (Some (write_response L (se_rnd_index env) (se_rnd_key env) hs (rl_handshake_buffer st)
                         (s_keys (rl_session st)))) (\<lambda>(hs, buffer, keys, response).
             let st = st\<lparr>rl_handshake_buffer := buffer, rl_session := (rl_session st)\<lparr>s_keys := keys\<rparr>\<rparr>
             in (case response of
                   None \<Rightarrow> ret (bump (rs_handshakes_rejected_update inc) st, [])
                 | Some m \<Rightarrow>
                     let st = st\<lparr>rl_session := activate (rl_session st)\<rparr>;
                         st = fst (update_endpoint from st)
                     in bindI (socket_send m (se_send env m)) (\<lambda>sent.
                          ret (if sent
                               then (bump (rs_handshakes_completed_update inc) st,
                                     [Udp_send m from sent, Log_established from])
                               else (bump (rs_dropped_send_failed_update inc) st, [Udp_send m from sent])))))))"

definition on_response ::
  "'s crypto_lib \<Rightarrow> relay \<Rightarrow> bytes \<Rightarrow> sockaddr_in \<Rightarrow> (relay \<times> relay_out list) io" where
  "on_response L st datagram from =
     (case (rl_role st, rl_pending st) of
        (Initiator, Some pending) \<Rightarrow>
          bindI (Some (read_response L pending datagram (s_keys (rl_session st)))) (\<lambda>(hs, keys, ok).
          let st = st\<lparr>rl_pending := Some hs, rl_session := (rl_session st)\<lparr>s_keys := keys\<rparr>\<rparr>
          in if \<not> ok then ret (bump (rs_handshakes_rejected_update inc) st, [])
             else ret (bump (rs_handshakes_completed_update inc)
                         (st\<lparr>rl_session := activate (rl_session st), rl_pending := None\<rparr>),
                       [Log_established from]))
      | _ \<Rightarrow> ret (bump (rs_dropped_malformed_update inc) st, []))"

definition on_transport ::
  "'s crypto_lib \<Rightarrow> step_env \<Rightarrow> relay \<Rightarrow> TransportData \<Rightarrow> bytes \<Rightarrow> sockaddr_in \<Rightarrow> (relay \<times> relay_out list) io" where
  "on_transport L env st data datagram from =
     (if \<not> s_active (rl_session st) then ret (bump (rs_dropped_no_session_update inc) st, [])
      else if td_receiver_index data \<noteq> tk_local_index (s_keys (rl_session st))
        then ret (bump (rs_dropped_malformed_update inc) st, [])
      else if \<not> replay_acceptable (rl_session st) (td_counter data)
        then ret (bump (rs_dropped_replay_update inc) st, [])
      else
        bindI (map_option Inr (session_open L (rl_session st) (td_counter data) (drop kTransportHeaderSize datagram)))
          (\<lambda>(s, plaintext).
             let st = st\<lparr>rl_session := s\<rparr>
             in (case plaintext of
                   None \<Rightarrow> ret (bump (rs_dropped_auth_failed_update inc) st, [])
                 | Some p \<Rightarrow>
                     let (st, roamed) = (if rl_role st = Responder then update_endpoint from st else (st, False));
                         logs = (if roamed then [Log_roamed from] else [])
                     in if p = [] then ret (bump (rs_keepalives_received_update inc) st, logs)
                        else
                          bindI (device_write (rl_tun_name st) p (se_write env p)) (\<lambda>_.
                            ret (bump (rs_udp_to_tun_packets_update inc \<circ>
                                       rs_udp_to_tun_bytes_update (\<lambda>n. n + of_nat (length p))) st,
                                 logs @ [Tun_write p])))))"

definition on_datagram ::
  "'s crypto_lib \<Rightarrow> step_env \<Rightarrow> relay \<Rightarrow> bytes \<Rightarrow> sockaddr_in \<Rightarrow> (relay \<times> relay_out list) io" where
  "on_datagram L env st datagram from =
     (if of_nat (length datagram) > max_datagram (of_nat (rl_mtu st))
      then ret (bump (rs_dropped_oversize_update inc) st, [])
      else
        (case decode datagram of
           None \<Rightarrow> ret (bump (rs_dropped_malformed_update inc) st, [])
         | Some (Msg_Initiation _) \<Rightarrow> on_initiation L env st datagram from
         | Some (Msg_Response _) \<Rightarrow> on_response L st datagram from
         | Some (Msg_Cookie _) \<Rightarrow> ret (bump (rs_dropped_malformed_update inc) st, [])
         | Some (Msg_Transport data) \<Rightarrow> on_transport L env st data datagram from))"

section \<open>The loops\<close>

text \<open>
  One round of the read loop per element: the answers to the read and the environment of the step.
\<close>

fun tun_drain ::
  "'s crypto_lib \<Rightarrow> relay \<Rightarrow> (bytes syscall list \<times> step_env) list \<Rightarrow> (relay \<times> relay_out list) io" where
  "tun_drain L st [] = None"
| "tun_drain L st ((reads, env) # rounds) =
     bindI (map_option fst (read_packet (rl_tun_name st) (rl_mtu st) reads)) (\<lambda>packet.
     case packet of
       None \<Rightarrow> ret (st, [])
     | Some p \<Rightarrow>
         bindI (on_tun_packet L env st p) (\<lambda>(st, out1).
         bindI (tun_drain L st rounds) (\<lambda>(st, out2). ret (st, out1 @ out2))))"

fun udp_drain ::
  "'s crypto_lib \<Rightarrow> relay \<Rightarrow> ((bytes \<times> sockaddr_in) syscall list \<times> step_env) list \<Rightarrow> (relay \<times> relay_out list) io" where
  "udp_drain L st [] = None"
| "udp_drain L st ((recvs, env) # rounds) =
     bindI (map_option fst (recv_from (unat (max_datagram (of_nat (rl_mtu st)) + 1)) recvs)) (\<lambda>received.
     case received of
       None \<Rightarrow> ret (st, [])
     | Some (datagram, from) \<Rightarrow>
         bindI (on_datagram L env st datagram from) (\<lambda>(st, out1).
         bindI (udp_drain L st rounds) (\<lambda>(st, out2). ret (st, out1 @ out2))))"

text \<open>
  A ready descriptor: the device, the socket, the signal descriptor (with the signal number if a
  whole record could be read), or none of them.
\<close>

datatype ready =
    Tun_ready "(bytes syscall list \<times> step_env) list"
  | Udp_ready "((bytes \<times> sockaddr_in) syscall list \<times> step_env) list"
  | Signal_ready "nat option"
  | Other_ready

text \<open>Whatever is read from the signal descriptor, the loop is left after this round.\<close>

definition on_signal :: "nat option \<Rightarrow> bool \<times> relay_out list" where
  [simp]: "on_signal sig = (False, case sig of None \<Rightarrow> [] | Some n \<Rightarrow> [Log_signal n])"

fun handle_events :: "'s crypto_lib \<Rightarrow> relay \<Rightarrow> bool \<Rightarrow> ready list \<Rightarrow> (relay \<times> bool \<times> relay_out list) io" where
  "handle_events L st running [] = ret (st, running, [])"
| "handle_events L st running (Tun_ready rounds # evs) =
     bindI (tun_drain L st rounds) (\<lambda>(st, out1).
     bindI (handle_events L st running evs) (\<lambda>(st, running, out2). ret (st, running, out1 @ out2)))"
| "handle_events L st running (Udp_ready rounds # evs) =
     bindI (udp_drain L st rounds) (\<lambda>(st, out1).
     bindI (handle_events L st running evs) (\<lambda>(st, running, out2). ret (st, running, out1 @ out2)))"
| "handle_events L st running (Signal_ready sig # evs) =
     bindI (handle_events L st (fst (on_signal sig)) evs) (\<lambda>(st, running, out2).
       ret (st, running, snd (on_signal sig) @ out2))"
| "handle_events L st running (Other_ready # evs) = handle_events L st running evs"

datatype epoll_answer = Epoll_ready "ready list" | Epoll_error int

fun event_loop :: "'s crypto_lib \<Rightarrow> relay \<Rightarrow> epoll_answer list \<Rightarrow> (relay \<times> relay_out list) io" where
  "event_loop L st [] = None"
| "event_loop L st (Epoll_error e # answers) =
     (if e = EINTR then event_loop L st answers else throw (System_error e ''epoll_wait''))"
| "event_loop L st (Epoll_ready evs # answers) =
     bindI (handle_events L st True evs) (\<lambda>(st, running, out1).
     if running then bindI (event_loop L st answers) (\<lambda>(st, out2). ret (st, out1 @ out2))
     else ret (st, out1))"

section \<open>The whole relay\<close>

record relay_setup =
  su_sigprocmask :: "unit syscall"
  su_signalfd :: "int syscall"
  su_epoll_create1 :: "int syscall"
  su_add_tun :: "unit syscall"
  su_add_sock :: "unit syscall"
  su_add_signal :: "unit syscall"

definition relay_init :: "string \<Rightarrow> RelayConfig \<Rightarrow> Identity \<Rightarrow> relay" where
  "relay_init tun_name config identity =
     (let mtu = word_of_int (rc_mtu config) :: size_t;
          plaintext_capacity = padded_length mtu
      in \<lparr>rl_tun_name = tun_name, rl_mtu = unat mtu, rl_role = rc_role config, rl_peer = rc_peer config,
          rl_identity = identity, rl_stats = RelayStats_init, rl_session = Session_init, rl_pending = None,
          rl_guard = TimestampGuard_init, rl_last_initiation_ns = 0,
          rl_tun_buffer = replicate (unat (of_nat kTransportHeaderSize + plaintext_capacity + of_nat kTagSize :: size_t)) 0,
          rl_handshake_buffer = replicate kInitiationSize 0\<rparr>)"

text \<open>What follows the creation of the two descriptors.\<close>

definition relay_loop ::
  "'s crypto_lib \<Rightarrow> relay_setup \<Rightarrow> string \<Rightarrow> RelayConfig \<Rightarrow> Identity \<Rightarrow> epoll_answer list \<Rightarrow> (RelayStats \<times> relay_out list) io" where
  "relay_loop L setup tun_name config identity answers =
     bindI (Some (epoll_add (su_add_tun setup))) (\<lambda>_.
     bindI (Some (epoll_add (su_add_sock setup))) (\<lambda>_.
     bindI (Some (epoll_add (su_add_signal setup))) (\<lambda>_.
     bindI (event_loop L (relay_init tun_name config identity) answers) (\<lambda>(st, out).
       ret (rl_stats st, out)))))"

definition run_relay ::
  "'s crypto_lib \<Rightarrow> relay_setup \<Rightarrow> string \<Rightarrow> RelayConfig \<Rightarrow> epoll_answer list \<Rightarrow> (RelayStats \<times> relay_out list) io" where
  "run_relay L setup tun_name config answers =
     (case rc_identity config of
        None \<Rightarrow> throw (Logic_error ''run_relay needs an identity; the tunnel is not optional'')
      | Some identity \<Rightarrow>
          bindI (Some (make_signalfd (su_sigprocmask setup) (su_signalfd setup))) (\<lambda>signal_fd.
          case su_epoll_create1 setup of
            Sys_err e \<Rightarrow> throw (System_error e ''epoll_create1'')
          | Sys_ok epoll_fd \<Rightarrow> relay_loop L setup tun_name config identity answers))"

definition print_stats :: "RelayStats \<Rightarrow> string" where
  "print_stats s =
     (let n = (\<lambda>x :: u64. to_string (unat x)); nl = [CHR 0x0A]
      in ''tun->udp '' @ n (rs_tun_to_udp_packets s) @ '' packets / '' @ n (rs_tun_to_udp_bytes s) @ '' bytes'' @ nl @
         ''udp->tun '' @ n (rs_udp_to_tun_packets s) @ '' packets / '' @ n (rs_udp_to_tun_bytes s) @ '' bytes'' @ nl @
         ''handshakes: '' @ n (rs_handshakes_started s) @ '' started, '' @ n (rs_handshakes_completed s) @
           '' completed, '' @ n (rs_handshakes_rejected s) @ '' rejected'' @ nl @
         ''dropped: '' @ n (rs_dropped_no_peer s) @ '' no-peer, '' @ n (rs_dropped_no_session s) @ '' no-session, '' @
           n (rs_dropped_send_failed s) @ '' send-failed, '' @ n (rs_dropped_oversize s) @ '' oversize'' @ nl @
         ''dropped: '' @ n (rs_dropped_malformed s) @ '' malformed, '' @ n (rs_dropped_replay s) @ '' replayed, '' @
           n (rs_dropped_auth_failed s) @ '' failed-auth, '' @ n (rs_dropped_counter_exhausted s) @
           '' counter-exhausted'' @ nl @
         ''keepalives received: '' @ n (rs_keepalives_received s) @ nl @
         ''endpoint updates: '' @ n (rs_endpoint_updates s) @ nl)"

end
