(* ===== verification/Relay_Steps.thy ===== *)
theory Relay_Steps
  imports Relay
begin

text \<open>
  One step of the relay. \<open>relay_ok\<close> is the invariant of the relay's state, with the counters the
  session has accepted as a ghost argument, and \<open>env_ok\<close> says that the outside world of a step works.
  The lemmas describe a step for every packet and datagram: it returns and keeps the invariant, a
  datagram that is not \<open>genuine\<close> is ignored, every datagram is counted once (\<open>effect\<close>), and a packet of
  the device is sealed once.
\<close>

section \<open>The handshake operations, as the relay uses them\<close>

lemma read_initiation_step:
  assumes "crypto_ok L" and "aead_authentic L" and "wf_Identity L I" and "wf_guard g"
  shows "\<exists>hs g' ok. read_initiation L (Handshake_init I) g d = Inr (hs, g', ok) \<and>
    wf_Handshake L hs \<and> hs_identity hs = I \<and> wf_guard g' \<and>
    (ok \<longleftrightarrow> (\<exists>i E es ss T mac2. valid_initiation L I d i E es ss T mac2 \<and> snd (guard_accept g T))) \<and>
    (\<not> ok \<longrightarrow> g' = g)"
proof -
  note wf = wf_Handshake_init [OF assms(3)]
  have i: "hs_identity (Handshake_init I) = I" by (simp add: Handshake_init_def)
  show ?thesis
  proof (cases "\<exists>i E es ss T mac2. valid_initiation L I d i E es ss T mac2 \<and> snd (guard_accept g T)")
    case True
    then obtain i E es ss T mac2 where v: "valid_initiation L I d i E es ss T mac2" "snd (guard_accept g T)" by blast
    have "length E = 32" "length T = 12" using v(1) by (simp_all add: valid_initiation_def)
    moreover from this have "wf_guard (fst (guard_accept g T))"
      using assms(4) by (auto simp: wf_guard_def guard_accept_def)
    ultimately show ?thesis
      using True read_initiation_accepts [OF assms(1) wf i [symmetric] v] wf i crypto_okD [OF assms(1)]
      by (simp add: wf_Handshake_def ex_bool_eq)
  next
    case False
    then have "read_initiation L (Handshake_init I) g d = Inr (Handshake_init I, g, False)"
      by (blast intro: read_initiation_rejects [OF assms(1,2) wf i [symmetric]])
    with False wf i assms(4) show ?thesis by (simp add: ex_bool_eq)
  qed
qed

lemma write_response_step:
  assumes "crypto_ok L" and "wf_Handshake L hs" and "length rk = 32"
  shows "\<exists>hs' out' keys' v. write_response L ri rk hs out keys = Inr (hs', out', keys', v) \<and>
    length out' = length out \<and> (v = None \<longrightarrow> keys' = keys) \<and> (\<forall>m. v = Some m \<longrightarrow> length m = 92)"
proof (cases "length out < 92 \<or> dh L (clamp rk) (hs_peer_ephemeral hs) = None \<or>
         dh L (clamp rk) (id_peer_public (hs_identity hs)) = None")
  case True
  then show ?thesis using write_response_fails [OF assms refl True, of ri keys] by auto
next
  case False
  then obtain ee se where d: "dh L (clamp rk) (hs_peer_ephemeral hs) = Some ee"
      "dh L (clamp rk) (id_peer_public (hs_identity hs)) = Some se" "92 \<le> length out"
    by auto
  let ?m = "wp_response L (random_index ri) (hs_peer_index hs) (id_peer_public (hs_identity hs)) (hs_chaining_key hs)
    (hs_hash hs) (snd (scalarmult_base L (clamp rk))) ee se (replicate 16 0)"
  have "length (response_layout ?m) = 92"
    using wf_wp_response [OF assms(1)] crypto_okD [OF assms(1)] assms(3) by (subst length_response_layout) auto
  with write_response_value [OF assms d(3) refl refl refl refl refl d(1,2) refl, of ri keys] d(3)
  show ?thesis by auto
qed

lemma write_initiation_step:
  assumes "crypto_ok L" and "wf_Handshake L hs" and "length rk = 32"
  shows "\<exists>hs' out' v. write_initiation L ri rk now hs out = Inr (hs', out', v) \<and>
    wf_Handshake L hs' \<and> hs_identity hs' = hs_identity hs \<and> length out' = length out \<and>
    (\<forall>m. v = Some m \<longrightarrow> length m = 148)"
proof (cases "length out < 148 \<or> dh L (clamp rk) (id_peer_public (hs_identity hs)) = None \<or>
         dh L (id_private_key (hs_identity hs)) (id_peer_public (hs_identity hs)) = None")
  case True
  then show ?thesis using write_initiation_fails [OF assms refl True, of ri now] assms(2) by auto
next
  case False
  then obtain es ss where d: "dh L (clamp rk) (id_peer_public (hs_identity hs)) = Some es"
      "dh L (id_private_key (hs_identity hs)) (id_peer_public (hs_identity hs)) = Some ss" "148 \<le> length out"
    by auto
  note ok = crypto_okD [OF assms(1)]
  let ?m = "wp_initiation L (random_index ri) (id_peer_public (hs_identity hs)) (snd (scalarmult_base L (clamp rk))) es ss
     (id_public_key (hs_identity hs)) (timestamp now) (replicate 16 0)"
  have "length (initiation_layout ?m) = 148"
    using wf_wp_initiation [OF assms(1)] ok assms(3) wf_HandshakeD [OF assms(2) refl]
    by (subst length_initiation_layout) auto
  with write_initiation_value [OF assms d(3) refl refl refl d(1,2) refl, of ri now] d(3) ok assms(2,3)
  show ?thesis by (auto simp: wf_Handshake_def)
qed

lemma read_response_step:
  assumes "crypto_ok L" and "aead_authentic L" and "wf_Handshake L hs"
  shows "\<exists>hs' keys' ok. read_response L hs d keys = Inr (hs', keys', ok) \<and>
    (ok \<longleftrightarrow> (\<exists>i E ee se mac2. valid_response L hs d i E ee se mac2)) \<and>
    (\<not> ok \<longrightarrow> hs' = hs \<and> keys' = keys)"
proof (cases "\<exists>i E ee se mac2. valid_response L hs d i E ee se mac2")
  case True
  then obtain i E ee se mac2 where v: "valid_response L hs d i E ee se mac2" by blast
  with True read_response_accepts [OF assms(1,3) v refl, of keys] show ?thesis by (simp add: ex_bool_eq)
next
  case False
  then have "read_response L hs d keys = Inr (hs, keys, False)" by (blast intro: read_response_rejects [OF assms])
  with False show ?thesis by (simp add: ex_bool_eq)
qed

section \<open>Invariant\<close>

text \<open>
  \<open>hist\<close> is the set of counters received on the current session. The buffers have the sizes the
  code gives them.
\<close>

definition relay_ok :: "'s crypto_lib \<Rightarrow> relay \<Rightarrow> u64 set \<Rightarrow> bool" where
  "relay_ok L st hist \<longleftrightarrow>
     wf_Identity L (rl_identity st) \<and> wf_guard (rl_guard st) \<and>
     (\<forall>hs. rl_pending st = Some hs \<longrightarrow> wf_Handshake L hs \<and> hs_identity hs = rl_identity st) \<and>
     window_tracks (s_window (rl_session st)) hist \<and>
     s_send_counter (rl_session st) \<le> kRejectAfterMessages \<and>
     rl_mtu st \<le> 1500 \<and> length (rl_tun_buffer st) = sealed_size (rl_mtu st) \<and>
     length (rl_handshake_buffer st) = 148"

definition env_ok :: "step_env \<Rightarrow> bool" where
  "env_ok env \<longleftrightarrow> length (se_rnd_key env) = 32 \<and>
     (\<forall>m. \<exists>b. socket_send m (se_send env m) = ret b) \<and>
     (\<forall>name p. device_write name p (se_write env p) = ret ())"

lemma relay_ok_bump [simp]: "relay_ok L (bump f st) hist = relay_ok L st hist"
  by (simp add: relay_ok_def bump_def)

lemma bump_simps [simp]:
  "rl_peer (bump f st) = rl_peer st" "rl_role (bump f st) = rl_role st" "rl_session (bump f st) = rl_session st"
  "rl_pending (bump f st) = rl_pending st" "rl_identity (bump f st) = rl_identity st"
  "rl_stats (bump f st) = f (rl_stats st)" "rl_mtu (bump f st) = rl_mtu st" "rl_guard (bump f st) = rl_guard st"
  "rl_last_initiation_ns (bump f st) = rl_last_initiation_ns st" "rl_tun_buffer (bump f st) = rl_tun_buffer st"
  "rl_handshake_buffer (bump f st) = rl_handshake_buffer st" "rl_tun_name (bump f st) = rl_tun_name st"
  by (simp_all add: bump_def)

lemma activate_simps [simp]:
  "s_keys (activate s) = s_keys s" "s_window (activate s) = ReplayWindow_init" "s_send_counter (activate s) = 0"
  "s_active (activate s)"
  by (simp_all add: activate_def)

text \<open>Everything but the statistics.\<close>

definition same_but_stats :: "relay \<Rightarrow> relay \<Rightarrow> bool" where
  "same_but_stats st st' \<longleftrightarrow> st'\<lparr>rl_stats := rl_stats st\<rparr> = st"

lemma same_but_stats_bump [simp]: "same_but_stats st (bump f st)"
  by (simp add: same_but_stats_def bump_def)

lemma update_endpoint_simps [simp]:
  "rl_role (fst (update_endpoint from st)) = rl_role st" "rl_session (fst (update_endpoint from st)) = rl_session st"
  "relay_ok L (fst (update_endpoint from st)) hist = relay_ok L st hist"
  "rl_tun_name (fst (update_endpoint from st)) = rl_tun_name st"
  by (auto simp: update_endpoint_def relay_ok_def bump_def split: option.split)

section \<open>Which datagrams have an effect\<close>

definition genuine_initiation :: "'s crypto_lib \<Rightarrow> relay \<Rightarrow> bytes \<Rightarrow> bool" where
  "genuine_initiation L st d \<longleftrightarrow>
     rl_role st = Responder \<and>
     (\<exists>i E es ss T mac2. valid_initiation L (rl_identity st) d i E es ss T mac2 \<and> snd (guard_accept (rl_guard st) T))"

definition genuine_response :: "'s crypto_lib \<Rightarrow> relay \<Rightarrow> bytes \<Rightarrow> bool" where
  "genuine_response L st d \<longleftrightarrow>
     rl_role st = Initiator \<and>
     (\<exists>hs. rl_pending st = Some hs \<and> (\<exists>i E ee se mac2. valid_response L hs d i E ee se mac2))"

definition genuine_data :: "'s crypto_lib \<Rightarrow> relay \<Rightarrow> u64 set \<Rightarrow> bytes \<Rightarrow> bool" where
  "genuine_data L st hist d \<longleftrightarrow>
     (\<exists>t. decode d = Some (Msg_Transport t) \<and> td_receiver_index t = tk_local_index (s_keys (rl_session st)) \<and>
        fresh hist (td_counter t) \<and> (\<exists>P. authentic L (rl_session st) (td_counter t) (td_sealed t) P))"

definition genuine :: "'s crypto_lib \<Rightarrow> relay \<Rightarrow> u64 set \<Rightarrow> bytes \<Rightarrow> bool" where
  "genuine L st hist d \<longleftrightarrow> genuine_initiation L st d \<or> genuine_response L st d \<or> genuine_data L st hist d"

definition ignored :: "relay \<Rightarrow> (relay \<times> relay_out list) io \<Rightarrow> bool" where
  "ignored st r \<longleftrightarrow> (\<exists>st'. r = ret (st', []) \<and> same_but_stats st st')"

lemma same_but_stats_ok: "same_but_stats st st' \<Longrightarrow> relay_ok L st hist \<Longrightarrow> relay_ok L st' hist"
  by (metis relay_ok_bump bump_def same_but_stats_def)

lemma ignored_bump [simp]: "ignored st (ret (bump f st, []))"
  by (auto simp: ignored_def)

lemma on_initiation_ignored:
  assumes "crypto_ok L" and "aead_authentic L" and "relay_ok L st hist" and "\<not> genuine_initiation L st d"
  shows "ignored st (on_initiation L env st d from)"
proof (cases "rl_role st = Responder")
  case True
  have w: "wf_Identity L (rl_identity st)" "wf_guard (rl_guard st)" using assms(3) by (simp_all add: relay_ok_def)
  from read_initiation_step [OF assms(1,2) w, of d] True assms(4)
  obtain hs where "read_initiation L (Handshake_init (rl_identity st)) (rl_guard st) d = Inr (hs, rl_guard st, False)"
    by (auto simp: genuine_initiation_def)
  with True show ?thesis by (simp add: on_initiation_def)
qed (simp add: on_initiation_def)

lemma on_response_ignored:
  assumes "crypto_ok L" and "aead_authentic L" and "relay_ok L st hist" and "\<not> genuine_response L st d"
  shows "ignored st (on_response L st d from)"
proof (cases "rl_role st = Initiator \<and> (\<exists>hs. rl_pending st = Some hs)")
  case True
  then obtain hs where hs: "rl_role st = Initiator" "rl_pending st = Some hs" by blast
  with assms(3) have "wf_Handshake L hs" by (simp add: relay_ok_def)
  from read_response_step [OF assms(1,2) this, of d "s_keys (rl_session st)"] assms(4) hs
  have "read_response L hs d (s_keys (rl_session st)) = Inr (hs, s_keys (rl_session st), False)"
    by (auto simp: genuine_response_def)
  with hs have "on_response L st d from = ret (bump (rs_handshakes_rejected_update inc) st, [])"
    by (simp add: on_response_def)
  then show ?thesis by simp
next
  case False
  then show ?thesis by (cases "rl_role st"; cases "rl_pending st") (auto simp: on_response_def)
qed

lemma decode_transport_sealed: "decode d = Some (Msg_Transport t) \<Longrightarrow> td_sealed t = drop 16 d"
  using transport_layout_decode by (fastforce simp: transport_layout_def)

lemma on_transport_ignored:
  assumes "crypto_ok L" and "aead_authentic L" and "relay_ok L st hist" and "\<not> genuine_data L st hist d"
    and "decode d = Some (Msg_Transport t)"
  shows "ignored st (on_transport L env st t d from)"
proof -
  have w: "window_tracks (s_window (rl_session st)) hist" using assms(3) by (simp add: relay_ok_def)
  show ?thesis
  proof (cases "s_active (rl_session st) \<and> td_receiver_index t = tk_local_index (s_keys (rl_session st)) \<and> fresh hist (td_counter t)")
    case True
    with assms(4,5) have "\<not> (fresh hist (td_counter t) \<and> (\<exists>P. authentic L (rl_session st) (td_counter t) (td_sealed t) P))"
      by (auto simp: genuine_data_def)
    from session_open_rejects [OF crypto_okD(3) [OF assms(1)] assms(2) w this]
    have "session_open L (rl_session st) (td_counter t) (drop 16 d) = Some (rl_session st, None)"
      by (simp add: decode_transport_sealed [OF assms(5)])
    then show ?thesis by (simp add: on_transport_def Let_def)
  next
    case False
    then show ?thesis using window.tracks_ok [OF w, of "td_counter t"]
      by (auto simp: on_transport_def replay_acceptable_def)
  qed
qed

lemma valid_initiation_decode:
  assumes "crypto_ok L" and "wf_Identity L I" and "valid_initiation L I d i E es ss T mac2"
  shows "\<exists>m. decode d = Some (Msg_Initiation m)"
  using assms by (auto simp: valid_initiation_def wf_Identity_def intro!: decode_initiation_layout wf_wp_initiation)

lemma valid_response_decode:
  assumes "crypto_ok L" and "valid_response L hs d i E ee se mac2"
  shows "\<exists>m. decode d = Some (Msg_Response m)"
  using assms by (auto simp: valid_response_def intro!: decode_response_layout wf_wp_response)

lemma on_datagram_ignored:
  assumes "crypto_ok L" and "aead_authentic L" and "relay_ok L st hist" and "\<not> genuine L st hist d"
  shows "ignored st (on_datagram L env st d from)"
  using assms on_initiation_ignored [OF assms(1-3)] on_response_ignored [OF assms(1-3)] on_transport_ignored [OF assms(1-3)]
  by (auto simp: on_datagram_def genuine_def split: option.split message.split)

section \<open>Every datagram is processed\<close>

lemma on_initiation_returns:
  assumes "crypto_ok L" and "aead_authentic L" and "relay_ok L st hist" and "env_ok env"
  shows "\<exists>st' out. on_initiation L env st d from = ret (st', out) \<and> (relay_ok L st' hist \<or> relay_ok L st' {})"
proof (cases "rl_role st = Responder")
  case True
  have w: "wf_Identity L (rl_identity st)" "wf_guard (rl_guard st)" using assms(3) by (simp_all add: relay_ok_def)
  obtain hs g ok where r: "read_initiation L (Handshake_init (rl_identity st)) (rl_guard st) d = Inr (hs, g, ok)"
      "wf_Handshake L hs" "wf_guard g"
    using read_initiation_step [OF assms(1,2) w, of d] by blast
  have k: "length (se_rnd_key env) = 32" using assms(4) by (simp add: env_ok_def)
  obtain hs' out' keys' v where v: "write_response L (se_rnd_index env) (se_rnd_key env) hs (rl_handshake_buffer st)
      (s_keys (rl_session st)) = Inr (hs', out', keys', v)" "length out' = length (rl_handshake_buffer st)"
    using write_response_step [OF assms(1) r(2) k] by blast
  have s: "\<exists>b. socket_send m (se_send env m) = ret b" for m using assms(4) by (simp add: env_ok_def)
  have i: "relay_ok L (st\<lparr>rl_guard := g\<rparr>) hist"
    "relay_ok L (st\<lparr>rl_guard := g, rl_handshake_buffer := out', rl_session := (rl_session st)\<lparr>s_keys := keys'\<rparr>\<rparr>) hist"
    "relay_ok L (st\<lparr>rl_guard := g, rl_handshake_buffer := out', rl_session := activate ((rl_session st)\<lparr>s_keys := keys'\<rparr>)\<rparr>) {}"
    using assms(3) r(3) v(2) window.tracks_start by (auto simp: relay_ok_def)
  show ?thesis
  proof (cases v)
    case None
    with True r(1) v(1) i show ?thesis by (cases ok) (auto simp: on_initiation_def)
  next
    case (Some m)
    with True r(1) v(1) i s [of m] show ?thesis by (cases ok) (auto simp: on_initiation_def Let_def)
  qed
qed (use assms(3) in \<open>auto simp: on_initiation_def\<close>)

lemma on_response_returns:
  assumes "crypto_ok L" and "aead_authentic L" and "relay_ok L st hist"
  shows "\<exists>st' out. on_response L st d from = ret (st', out) \<and> (relay_ok L st' hist \<or> relay_ok L st' {})"
proof (cases "genuine_response L st d")
  case False
  from on_response_ignored [OF assms False] obtain st' where "on_response L st d from = ret (st', [])" "same_but_stats st st'"
    by (auto simp: ignored_def)
  moreover from this(2) have "relay_ok L st' hist"
    using assms(3) by (rule same_but_stats_ok)
  ultimately show ?thesis by blast
next
  case True
  then obtain hs where hs: "rl_role st = Initiator" "rl_pending st = Some hs" by (auto simp: genuine_response_def)
  with assms(3) have "wf_Handshake L hs" by (simp add: relay_ok_def)
  from read_response_step [OF assms(1,2) this, of d "s_keys (rl_session st)"] True hs
  obtain hs' keys' where "read_response L hs d (s_keys (rl_session st)) = Inr (hs', keys', True)"
    by (auto simp: genuine_response_def)
  with hs assms(3) window.tracks_start show ?thesis
    by (auto simp: on_response_def relay_ok_def)
qed

lemma session_open_step:
  assumes "aead_ok L" and "aead_authentic L" and "window_tracks (s_window s) hist"
  shows "\<exists>w r hist'. session_open L s c x = Some (s\<lparr>s_window := w\<rparr>, r) \<and> window_tracks w hist'"
proof (cases "fresh hist c \<and> (\<exists>P. authentic L s c x P)")
  case True
  then show ?thesis using session_open_authentic [OF assms(1,3)] by blast
next
  case False
  from session_open_rejects [OF assms False] assms(3) show ?thesis by (intro exI [of _ "s_window s"]) auto
qed

lemma on_transport_returns:
  assumes "crypto_ok L" and "aead_authentic L" and "relay_ok L st hist" and "env_ok env"
  shows "\<exists>st' out hist'. on_transport L env st t d from = ret (st', out) \<and> relay_ok L st' hist'"
proof -
  have "window_tracks (s_window (rl_session st)) hist" using assms(3) by (simp add: relay_ok_def)
  from session_open_step [OF crypto_okD(3) [OF assms(1)] assms(2) this, of "td_counter t" "drop 16 d"]
  obtain w r hist' where o: "session_open L (rl_session st) (td_counter t) (drop 16 d) = Some ((rl_session st)\<lparr>s_window := w\<rparr>, r)"
    "window_tracks w hist'" by blast
  define st1 where "st1 = st\<lparr>rl_session := (rl_session st)\<lparr>s_window := w\<rparr>\<rparr>"
  have i: "relay_ok L st1 hist'" using assms(3) o(2) by (simp add: relay_ok_def st1_def)
  obtain st2 b where st2: "(if rl_role st1 = Responder then update_endpoint from st1 else (st1, False)) = (st2, b)" by fastforce
  with i have i2: "relay_ok L st2 hist'" by (metis update_endpoint_simps(3) fst_conv)
  have dw: "device_write n p (se_write env p) = ret ()" for n p using assms(4) by (simp add: env_ok_def)
  let ?c = "s_active (rl_session st) \<and> td_receiver_index t = tk_local_index (s_keys (rl_session st)) \<and>
    replay_acceptable (rl_session st) (td_counter t)"
  show ?thesis
  proof (cases ?c)
    case False
    with assms(3) show ?thesis by (auto simp: on_transport_def)
  next
    case True
    then have "on_transport L env st t d from =
      (case r of
         None \<Rightarrow> ret (bump (rs_dropped_auth_failed_update inc) st1, [])
       | Some p \<Rightarrow>
           if p = [] then ret (bump (rs_keepalives_received_update inc) st2, if b then [Log_roamed from] else [])
           else ret (bump (rs_udp_to_tun_packets_update inc \<circ> rs_udp_to_tun_bytes_update (\<lambda>n. n + of_nat (length p))) st2,
                 (if b then [Log_roamed from] else []) @ [Tun_write p]))"
      using o(1) st2 by (auto simp: on_transport_def Let_def dw st1_def split: option.split if_splits)
    with i i2 show ?thesis by (auto split: option.split)
  qed
qed

lemma on_datagram_returns:
  assumes "crypto_ok L" and "aead_authentic L" and "relay_ok L st hist" and "env_ok env"
  shows "\<exists>st' out hist'. on_datagram L env st d from = ret (st', out) \<and> relay_ok L st' hist'"
  using on_initiation_returns [OF assms] on_response_returns [OF assms(1-3)] on_transport_returns [OF assms] assms(3)
  by (auto simp: on_datagram_def split: option.split message.split) blast+

section \<open>Accounting and the endpoint\<close>

text \<open>The number of datagrams that were received, as the statistics tell it.\<close>

definition disposed :: "RelayStats \<Rightarrow> u64" where
  "disposed s = rs_dropped_oversize s + rs_dropped_malformed s + rs_handshakes_rejected s +
     rs_handshakes_completed s + rs_dropped_send_failed s + rs_dropped_no_session s + rs_dropped_replay s +
     rs_dropped_auth_failed s + rs_keepalives_received s + rs_udp_to_tun_packets s"

text \<open>Partial correctness: whatever is returned satisfies \<open>P\<close>.\<close>

definition holds :: "('a \<Rightarrow> bool) \<Rightarrow> 'a io \<Rightarrow> bool" where
  "holds P m \<longleftrightarrow> (\<forall>x. m = ret x \<longrightarrow> P x)"

lemma holds_simps [simp]:
  "holds P (ret x) \<longleftrightarrow> P x" "holds P None" "holds P (throw e)" "holds P (bindI m f) \<longleftrightarrow> holds (\<lambda>x. holds P (f x)) m"
  by (auto simp: holds_def ret_def throw_def bindI_def split: option.splits sum.splits)

lemma holds_calls:
  "(\<And>x. P x) \<Longrightarrow> holds P (Some r)" "(\<And>x. P x) \<Longrightarrow> holds P (map_option Inr z)"
  "(\<And>x. Q x) \<Longrightarrow> holds Q (socket_send p as)" "(\<And>x. R x) \<Longrightarrow> holds R (device_write n p as)"
  by (simp_all add: holds_def)

lemma holdsD: "holds P m \<Longrightarrow> m = ret x \<Longrightarrow> P x"
  by (simp add: holds_def)

lemma update_endpoint_disposed [simp]: "disposed (rl_stats (fst (update_endpoint from st))) = disposed (rl_stats st)"
  by (auto simp: update_endpoint_def disposed_def split: option.split)

lemma disposed_bumps [simp]:
  "disposed (rs_dropped_oversize_update inc s) = disposed s + 1"
  "disposed (rs_dropped_malformed_update inc s) = disposed s + 1"
  "disposed (rs_handshakes_rejected_update inc s) = disposed s + 1"
  "disposed (rs_handshakes_completed_update inc s) = disposed s + 1"
  "disposed (rs_dropped_send_failed_update inc s) = disposed s + 1"
  "disposed (rs_dropped_no_session_update inc s) = disposed s + 1"
  "disposed (rs_dropped_replay_update inc s) = disposed s + 1"
  "disposed (rs_dropped_auth_failed_update inc s) = disposed s + 1"
  "disposed (rs_keepalives_received_update inc s) = disposed s + 1"
  "disposed (rs_udp_to_tun_packets_update inc s) = disposed s + 1"
  "disposed (rs_udp_to_tun_bytes_update f s) = disposed s"
  by (simp_all add: disposed_def)

lemma update_endpoint_peer:
  "rl_peer (fst (update_endpoint from st)) =
     (case rl_peer st of None \<Rightarrow> Some from | Some p \<Rightarrow> if same_endpoint p from then Some p else Some from)"
  by (auto simp: update_endpoint_def split: option.split)

definition effect :: "relay \<Rightarrow> sockaddr_in \<Rightarrow> relay \<times> relay_out list \<Rightarrow> bool" where
  "effect st from r \<longleftrightarrow>
     disposed (rl_stats (fst r)) = disposed (rl_stats st) + 1 \<and> rl_role (fst r) = rl_role st \<and>
     (rl_peer (fst r) = rl_peer st \<or> rl_role st = Responder \<and> rl_peer (fst r) = Some from)"

lemma effect_bump: "rl_peer st' = rl_peer st \<or> rl_role st = Responder \<and> rl_peer st' = Some from \<Longrightarrow>
    rl_role st' = rl_role st \<Longrightarrow> disposed (f (rl_stats st')) = disposed (rl_stats st) + 1 \<Longrightarrow>
    effect st from (bump f st', out)"
  by (simp add: effect_def)

lemma on_initiation_effect: "holds (effect st from) (on_initiation L env st d from)"
  unfolding on_initiation_def
  by (auto simp: Let_def update_endpoint_peer intro!: holds_calls effect_bump split: option.splits)

lemma on_response_effect: "holds (effect st from) (on_response L st d from)"
  unfolding on_response_def
  by (auto simp: Let_def intro!: holds_calls effect_bump split: option.splits Role.splits)

lemma on_transport_effect: "holds (effect st from) (on_transport L env st t d from)"
  unfolding on_transport_def
  by (auto simp: Let_def split_beta update_endpoint_peer intro!: holds_calls effect_bump split: option.splits)

lemma on_datagram_effect: "holds (effect st from) (on_datagram L env st d from)"
  using on_initiation_effect on_response_effect on_transport_effect
  by (auto simp: on_datagram_def intro!: effect_bump split: option.split message.split)

section \<open>Packets from the device\<close>

lemma env_send: "env_ok env \<Longrightarrow> \<exists>b. socket_send m (se_send env m) = ret b"
  by (simp add: env_ok_def)

lemma unat_small: "n \<le> 1500 \<Longrightarrow> unat (of_nat n :: size_t) = n"
  by (simp add: unat_of_nat)

lemma sealed_size_mono: "m \<le> n \<Longrightarrow> sealed_size m \<le> sealed_size n"
  by (simp add: sealed_size_def div_le_mono)

lemma sealed_size_bound: "n \<le> 1500 \<Longrightarrow> sealed_size n \<le> 1536"
  by (simp add: sealed_size_def)

lemma max_datagram_value: "n \<le> 1500 \<Longrightarrow> unat (max_datagram (of_nat n)) = sealed_size n"
proof -
  assume n: "n \<le> 1500"
  have p: "unat (padded_length (of_nat n)) = (n + 15) div 16 * 16"
    using n by (subst unat_padded_length) (simp_all add: unat_small)
  have "(n + 15) div 16 * 16 \<le> 1515" using n by simp
  then show ?thesis by (simp add: max_datagram_def unat_word_ariths p sealed_size_def)
qed

lemma oversize_iff:
  assumes "n \<le> 1500" and "length d < 2 ^ 64"
  shows "of_nat (length d) > max_datagram (of_nat n) \<longleftrightarrow> length d > sealed_size n"
  using assms by (simp add: word_less_nat_alt max_datagram_value unat_of_nat)

lemma on_tun_packet_active:
  assumes "crypto_ok L" and "relay_ok L st hist" and "length p \<le> rl_mtu st" and "rl_peer st = Some peer"
    and "s_active (rl_session st)" and "s = rl_session st"
    and "d = transport_layout (sealed_packet L (s_keys s) (s_send_counter s) p)"
  shows "\<exists>buf. length buf = length (rl_tun_buffer st) \<and> on_tun_packet L env st p =
    (if counter_usable (s_send_counter s)
     then bindI (socket_send d (se_send env d)) (\<lambda>sent.
       ret (bump (if sent then rs_tun_to_udp_packets_update inc \<circ> rs_tun_to_udp_bytes_update (\<lambda>n. n + of_nat (length d))
                  else rs_dropped_send_failed_update inc)
              (st\<lparr>rl_session := s\<lparr>s_send_counter := s_send_counter s + 1\<rparr>, rl_tun_buffer := buf\<rparr>),
            [Udp_send d peer sent]))
     else ret (bump (rs_dropped_counter_exhausted_update inc) (st\<lparr>rl_tun_buffer := buf\<rparr>), []))"
proof -
  let ?b = "blit 16 p (rl_tun_buffer st)"
  have ok: "rl_mtu st \<le> 1500" "length (rl_tun_buffer st) = sealed_size (rl_mtu st)"
    using assms(2) by (simp_all add: relay_ok_def)
  have n: "unat (of_nat (length p) :: size_t) = length p" using ok(1) assms(3) by (simp add: unat_small)
  have fit: "sealed_size (length p) \<le> length (rl_tun_buffer st)" using ok(2) sealed_size_mono [OF assms(3)] by simp
  then have l: "16 + length p \<le> length (rl_tun_buffer st)" by (simp add: sealed_size_def)
  then have b: "length ?b = length (rl_tun_buffer st)" "subspan 16 (length p) ?b = p" by (simp_all add: subspan_blit_same)
  have big: "length ?b < 2 ^ 63" using b(1) ok sealed_size_bound [of "rl_mtu st"] by simp
  show ?thesis
  proof (cases "counter_usable (s_send_counter s)")
    case True
    have "length d = sealed_size (length p)"
      unfolding assms(7) by (rule sealed_packet_size [OF crypto_okD(3) [OF assms(1)]])
    moreover have "session_seal L s ?b (of_nat (length p)) =
        Inr (s\<lparr>s_send_counter := s_send_counter s + 1\<rparr>, d @ drop (sealed_size (length p)) ?b, Some d)"
      using session_seal_value [of L "of_nat (length p)" ?b s d] crypto_okD(3) [OF assms(1)] n b l big True assms(5-7) fit by simp
    ultimately show ?thesis using True assms(4-6) b(1) fit
      by (intro exI [of _ "d @ drop (sealed_size (length p)) ?b"]) (auto simp: on_tun_packet_def Let_def if_distrib [of "\<lambda>f. bump f _"] cong: if_cong)
  next
    case False
    then have "session_seal L s ?b (of_nat (length p)) = Inr (s, ?b, None)"
      using session_seal_refuses [of "of_nat (length p)" ?b s L] n b l big by simp
    with False assms(4-6) b(1) show ?thesis
      by (intro exI [of _ ?b]) (simp add: on_tun_packet_def Let_def)
  qed
qed

section \<open>Starting handshakes\<close>

lemma start_handshake_returns:
  assumes "crypto_ok L" and "relay_ok L st hist" and "env_ok env"
  shows "\<exists>st' out. start_handshake L env st = ret (st', out) \<and> relay_ok L st' hist \<and>
    rl_session st' = rl_session st \<and> rl_peer st' = rl_peer st \<and> rl_role st' = rl_role st"
proof (cases "rl_role st = Initiator \<and> rl_peer st \<noteq> None \<and>
    \<not> (rl_last_initiation_ns st \<noteq> 0 \<and> monotonic_ns (se_mono env) - rl_last_initiation_ns st < kHandshakeRetryNs)")
  case True
  then obtain peer where p: "rl_role st = Initiator" "rl_peer st = Some peer" by auto
  have k: "length (se_rnd_key env) = 32" using assms(3) by (simp add: env_ok_def)
  have w: "wf_Handshake L (Handshake_init (rl_identity st))" using assms(2) by (simp add: relay_ok_def wf_Handshake_init)
  obtain hs buf v where v: "write_initiation L (se_rnd_index env) (se_rnd_key env) (se_clock env) (Handshake_init (rl_identity st))
      (rl_handshake_buffer st) = Inr (hs, buf, v)" "wf_Handshake L hs" "hs_identity hs = rl_identity st"
      "length buf = length (rl_handshake_buffer st)"
    using write_initiation_step [OF assms(1) w k] by (fastforce simp: Handshake_init_def)
  have s: "\<exists>b. socket_send m (se_send env m) = ret b" for m using assms(3) by (simp add: env_ok_def)
  show ?thesis
  proof (cases v)
    case None
    with True p v assms(2) show ?thesis by (auto simp: start_handshake_def Let_def relay_ok_def)
  next
    case (Some m)
    obtain b where "socket_send m (se_send env m) = ret b" using s by blast
    with Some True p v assms(2) show ?thesis by (auto simp: start_handshake_def Let_def relay_ok_def bump_def)
  qed
next
  case False
  then have "start_handshake L env st = ret (st, [])"
    by (cases "rl_role st"; cases "rl_peer st") (auto simp: start_handshake_def Let_def)
  with assms(2) show ?thesis by auto
qed

lemma on_tun_packet_returns:
  assumes "crypto_ok L" and "relay_ok L st hist" and "env_ok env" and "length p \<le> rl_mtu st"
  shows "\<exists>st' out. on_tun_packet L env st p = ret (st', out) \<and> relay_ok L st' hist \<and>
    rl_peer st' = rl_peer st \<and> rl_role st' = rl_role st"
proof -
  have "rl_mtu st \<le> 1500" "length (rl_tun_buffer st) = sealed_size (rl_mtu st)" using assms(2) by (simp_all add: relay_ok_def)
  with sealed_size_mono [OF assms(4)] have "16 + length p \<le> length (rl_tun_buffer st)" by (simp add: sealed_size_def)
  then have i: "relay_ok L (st\<lparr>rl_tun_buffer := blit 16 p (rl_tun_buffer st)\<rparr>) hist"
    using assms(2) by (simp add: relay_ok_def)
  show ?thesis
  proof (cases "rl_peer st")
    case None
    with i show ?thesis by (auto simp: on_tun_packet_def Let_def)
  next
    case (Some peer)
    show ?thesis
    proof (cases "s_active (rl_session st)")
      case False
      with Some i start_handshake_returns [OF assms(1) _ assms(3), of "bump (rs_dropped_no_session_update inc) (st\<lparr>rl_tun_buffer := blit 16 p (rl_tun_buffer st)\<rparr>)" hist]
      show ?thesis by (auto simp: on_tun_packet_def Let_def)
    next
      case True
      let ?s = "rl_session st"
      let ?d = "transport_layout (sealed_packet L (s_keys ?s) (s_send_counter ?s) p)"
      obtain b where b: "socket_send ?d (se_send env ?d) = ret b" using env_send [OF assms(3)] by blast
      obtain buf where buf: "length buf = length (rl_tun_buffer st)" and r: "on_tun_packet L env st p =
          (if counter_usable (s_send_counter ?s)
           then bindI (socket_send ?d (se_send env ?d)) (\<lambda>sent.
             ret (bump (if sent then rs_tun_to_udp_packets_update inc \<circ> rs_tun_to_udp_bytes_update (\<lambda>n. n + of_nat (length ?d))
                        else rs_dropped_send_failed_update inc)
                    (st\<lparr>rl_session := ?s\<lparr>s_send_counter := s_send_counter ?s + 1\<rparr>, rl_tun_buffer := buf\<rparr>),
                  [Udp_send ?d peer sent]))
           else ret (bump (rs_dropped_counter_exhausted_update inc) (st\<lparr>rl_tun_buffer := buf\<rparr>), []))"
        using on_tun_packet_active [OF assms(1,2,4) Some True refl refl, of env] by blast
      have i2: "relay_ok L (st\<lparr>rl_tun_buffer := buf\<rparr>) hist" using assms(2) buf by (simp add: relay_ok_def)
      have i3: "relay_ok L (st\<lparr>rl_session := ?s\<lparr>s_send_counter := s_send_counter ?s + 1\<rparr>, rl_tun_buffer := buf\<rparr>) hist"
        if "counter_usable (s_send_counter ?s)"
        using assms(2) buf that by (simp add: relay_ok_def counter_usable_def inc_le)
      show ?thesis
      proof (cases "counter_usable (s_send_counter ?s)")
        case True
        with r b i3 [OF True] show ?thesis by (simp del: length_transport_layout)
      next
        case False
        with r i2 show ?thesis by simp
      qed
    qed
  qed
qed

end
