(* ===== verification/Fuzz.thy ===== *)
theory Fuzz
  imports Relay_Steps
begin

text \<open>
  The three fuzz targets of \<^verbatim>\<open>src/test/fuzz\<close>. Each \<^verbatim>\<open>LLVMFuzzerTestOneInput\<close> feeds one input to the code
  that meets unauthenticated bytes and traps when an assertion about it is violated. Here a target is a
  function from the input to a verdict, and the properties say for every input what a campaign can only
  sample: which inputs pass. An access outside a buffer counts as a trap, as it does under the address
  sanitizer; an exception that leaves the target is \<open>Uncaught\<close>. A target that passes returns what it
  stored in its volatile variables; \<open>Hung\<close> is a target that does not return.
\<close>

datatype verdict = Passed "u64 list" | Trapped | Uncaught exn | Hung

definition trap_if :: "bool \<Rightarrow> verdict \<Rightarrow> verdict" where
  "trap_if b k = (if b then Trapped else k)"

definition unless_thrown :: "'a result \<Rightarrow> ('a \<Rightarrow> verdict) \<Rightarrow> verdict" where
  "unless_thrown r k = (case r of Inl e \<Rightarrow> Uncaught e | Inr x \<Rightarrow> k x)"

lemma verdict_simps [simp]: "trap_if False k = k" "trap_if True k = Trapped"
  "unless_thrown (Inr x) f = f x" "unless_thrown (Inl e) f = Uncaught e"
  by (simp_all add: trap_if_def unless_thrown_def)

lemma trap_if_passes [simp]: "(\<exists>s. trap_if b k = Passed s) \<longleftrightarrow> \<not> b \<and> (\<exists>s. k = Passed s)"
  by (cases b) simp_all

section \<open>The decoder\<close>

text \<open>The fields a message hands out, summed up so that each of their bytes is read.\<close>

definition add_bytes :: "bytes \<Rightarrow> u64 \<Rightarrow> u64" where
  "add_bytes bytes acc = fold (\<lambda>byte acc. acc + ucast byte) bytes acc"

fun consume :: "message \<Rightarrow> u64" where
  "consume (Msg_Initiation msg) =
     add_bytes (hi_mac2 msg) (add_bytes (hi_mac1 msg) (add_bytes (hi_encrypted_timestamp msg)
       (add_bytes (hi_encrypted_static msg) (add_bytes (hi_ephemeral msg) (0 + ucast (hi_sender_index msg))))))"
| "consume (Msg_Response msg) =
     add_bytes (hr_mac2 msg) (add_bytes (hr_mac1 msg) (add_bytes (hr_encrypted_nothing msg)
       (add_bytes (hr_ephemeral msg) (0 + ucast (hr_sender_index msg) + ucast (hr_receiver_index msg)))))"
| "consume (Msg_Cookie msg) =
     add_bytes (cr_encrypted_cookie msg) (add_bytes (cr_nonce msg) (0 + ucast (cr_receiver_index msg)))"
| "consume (Msg_Transport msg) =
     add_bytes (td_sealed msg) (0 + ucast (td_receiver_index msg) + td_counter msg)"

definition decode_fuzz :: "bytes \<Rightarrow> verdict" where
  "decode_fuzz input =
     (let size = length input;
          message = decode input;
          len = inner_packet_length input
      in
      trap_if (case message of
                 None \<Rightarrow> False
               | Some msg \<Rightarrow>
                   (case snd (encode (replicate size 0) msg) of
                      None \<Rightarrow> False
                    | Some written \<Rightarrow> length written \<noteq> size \<or> written \<noteq> take (length written) input))
      (trap_if (case len of
                  None \<Rightarrow> False
                | Some n \<Rightarrow> n > size \<or> unat (of_nat n - 1 :: size_t) \<ge> size)
      (trap_if (case mac1_input input of None \<Rightarrow> False | Some covered \<Rightarrow> length covered \<ge> size)
      (trap_if (case mac2_input input of None \<Rightarrow> False | Some covered \<Rightarrow> length covered \<ge> size)
       (Passed ((case message of None \<Rightarrow> [] | Some msg \<Rightarrow> [consume msg]) @
                (case len of None \<Rightarrow> [] | Some n \<Rightarrow> [ucast (input ! unat (of_nat n - 1 :: size_t))])))))))"

lemma inner_length_index:
  assumes "inner_packet_length p = Some n"
  shows "n \<le> length p" and "unat (of_nat n - 1 :: size_t) < length p"
proof -
  from assms have n: "20 \<le> n" "n \<le> length p" "n = 256 * unat (p ! 2) + unat (p ! 3)"
    by (auto simp: inner_packet_length_Some_iff)
  have "unat (p ! 2) < 256" "unat (p ! 3) < 256" using unsigned_less [of "p ! 2"] unsigned_less [of "p ! 3"] by simp_all
  with n(3) have "n < 2 ^ 64" by simp
  with n(1) have "unat (of_nat n - 1 :: size_t) = n - 1" by (simp add: unat_sub word_le_nat_alt unat_of_nat)
  with n show "n \<le> length p" "unat (of_nat n - 1 :: size_t) < length p" by simp_all
qed

lemma mac_inputs_shorter:
  "mac1_input m = Some r \<Longrightarrow> length r < length m" "mac2_input m = Some r \<Longrightarrow> length r < length m"
  by (auto simp: mac1_input_def mac2_input_def dest!: mac_offsets_Some split: option.splits)

text \<open>
  C17: the assertions of the decoder's fuzz target hold for every input, not only for the sampled ones:
  what is decoded encodes to the same bytes, the inner length points into the input, and the ranges
  the MACs cover are shorter than the message.
\<close>

theorem decode_fuzz_passes: "\<exists>stores. decode_fuzz input = Passed stores"
proof -
  have "snd (encode (replicate (length input) 0) m) = Some input" if "decode input = Some m" for m
    using any_codec.decode_enc [OF that, of "replicate (length input) 0"] by simp
  moreover have "\<not> (n > length input \<or> unat (of_nat n - 1 :: size_t) \<ge> length input)" if "inner_packet_length input = Some n" for n
    using inner_length_index [OF that] by simp
  ultimately show ?thesis
    unfolding decode_fuzz_def Let_def trap_if_passes
    using mac_inputs_shorter [of input] by (auto split: option.split)
qed

section \<open>The transport receive path\<close>

definition kSendKey :: bytes where
  "kSendKey = [0x2f, 0x1a, 0x74, 0x0b, 0x53, 0x6c, 0x18, 0x40, 0x29, 0x7d, 0x05,
     0x61, 0x3e, 0x12, 0x58, 0x6b, 0x37, 0x0e, 0x49, 0x22, 0x70, 0x1d,
     0x64, 0x0a, 0x55, 0x33, 0x7b, 0x16, 0x4e, 0x08, 0x62, 0x2c]"

definition kReceiveKey :: bytes where
  "kReceiveKey = [0x63, 0x0c, 0x39, 0x51, 0x1b, 0x76, 0x2a, 0x45, 0x0f, 0x68, 0x30,
     0x57, 0x13, 0x7e, 0x24, 0x4b, 0x06, 0x6d, 0x35, 0x1f, 0x59, 0x42,
     0x78, 0x21, 0x0d, 0x66, 0x3c, 0x50, 0x17, 0x7a, 0x2e, 0x48]"

definition kLocalIndex :: u32 where
  "kLocalIndex = 0xa5a5a5a5"

definition fuzz_session :: "bytes \<Rightarrow> bytes \<Rightarrow> Session" where
  "fuzz_session send receive =
     (let keys = s_keys Session_init
      in activate (Session_init\<lparr>s_keys := keys\<lparr>tk_receive := blit 0 receive (tk_receive keys), tk_send := blit 0 send (tk_send keys),
           tk_local_index := kLocalIndex, tk_peer_index := kLocalIndex\<rparr>\<rparr>))"

record session_fixture =
  fx_receiver :: Session
  fx_sender :: Session

definition session_fixture_make :: "'s crypto_lib \<Rightarrow> session_fixture result" where
  "session_fixture_make L =
     bindR (crypto_init L) (\<lambda>_. Inr \<lparr>fx_receiver = fuzz_session kSendKey kReceiveKey, fx_sender = fuzz_session kReceiveKey kSendKey\<rparr>)"

text \<open>The buffer with the well-formed IPv4 packet in its payload slot.\<close>

definition genuine_buffer :: bytes where
  "genuine_buffer =
     (let buffer = replicate (unat (of_nat kTransportHeaderSize + padded_length 1420 + of_nat kTagSize :: size_t)) 0;
          payload = (replicate 40 0x33)[0 := 0x45, 2 := 0, 3 := 40]
      in blit kTransportHeaderSize payload buffer)"

definition genuine_packet :: "'s crypto_lib \<Rightarrow> Session \<Rightarrow> (Session \<times> bytes option) result" where
  "genuine_packet L sender =
     bindR (session_seal L sender genuine_buffer 40) (\<lambda>(sender, buffer, datagram). Inr (sender, datagram))"

text \<open>A datagram is given to the receiver if it is transport data; in place, past the header.\<close>

definition offer :: "'s crypto_lib \<Rightarrow> Session \<Rightarrow> bytes \<Rightarrow> (Session \<times> bytes option) option option" where
  "offer L receiver datagram =
     (case decode datagram of
        Some (Msg_Transport transport) \<Rightarrow>
          Some (session_open L receiver (td_counter transport) (drop kTransportHeaderSize datagram))
      | _ \<Rightarrow> None)"

text \<open>The second half of the target: a genuine packet still gets through.\<close>

definition still_receives :: "'s crypto_lib \<Rightarrow> Session \<Rightarrow> Session \<Rightarrow> verdict" where
  "still_receives L receiver sender =
     unless_thrown (genuine_packet L sender) (\<lambda>(sender, datagram).
     case datagram of
       None \<Rightarrow> Trapped
     | Some real \<Rightarrow>
         (case offer L receiver real of
            None \<Rightarrow> Trapped
          | Some None \<Rightarrow> Hung
          | Some (Some (receiver, None)) \<Rightarrow> Trapped
          | Some (Some (receiver, Some opened)) \<Rightarrow>
              trap_if (length opened > length (drop kTransportHeaderSize real)) (Passed [])))"

definition session_fuzz :: "'s crypto_lib \<Rightarrow> bytes \<Rightarrow> verdict" where
  "session_fuzz L input =
     unless_thrown (session_fixture_make L) (\<lambda>fixture.
     case offer L (fx_receiver fixture) input of
       None \<Rightarrow> still_receives L (fx_receiver fixture) (fx_sender fixture)
     | Some None \<Rightarrow> Hung
     | Some (Some (receiver, plaintext)) \<Rightarrow>
         trap_if (plaintext \<noteq> None) (still_receives L receiver (fx_sender fixture)))"

lemma fuzz_session_simps [simp]:
  assumes "length send = 32" and "length receive = 32"
  shows "s_active (fuzz_session send receive)" "s_send_counter (fuzz_session send receive) = 0"
    "s_window (fuzz_session send receive) = ReplayWindow_init"
    "s_keys (fuzz_session send receive) =
       \<lparr>tk_send = send, tk_receive = receive, tk_local_index = kLocalIndex, tk_peer_index = kLocalIndex\<rparr>"
  using assms by (simp_all add: fuzz_session_def Let_def activate_def Session_init_def TransportKeys_init_def SecureBuf_def blit_def)

lemma fuzz_key_lengths [simp]: "length kSendKey = 32" "length kReceiveKey = 32"
  by (simp_all add: kSendKey_def kReceiveKey_def)

definition genuine_payload :: bytes where
  "genuine_payload = (replicate 40 0x33)[0 := 0x45, 2 := 0, 3 := 40]"

lemma genuine_payload_ipv4: "ipv4_packet genuine_payload" and genuine_payload_length: "length genuine_payload = 40"
proof -
  have g: "genuine_payload ! 0 = 0x45" "genuine_payload ! 2 = 0" "genuine_payload ! 3 = 40" "length genuine_payload = 40"
    by (simp_all add: genuine_payload_def)
  show "length genuine_payload = 40" by (rule g(4))
  show "ipv4_packet genuine_payload" by (simp add: ipv4_packet_def inner_packet_length_Some_iff g)
qed

lemma genuine_packet_value:
  assumes "aead_ok L"
  shows "\<exists>sender. genuine_packet L (fuzz_session kReceiveKey kSendKey) =
    Inr (sender, Some (transport_layout (sealed_packet L (s_keys (fuzz_session kReceiveKey kSendKey)) 0 genuine_payload)))"
proof -
  have p: "unat (of_nat 16 + padded_length 1420 + of_nat 16 :: size_t) = 1456" by (simp add: padded_length_def)
  then have b: "genuine_buffer = blit 16 genuine_payload (replicate 1456 0)"
    by (simp add: genuine_buffer_def genuine_payload_def)
  have l: "length genuine_buffer = 1456" "subspan 16 40 genuine_buffer = genuine_payload"
    unfolding b using genuine_payload_length by (simp_all add: subspan_blit_same)
  show ?thesis
    using session_seal_value [OF assms, of 40 genuine_buffer "fuzz_session kReceiveKey kSendKey", OF _ _ _ _ _ refl] l
    by (simp add: genuine_packet_def sealed_size_def counter_usable_def kRejectAfterMessages_def word_greater_zero_iff)
qed

text \<open>
  C16: no input makes the transport target trap, unless it carries a tag that is valid under a key the
  fuzzer does not have. For every library with the documented laws and every other input: the packet
  is refused, the window has not moved, and the genuine packet that follows is opened inside its buffer.
\<close>

theorem session_fuzz_passes:
  assumes "crypto_ok L" and "aead_authentic L" and "0 \<le> sodium_init L"
    and "\<not> (\<exists>t P. decode input = Some (Msg_Transport t) \<and>
      td_sealed t = aead_encrypt L kReceiveKey (Nonce (td_counter t)) [] P)"
  shows "session_fuzz L input = Passed []"
proof -
  let ?r = "fuzz_session kSendKey kReceiveKey" and ?s = "fuzz_session kReceiveKey kSendKey"
  define t where "t = sealed_packet L (s_keys ?s) 0 genuine_payload"
  note aead = crypto_okD(3) [OF assms(1)]
  have w: "window_tracks (s_window ?r) {}" using window.tracks_start by simp
  have first: "offer L ?r input \<in> {None, Some (Some (?r, None))}"
    using session_open_rejects [OF aead assms(2) w] assms(4) transport_layout_decode [of input]
    by (auto simp: offer_def authentic_def transport_layout_def split: option.split message.split)
  have d: "decode (transport_layout t) = Some (Msg_Transport t)" "td_counter t = 0" "drop 16 (transport_layout t) = td_sealed t"
    unfolding t_def by (rule decode_transport_layout [OF wf_sealed_packet [OF aead]]) (simp_all add: sealed_packet_def transport_layout_def)
  have "authentic L ?r 0 (td_sealed t) (padded_packet genuine_payload)" by (simp add: authentic_def t_def sealed_packet_def)
  from session_open_authentic [OF aead w _ this] obtain w' where "session_open L ?r 0 (td_sealed t) = Some (?r\<lparr>s_window := w'\<rparr>, Some genuine_payload)"
    using delivered_padded [OF genuine_payload_ipv4] by (auto simp: fresh_def kRejectAfterMessages_def word_greater_zero_iff)
  with d have second: "offer L ?r (transport_layout t) = Some (Some (?r\<lparr>s_window := w'\<rparr>, Some genuine_payload))"
    by (simp add: offer_def)
  obtain sender where g: "genuine_packet L ?s = Inr (sender, Some (transport_layout t))"
    using genuine_packet_value [OF aead] by (auto simp: t_def)
  have "40 \<le> length (td_sealed t)" using aead by (simp add: t_def sealed_packet_def aead_length genuine_payload_length)
  then have "still_receives L ?r ?s = Passed []" using g second d(3) by (simp add: still_receives_def genuine_payload_length)
  with first assms(3) show ?thesis by (auto simp: session_fuzz_def session_fixture_make_def crypto_init_def)
qed

theorem session_fuzz_passes_witness:
  "session_fuzz demo_lib ([4, 0, 0, 0] @ replicate 44 0) = Passed []"
proof (rule session_fuzz_passes [OF demo_crypto_ok demo_aead_authentic])
  show "0 \<le> sodium_init demo_lib" by (simp add: demo_lib_def)
  have "drop 16 ([4, 0, 0, 0] @ replicate 44 (0 :: u8)) = replicate 32 0" by simp
  then have "td_sealed t = replicate 32 0" if "decode ([4, 0, 0, 0] @ replicate 44 0) = Some (Msg_Transport t)" for t
    using transport_layout_decode [OF that] by (metis append_eq_conv_conj length_transport_header_layout transport_layout_def)
  moreover have "last (aead_encrypt demo_lib kReceiveKey (Nonce c) [] P) \<noteq> 0" for c P
    by (simp add: demo_lib_def demo_tag_def kReceiveKey_def Nonce_value)
  ultimately show "\<not> (\<exists>t P. decode ([4, 0, 0, 0] @ replicate 44 0) = Some (Msg_Transport t) \<and>
      td_sealed t = aead_encrypt demo_lib kReceiveKey (Nonce (td_counter t)) [] P)"
    by (metis last_replicate zero_neq_numeral)
qed

section \<open>The handshake\<close>

definition kServerPrivate :: bytes where
  "kServerPrivate = [0x58, 0x9a, 0x1c, 0x30, 0x2b, 0x71, 0x64, 0x0e, 0x45, 0x3d, 0x77,
     0x11, 0x2c, 0x05, 0x6a, 0x38, 0x49, 0x6f, 0x18, 0x22, 0x7b, 0x54,
     0x0c, 0x63, 0x39, 0x50, 0x1a, 0x2e, 0x74, 0x6d, 0x08, 0x41]"

definition kClientPrivate :: bytes where
  "kClientPrivate = [0x30, 0x77, 0x11, 0x4a, 0x1f, 0x62, 0x58, 0x0d, 0x25, 0x36, 0x49,
     0x7c, 0x03, 0x5e, 0x68, 0x14, 0x2a, 0x71, 0x0b, 0x57, 0x33, 0x6c,
     0x19, 0x40, 0x2d, 0x75, 0x06, 0x51, 0x38, 0x1e, 0x64, 0x42]"

record handshake_fixture =
  hx_server :: Identity
  hx_client :: Identity

text \<open>The two arguments say whether the guarded allocations of the private keys succeed.\<close>

definition handshake_fixture_make :: "'s crypto_lib \<Rightarrow> bool \<Rightarrow> bool \<Rightarrow> handshake_fixture result" where
  "handshake_fixture_make L alloc1 alloc2 =
     bindR (crypto_init L) (\<lambda>_.
     bindR (derive_public L kServerPrivate) (\<lambda>server_public.
     bindR (derive_public L kClientPrivate) (\<lambda>client_public.
     bindR (make_Identity L alloc1 kServerPrivate client_public) (\<lambda>server.
     bindR (make_Identity L alloc2 kClientPrivate server_public) (\<lambda>client.
       Inr \<lparr>hx_server = server, hx_client = client\<rparr>)))))"

text \<open>What the target draws: the random bytes of the client and of the server, and the clock.\<close>

record fuzz_draws =
  fd_client_index :: bytes
  fd_client_key :: bytes
  fd_clock :: timespec
  fd_server_index :: bytes
  fd_server_key :: bytes

text \<open>The last part of the target: a live handshake is completed with a genuine response.\<close>

definition completes :: "'s crypto_lib \<Rightarrow> fuzz_draws \<Rightarrow> Identity \<Rightarrow> Handshake \<Rightarrow> bytes \<Rightarrow> verdict" where
  "completes L rnd server_identity client initiation =
     unless_thrown (read_initiation L (Handshake_init server_identity) TimestampGuard_init initiation) (\<lambda>(server, guard, ok).
     trap_if (\<not> ok)
     (unless_thrown (write_response L (fd_server_index rnd) (fd_server_key rnd) server (replicate 256 0) TransportKeys_init)
       (\<lambda>(server, reply, server_keys, response).
        case response of
          None \<Rightarrow> Trapped
        | Some resp \<Rightarrow>
            unless_thrown (read_response L client resp TransportKeys_init) (\<lambda>(client, client_keys, ok).
            trap_if (\<not> ok)
            (trap_if (\<not> crypto_equal L (tk_send client_keys) (tk_receive server_keys)) (Passed []))))))"

definition handshake_fuzz :: "'s crypto_lib \<Rightarrow> bool \<Rightarrow> bool \<Rightarrow> fuzz_draws \<Rightarrow> bytes \<Rightarrow> verdict" where
  "handshake_fuzz L alloc1 alloc2 rnd input =
     unless_thrown (handshake_fixture_make L alloc1 alloc2) (\<lambda>keys.
     unless_thrown (read_initiation L (Handshake_init (hx_server keys)) TimestampGuard_init input) (\<lambda>(server, guard, ok).
     trap_if ok
     (unless_thrown (write_initiation L (fd_client_index rnd) (fd_client_key rnd) (fd_clock rnd)
         (Handshake_init (hx_client keys)) (replicate 256 0)) (\<lambda>(client, buffer, initiation).
      case initiation of
        None \<Rightarrow> Trapped
      | Some m \<Rightarrow>
          unless_thrown (read_response L client input TransportKeys_init) (\<lambda>(client, keys_out, ok).
          trap_if ok (completes L rnd (hx_server keys) client m))))))"

text \<open>What the fuzzer cannot make: an initiation of the client, or a response to the client's handshake.\<close>

definition handshake_forged :: "'s crypto_lib \<Rightarrow> fuzz_draws \<Rightarrow> handshake_fixture \<Rightarrow> bytes \<Rightarrow> bool" where
  "handshake_forged L rnd keys input \<longleftrightarrow>
     (\<exists>i E es ss T mac2. valid_initiation L (hx_server keys) input i E es ss T mac2) \<or>
     (\<exists>hs buffer m i E ee se mac2.
        write_initiation L (fd_client_index rnd) (fd_client_key rnd) (fd_clock rnd) (Handshake_init (hx_client keys)) (replicate 256 0) =
          Inr (hs, buffer, m) \<and> valid_response L hs input i E ee se mac2)"

lemma fuzz_private_lengths [simp]: "length kServerPrivate = 32" "length kClientPrivate = 32"
  by (simp_all add: kServerPrivate_def kClientPrivate_def)

lemma handshake_fixture_value:
  assumes "crypto_ok L" and "0 \<le> sodium_init L"
  shows "\<exists>keys. handshake_fixture_make L True True = Inr keys \<and> wf_Identity L (hx_server keys) \<and> wf_Identity L (hx_client keys) \<and>
    id_peer_public (hx_server keys) = id_public_key (hx_client keys) \<and> id_peer_public (hx_client keys) = id_public_key (hx_server keys)"
proof -
  note ok = crypto_okD [OF assms(1)]
  let ?S = "snd (scalarmult_base L kServerPrivate)" and ?C = "snd (scalarmult_base L kClientPrivate)"
  have p: "derive_public L kServerPrivate = Inr ?S" "derive_public L kClientPrivate = Inr ?C" "length ?S = 32" "length ?C = 32"
    using ok by (simp_all add: derive_public_value)
  obtain s c where i: "make_Identity L True kServerPrivate ?C = Inr s" "wf_Identity L s" "id_private_key s = kServerPrivate" "id_peer_public s = ?C"
      "make_Identity L True kClientPrivate ?S = Inr c" "wf_Identity L c" "id_private_key c = kClientPrivate" "id_peer_public c = ?S"
    using make_Identity_value [OF assms(1)] p(3,4) fuzz_private_lengths by metis
  then have "id_public_key s = ?S" "id_public_key c = ?C" by (simp_all add: wf_Identity_def)
  with p i assms(2) show ?thesis by (simp add: handshake_fixture_make_def crypto_init_def)
qed

text \<open>
  C15: no input makes the handshake target trap, unless it is an authentic handshake message: forged
  initiations and responses are refused, and refusing them leaves a handshake in flight intact, so that
  the genuine response completes it and the two sides agree on the key.
\<close>

theorem handshake_fuzz_passes:
  assumes "crypto_ok L" and "aead_authentic L" and "0 \<le> sodium_init L"
    and "length (fd_client_key rnd) = 32" and "length (fd_server_key rnd) = 32"
    and "handshake_fixture_make L True True = Inr keys" and "\<not> handshake_forged L rnd keys input"
  shows "handshake_fuzz L True True rnd input = Passed []"
proof -
  let ?s = "Handshake_init (hx_server keys)" and ?c = "Handshake_init (hx_client keys)"
  have id: "wf_Identity L (hx_server keys)" "wf_Identity L (hx_client keys)"
    "id_peer_public (hx_server keys) = id_public_key (hx_client keys)" "id_peer_public (hx_client keys) = id_public_key (hx_server keys)"
    using handshake_fixture_value [OF assms(1,3)] assms(6) by auto
  have wf: "wf_Handshake L ?s" "wf_Handshake L ?c" using id by (simp_all add: wf_Handshake_init)
  have h: "hs_identity ?s = hx_server keys" "hs_identity ?c = hx_client keys" by (simp_all add: Handshake_init_def)
  have l: "148 \<le> length (replicate 256 (0 :: u8))" "92 \<le> length (replicate 256 (0 :: u8))" by simp_all
  obtain c1 o1 m1 s1 g1 s2 o2 kr m2 c2 ki where run:
    "write_initiation L (fd_client_index rnd) (fd_client_key rnd) (fd_clock rnd) ?c (replicate 256 0) = Inr (c1, o1, Some m1)"
    "read_initiation L ?s TimestampGuard_init m1 = Inr (s1, g1, True)"
    "write_response L (fd_server_index rnd) (fd_server_key rnd) s1 (replicate 256 0) TransportKeys_init = Inr (s2, o2, kr, Some m2)"
    "read_response L c1 m2 TransportKeys_init = Inr (c2, ki, True)" "mirrored ki kr"
    using handshake_run [OF assms(1) wf(2,1), unfolded h, OF id(4,3) assms(4,5) l first_guard_accept, where now = "fd_clock rnd" and
        ?ri1.0 = "fd_client_index rnd" and ?ri2.0 = "fd_server_index rnd" and ?keys1.0 = TransportKeys_init and ?keys2.0 = TransportKeys_init]
    by blast
  have wf1: "wf_Handshake L c1" using write_initiation_step [OF assms(1) wf(2) assms(4), of "fd_client_index rnd" "fd_clock rnd" "replicate 256 0"] run(1) by simp
  have "read_initiation L ?s TimestampGuard_init input = Inr (?s, TimestampGuard_init, False)"
    by (rule read_initiation_rejects [OF assms(1,2) wf(1) refl]) (use assms(7) h in \<open>auto simp: handshake_forged_def\<close>)
  moreover have "read_response L c1 input TransportKeys_init = Inr (c1, TransportKeys_init, False)"
    by (rule read_response_rejects [OF assms(1,2) wf1]) (use assms(7) run(1) in \<open>auto simp: handshake_forged_def\<close>)
  moreover have "crypto_equal L (tk_send ki) (tk_receive kr)" using run(5) crypto_okD [OF assms(1)] by (simp add: mirrored_def crypto_equal_iff)
  ultimately show ?thesis using assms(6) run by (simp add: handshake_fuzz_def completes_def)
qed

definition demo_draws :: fuzz_draws where
  "demo_draws = \<lparr>fd_client_index = [1, 0, 0, 0], fd_client_key = replicate 32 5, fd_clock = Timespec 1700000000 0,
     fd_server_index = [2, 0, 0, 0], fd_server_key = replicate 32 6\<rparr>"

theorem handshake_fuzz_passes_witness: "handshake_fuzz demo_lib True True demo_draws (replicate 148 1) = Passed []"
proof -
  have s: "0 \<le> sodium_init demo_lib" by (simp add: demo_lib_def)
  obtain keys where k: "handshake_fixture_make demo_lib True True = Inr keys" "wf_Identity demo_lib (hx_server keys)"
    using handshake_fixture_value [OF demo_crypto_ok s] by blast
  have d: "decode (replicate 148 1) = None" by (simp add: decode_def prefix_ok_def)
  have "\<not> handshake_forged demo_lib demo_draws keys (replicate 148 1)"
    unfolding handshake_forged_def
    using valid_initiation_decode [OF demo_crypto_ok k(2)] valid_response_decode [OF demo_crypto_ok] d by (metis option.distinct(1))
  then show ?thesis by (intro handshake_fuzz_passes [OF demo_crypto_ok demo_aead_authentic s _ _ k(1)]) (simp_all add: demo_draws_def)
qed

end
