(* ===== verification/Relay_Protocol.thy ===== *)
theory Relay_Protocol
  imports Relay_Steps
begin

text \<open>
  Two relays and whole runs: a handshake and the packets after it, from device to device; the event
  loop as a run of steps; that it returns when a signal arrives; and what holds along a run, no packet
  delivered twice and initiations at least a second apart.
\<close>

section \<open>From packet to packet\<close>

lemma read_initiation_decodes:
  "read_initiation L hs g d = Inr (hs', g', True) \<Longrightarrow> \<exists>m. decode d = Some (Msg_Initiation m)"
  by (auto simp: read_initiation_def split: option.splits message.splits)

lemma read_response_decodes:
  "read_response L hs d k = Inr (hs', k', True) \<Longrightarrow> \<exists>m. decode d = Some (Msg_Response m)"
  by (auto simp: read_response_def split: option.splits message.splits)

lemma decoded_lengths:
  "decode d = Some (Msg_Initiation m) \<Longrightarrow> length d = 148"
  "decode d = Some (Msg_Response r) \<Longrightarrow> length d = 92"
  by (auto simp: decode_def split: if_splits)

lemma not_oversize:
  assumes "relay_ok L st hist" and "length d \<le> sealed_size (rl_mtu st)"
  shows "\<not> of_nat (length d) > max_datagram (of_nat (rl_mtu st))"
proof -
  have m: "rl_mtu st \<le> 1500" using assms(1) by (simp add: relay_ok_def)
  with assms(2) have "length d < 2 ^ 64" using sealed_size_bound [of "rl_mtu st"] by simp
  with oversize_iff [OF m this] assms(2) show ?thesis by simp
qed

text \<open>The relay sends to the endpoint \<open>a\<close>.\<close>

definition peer_at :: "relay \<Rightarrow> sockaddr_in \<Rightarrow> bool" where
  "peer_at st a \<longleftrightarrow> (\<exists>p. rl_peer st = Some p \<and> same_endpoint p a)"

lemma update_endpoint_peer_at: "peer_at (fst (update_endpoint from st)) from"
  by (auto simp: update_endpoint_def peer_at_def same_endpoint_def split: option.splits)

lemma update_endpoint_mtu: "rl_mtu (fst (update_endpoint from st)) = rl_mtu st"
  by (auto simp: update_endpoint_def split: option.split)

lemma read_initiation_wf:
  assumes "crypto_ok L" and "wf_Handshake L hs" and "read_initiation L hs g d = Inr (hs', g', True)"
  shows "wf_Handshake L hs'"
proof -
  obtain r where dec: "decode d = Some (Msg_Initiation r)" using read_initiation_decodes [OF assms(3)] by blast
  have "length (hi_ephemeral r) = 32" using initiation_layout_decode [OF dec] by (simp add: wf_defs)
  with assms(2,3) crypto_okD [OF assms(1)] show ?thesis
    unfolding read_initiation_cases [OF assms(1,2) dec refl refl refl refl refl refl]
    by (auto simp: wf_Handshake_def split: if_splits option.splits)
qed

text \<open>
  Two relays that can talk: an initiator without session that knows the responder's address and may
  start a handshake now, and a responder, with each other's keys and the same MTU.
\<close>

definition can_talk :: "'s crypto_lib \<Rightarrow> relay \<Rightarrow> relay \<Rightarrow> sockaddr_in \<Rightarrow> bool" where
  "can_talk L A B addr \<longleftrightarrow>
     (\<exists>ha. relay_ok L A ha) \<and> (\<exists>hb. relay_ok L B hb) \<and> rl_role A = Initiator \<and> rl_role B = Responder \<and>
     id_peer_public (rl_identity A) = id_public_key (rl_identity B) \<and>
     id_peer_public (rl_identity B) = id_public_key (rl_identity A) \<and>
     \<not> s_active (rl_session A) \<and> rl_peer A = Some addr \<and> rl_last_initiation_ns A = 0 \<and>
     576 \<le> rl_mtu A \<and> rl_mtu B = rl_mtu A"

text \<open>The two sides share a session; only the counters of the initiator's side have not been used.\<close>

definition in_session :: "'s crypto_lib \<Rightarrow> relay \<Rightarrow> relay \<Rightarrow> bool" where
  "in_session L A B \<longleftrightarrow> relay_ok L A {} \<and> relay_ok L B {} \<and> s_active (rl_session A) \<and> s_active (rl_session B) \<and>
     mirrored (s_keys (rl_session A)) (s_keys (rl_session B)) \<and>
     s_send_counter (rl_session A) = 0 \<and> s_send_counter (rl_session B) = 0 \<and> rl_mtu B = rl_mtu A"

lemma relay_handshake:
  assumes "crypto_ok L" and "can_talk L A B addr" and "env_ok e1" and "env_ok e2"
    and "length p \<le> rl_mtu A" and "snd (guard_accept (rl_guard B) (timestamp (se_clock e1)))"
  shows "\<exists>A1 m1 s1 B1 m2 s2 log A2.
    on_tun_packet L e1 A p = ret (A1, [Udp_send m1 addr s1]) \<and>
    on_datagram L e2 B m1 from = ret (B1, Udp_send m2 from s2 # log) \<and>
    on_datagram L e3 A1 m2 addr = ret (A2, [Log_established addr]) \<and>
    in_session L A2 B1 \<and> rl_peer A2 = Some addr \<and> peer_at B1 from \<and> rl_role A2 = Initiator \<and> rl_role B1 = Responder \<and> rl_mtu A2 = rl_mtu A"
proof -
  from assms(2) obtain ha hb where c: "relay_ok L A ha" "relay_ok L B hb" "rl_role A = Initiator" "rl_role B = Responder"
     "id_peer_public (rl_identity A) = id_public_key (rl_identity B)"
     "id_peer_public (rl_identity B) = id_public_key (rl_identity A)"
     "\<not> s_active (rl_session A)" "rl_peer A = Some addr" "rl_last_initiation_ns A = 0"
     "576 \<le> rl_mtu A" "rl_mtu B = rl_mtu A" by (auto simp: can_talk_def)
  let ?I = "Handshake_init (rl_identity A)" and ?R = "Handshake_init (rl_identity B)"
  have w: "wf_Handshake L ?I" "wf_Handshake L ?R" using c(1,2) by (simp_all add: relay_ok_def wf_Handshake_init)
  have id: "hs_identity ?I = rl_identity A" "hs_identity ?R = rl_identity B" by (simp_all add: Handshake_init_def)
  have k: "length (se_rnd_key e1) = 32" "length (se_rnd_key e2) = 32" using assms(3,4) by (simp_all add: env_ok_def)
  have l: "148 \<le> length (rl_handshake_buffer A)" "92 \<le> length (rl_handshake_buffer B)"
    using c(1,2) by (simp_all add: relay_ok_def)
  obtain hi1 o1 m1 hr1 hr2 o2 kr m2 hi2 ki where h:
    "write_initiation L (se_rnd_index e1) (se_rnd_key e1) (se_clock e1) ?I (rl_handshake_buffer A) = Inr (hi1, o1, Some m1)"
    "read_initiation L ?R (rl_guard B) m1 = Inr (hr1, fst (guard_accept (rl_guard B) (timestamp (se_clock e1))), True)"
    "write_response L (se_rnd_index e2) (se_rnd_key e2) hr1 (rl_handshake_buffer B) (s_keys (rl_session B)) = Inr (hr2, o2, kr, Some m2)"
    "read_response L hi1 m2 (s_keys (rl_session A)) = Inr (hi2, ki, True)" "mirrored ki kr"
    using handshake_run [OF assms(1) w, unfolded id, OF c(5,6) k l assms(6), where ?ri1.0 = "se_rnd_index e1" and
        ?ri2.0 = "se_rnd_index e2" and ?keys1.0 = "s_keys (rl_session A)" and ?keys2.0 = "s_keys (rl_session B)"] by blast
  obtain s1 s2 where s: "socket_send m1 (se_send e1 m1) = ret s1" "socket_send m2 (se_send e2 m2) = ret s2"
    using env_send assms(3,4) by blast
  define A0 where "A0 = bump (rs_dropped_no_session_update inc) (A\<lparr>rl_tun_buffer := blit 16 p (rl_tun_buffer A)\<rparr>)"
  define A1 where "A1 = bump (if s1 then rs_handshakes_started_update inc else rs_dropped_send_failed_update inc)
    (A0\<lparr>rl_last_initiation_ns := monotonic_ns (se_mono e1), rl_handshake_buffer := o1, rl_pending := Some hi1\<rparr>)"
  have t1: "on_tun_packet L e1 A p = ret (A1, [Udp_send m1 addr s1])"
    using c(3,7-9) h(1) s(1) by (simp add: on_tun_packet_def start_handshake_def Let_def A0_def A1_def)
  have a1: "relay_ok L A1 ha" using on_tun_packet_returns [OF assms(1) c(1) assms(3,5)] t1 by simp
  have p1: "rl_role A1 = Initiator" "rl_pending A1 = Some hi1" "rl_session A1 = rl_session A" "rl_mtu A1 = rl_mtu A" "rl_peer A1 = Some addr"
    using c(3,8) by (simp_all add: A1_def A0_def)
  define B0 where "B0 = B\<lparr>rl_guard := fst (guard_accept (rl_guard B) (timestamp (se_clock e1))), rl_handshake_buffer := o2,
    rl_session := activate ((rl_session B)\<lparr>s_keys := kr\<rparr>)\<rparr>"
  define B1 where "B1 = bump (if s2 then rs_handshakes_completed_update inc else rs_dropped_send_failed_update inc)
    (fst (update_endpoint from B0))"
  obtain d1 d2 where dec: "decode m1 = Some (Msg_Initiation d1)" "decode m2 = Some (Msg_Response d2)"
    using read_initiation_decodes [OF h(2)] read_response_decodes [OF h(4)] by blast
  have sz: "148 \<le> sealed_size (rl_mtu A)" using c(10) by (simp add: sealed_size_def)
  have no: "\<not> of_nat (length m1) > max_datagram (of_nat (rl_mtu B))" "\<not> of_nat (length m2) > max_datagram (of_nat (rl_mtu A1))"
    using not_oversize [OF c(2), of m1] not_oversize [OF a1, of m2] decoded_lengths dec sz c(11) p1(4) by simp_all
  have t2: "on_datagram L e2 B m1 from = ret (B1, Udp_send m2 from s2 # (if s2 then [Log_established from] else []))"
    using no(1) dec(1) c(4) h(2,3) s(2) by (simp add: on_datagram_def on_initiation_def Let_def B0_def B1_def)
  define A2 where "A2 = bump (rs_handshakes_completed_update inc)
    (A1\<lparr>rl_session := activate ((rl_session A1)\<lparr>s_keys := ki\<rparr>), rl_pending := None\<rparr>)"
  have t3: "on_datagram L e3 A1 m2 addr = ret (A2, [Log_established addr])"
    using no(2) dec(2) h(4) p1 by (simp add: on_datagram_def on_response_def Let_def A2_def)
  have "wf_Handshake L hr1" using read_initiation_wf [OF assms(1) w(2) h(2)] .
  from write_response_step [OF assms(1) this k(2), of "se_rnd_index e2" "rl_handshake_buffer B" "s_keys (rl_session B)"]
  have o2: "length o2 = 148" using c(2) h(3) by (auto simp: relay_ok_def)
  have "relay_ok L B0 {}"
    using c(2) o2 window.tracks_start by (auto simp: relay_ok_def B0_def wf_guard_def guard_accept_def)
  then have "relay_ok L B1 {}" by (simp add: B1_def)
  moreover have "relay_ok L A2 {}" using a1 window.tracks_start by (simp add: A2_def relay_ok_def)
  ultimately have "in_session L A2 B1" using h(5) c(11) p1(4)
    by (simp add: in_session_def A2_def B1_def B0_def update_endpoint_mtu)
  moreover have "peer_at B1 from" using update_endpoint_peer_at [of "from" B0] by (simp add: B1_def peer_at_def)
  moreover have "rl_role B1 = Responder" "rl_role A2 = Initiator" "rl_peer A2 = Some addr" "rl_mtu A2 = rl_mtu A"
    using c(4) p1 by (simp_all add: A2_def B1_def B0_def)
  ultimately show ?thesis using t1 t2 t3 by blast
qed

lemma drop_transport_layout: "drop 16 (transport_layout t) = td_sealed t"
  by (simp add: transport_layout_def)

lemma tun_packet_sent:
  assumes "crypto_ok L" and "relay_ok L st hist" and "s_active (rl_session st)" and "counter_usable (s_send_counter (rl_session st))"
    and "rl_peer st = Some peer" and "length p \<le> rl_mtu st" and "env_ok env"
  shows "\<exists>st' sent. on_tun_packet L env st p =
      ret (st', [Udp_send (transport_layout (sealed_packet L (s_keys (rl_session st)) (s_send_counter (rl_session st)) p)) peer sent]) \<and>
    relay_ok L st' hist \<and> rl_session st' = (rl_session st)\<lparr>s_send_counter := s_send_counter (rl_session st) + 1\<rparr> \<and>
    rl_peer st' = Some peer \<and> rl_mtu st' = rl_mtu st \<and> rl_role st' = rl_role st"
proof -
  let ?d = "transport_layout (sealed_packet L (s_keys (rl_session st)) (s_send_counter (rl_session st)) p)"
  obtain sent where s: "socket_send ?d (se_send env ?d) = ret sent" using env_send [OF assms(7)] by blast
  from on_tun_packet_active [OF assms(1,2,6,5,3) refl refl, of env] obtain buf f where b: "length buf = length (rl_tun_buffer st)"
    and r: "on_tun_packet L env st p =
      ret (bump f (st\<lparr>rl_session := (rl_session st)\<lparr>s_send_counter := s_send_counter (rl_session st) + 1\<rparr>, rl_tun_buffer := buf\<rparr>),
        [Udp_send ?d peer sent])" unfolding if_P [OF assms(4)] s bindI_simps by blast
  have "s_send_counter (rl_session st) + 1 \<le> kRejectAfterMessages" using assms(4) inc_le by (simp add: counter_usable_def)
  then have "relay_ok L (st\<lparr>rl_session := (rl_session st)\<lparr>s_send_counter := s_send_counter (rl_session st) + 1\<rparr>, rl_tun_buffer := buf\<rparr>) hist"
    using assms(2) b by (simp add: relay_ok_def)
  with r assms(5) show ?thesis by simp
qed

lemma datagram_delivered:
  assumes "crypto_ok L" and "relay_ok L st hist" and "s_active (rl_session st)" and "mirrored keys (s_keys (rl_session st))"
    and "fresh hist c" and "ipv4_packet p" and "length p \<le> rl_mtu st" and "env_ok env"
  shows "\<exists>st' log. on_datagram L env st (transport_layout (sealed_packet L keys c p)) from = ret (st', log @ [Tun_write p]) \<and>
    set log \<subseteq> {Log_roamed from} \<and> relay_ok L st' (insert c hist) \<and> (\<exists>w. rl_session st' = (rl_session st)\<lparr>s_window := w\<rparr>) \<and>
    rl_mtu st' = rl_mtu st \<and> rl_role st' = rl_role st \<and>
    (if rl_role st = Responder then peer_at st' from else rl_peer st' = rl_peer st)"
proof -
  let ?s = "rl_session st"
  define t where "t = sealed_packet L keys c p"
  define d where "d = transport_layout t"
  note aead = crypto_okD(3) [OF assms(1)]
  have dec: "decode d = Some (Msg_Transport t)" unfolding d_def t_def using wf_sealed_packet [OF aead] by (rule decode_transport_layout)
  have i: "td_receiver_index t = tk_local_index (s_keys ?s)" "td_counter t = c"
    using assms(4) by (simp_all add: t_def sealed_packet_def mirrored_def)
  have w: "window_tracks (s_window ?s) hist" using assms(2) by (simp add: relay_ok_def)
  have "authentic L ?s c (td_sealed t) (padded_packet p)" using assms(3,4) by (simp add: t_def authentic_def sealed_packet_def mirrored_def)
  from session_open_authentic [OF aead w assms(5) this] delivered_padded [OF assms(6)] obtain w' where
    o: "session_open L ?s c (td_sealed t) = Some (?s\<lparr>s_window := w'\<rparr>, Some p)" "window_tracks w' (insert c hist)" by auto
  have acc: "replay_acceptable ?s c" using window.tracks_ok [OF w, of c] assms(5) by (simp add: replay_acceptable_def)
  have "length d = sealed_size (length p)" unfolding d_def t_def by (rule sealed_packet_size [OF aead])
  then have no: "\<not> of_nat (length d) > max_datagram (of_nat (rl_mtu st))" using not_oversize [OF assms(2), of d] sealed_size_mono [OF assms(7)] by simp
  define st0 where "st0 = st\<lparr>rl_session := ?s\<lparr>s_window := w'\<rparr>\<rparr>"
  define up where "up = (if rl_role st0 = Responder then update_endpoint from st0 else (st0, False))"
  define st' where "st' = bump (rs_udp_to_tun_packets_update inc \<circ> rs_udp_to_tun_bytes_update (\<lambda>n. n + of_nat (length p))) (fst up)"
  have p: "p \<noteq> []" using assms(6) by (auto simp: ipv4_packet_def inner_packet_length_Some_iff)
  have dw: "device_write n p (se_write env p) = ret ()" for n using assms(8) by (simp add: env_ok_def)
  have r: "on_datagram L env st d from = ret (st', (if snd up then [Log_roamed from] else []) @ [Tun_write p])"
    using no dec assms(3) i acc o(1) p dw
    by (simp add: on_datagram_def on_transport_def d_def drop_transport_layout Let_def st'_def up_def st0_def case_prod_beta)
  have "relay_ok L st0 (insert c hist)" using assms(2) o(2) by (simp add: st0_def relay_ok_def)
  then have k: "relay_ok L st' (insert c hist)" by (simp add: st'_def up_def)
  have e: "if rl_role st = Responder then peer_at st' from else rl_peer st' = rl_peer st"
    using update_endpoint_peer_at [of "from" st0] by (simp add: st'_def up_def st0_def peer_at_def)
  have "rl_session st' = ?s\<lparr>s_window := w'\<rparr> \<and> rl_mtu st' = rl_mtu st \<and> rl_role st' = rl_role st"
    by (simp add: st'_def up_def st0_def update_endpoint_mtu)
  with r k e show ?thesis unfolding d_def t_def by (intro exI [of _ st'] exI [of _ "if snd up then [Log_roamed from] else []"]) auto
qed

lemma packet_delivered:
  assumes "crypto_ok L" and "relay_ok L A ha" and "relay_ok L B hb" and "rl_mtu B = rl_mtu A"
    and "s_active (rl_session A)" and "s_active (rl_session B)"
    and "mirrored (s_keys (rl_session A)) (s_keys (rl_session B))"
    and "counter_usable (s_send_counter (rl_session A))" and "fresh hb (s_send_counter (rl_session A))"
    and "rl_peer A = Some peer" and "length p \<le> rl_mtu A" and "ipv4_packet p" and "env_ok e1" and "env_ok e2"
  shows "\<exists>A' d s B' log. on_tun_packet L e1 A p = ret (A', [Udp_send d peer s]) \<and>
    on_datagram L e2 B d from = ret (B', log @ [Tun_write p]) \<and>
    relay_ok L A' ha \<and> relay_ok L B' (insert (s_send_counter (rl_session A)) hb) \<and>
    s_send_counter (rl_session A') = s_send_counter (rl_session A) + 1 \<and>
    s_keys (rl_session A') = s_keys (rl_session A) \<and> s_keys (rl_session B') = s_keys (rl_session B) \<and>
    s_send_counter (rl_session B') = s_send_counter (rl_session B) \<and>
    s_active (rl_session A') \<and> s_active (rl_session B') \<and> rl_mtu A' = rl_mtu A \<and> rl_mtu B' = rl_mtu B \<and>
    rl_peer A' = Some peer \<and> (if rl_role B = Responder then peer_at B' from else rl_peer B' = rl_peer B) \<and>
    rl_role A' = rl_role A \<and> rl_role B' = rl_role B"
proof -
  let ?d = "transport_layout (sealed_packet L (s_keys (rl_session A)) (s_send_counter (rl_session A)) p)"
  obtain A' s where a: "on_tun_packet L e1 A p = ret (A', [Udp_send ?d peer s])" "relay_ok L A' ha"
      "rl_session A' = (rl_session A)\<lparr>s_send_counter := s_send_counter (rl_session A) + 1\<rparr>"
      "rl_peer A' = Some peer" "rl_mtu A' = rl_mtu A" "rl_role A' = rl_role A"
    using tun_packet_sent [OF assms(1,2,5,8,10,11,13)] by blast
  have l: "length p \<le> rl_mtu B" using assms(4,11) by simp
  obtain B' log w where b: "on_datagram L e2 B ?d from = ret (B', log @ [Tun_write p])"
      "relay_ok L B' (insert (s_send_counter (rl_session A)) hb)" "rl_session B' = (rl_session B)\<lparr>s_window := w\<rparr>"
      "rl_mtu B' = rl_mtu B" "rl_role B' = rl_role B" "if rl_role B = Responder then peer_at B' from else rl_peer B' = rl_peer B"
    using datagram_delivered [OF assms(1,3,6,7,9,12) l assms(14), of "from"] by blast
  show ?thesis using a b assms(5,6) by (intro exI [of _ A'] exI [of _ ?d] exI [of _ s] exI [of _ B'] exI [of _ log]) simp
qed

section \<open>The initial state\<close>

lemma relay_init_simps [simp]:
  "rl_role (relay_init name config identity) = rc_role config" "rl_peer (relay_init name config identity) = rc_peer config"
  "rl_identity (relay_init name config identity) = identity" "rl_guard (relay_init name config identity) = TimestampGuard_init"
  "\<not> s_active (rl_session (relay_init name config identity))" "rl_last_initiation_ns (relay_init name config identity) = 0"
  "rl_tun_name (relay_init name config identity) = name"
  by (simp_all add: relay_init_def Let_def Session_init_def)

lemma relay_init_ok:
  assumes "wf_Identity L identity" and "0 \<le> rc_mtu config" and "rc_mtu config \<le> 1500"
  shows "relay_ok L (relay_init name config identity) {} \<and> rl_mtu (relay_init name config identity) = nat (rc_mtu config)"
proof -
  obtain m where m: "rc_mtu config = int m" "m \<le> 1500" using assms(2,3) by (metis nat_0_le nat_le_iff of_nat_numeral zle_int)
  have u: "unat (of_nat m :: size_t) = m" using m(2) by (simp add: unat_small)
  then have l: "length (rl_tun_buffer (relay_init name config identity)) = sealed_size m"
    using m max_datagram_value [OF m(2)] by (simp add: relay_init_def Let_def max_datagram_def)
  show ?thesis
    using assms(1) m u l window.tracks_start wf_guard_init
    by (simp add: relay_ok_def) (simp add: relay_init_def Let_def Session_init_def)
qed

definition demo_env :: step_env where
  "demo_env = \<lparr>se_rnd_index = [1, 0, 0, 0], se_rnd_key = replicate 32 5, se_clock = Timespec 1700000000 0,
     se_mono = Timespec 100 0, se_send = (\<lambda>m. [Sys_ok (length m)]), se_write = (\<lambda>p. [Sys_ok (length p)])\<rparr>"

lemma demo_env_ok: "env_ok demo_env"
  by (simp add: env_ok_def demo_env_def socket_send_def device_write_def ret_def ex_bool_eq)

definition demo_address :: "u8 \<Rightarrow> sockaddr_in" where
  "demo_address n = \<lparr>sin_family = AF_INET, sin_port = 0xC8CA, sin_addr = [10, 0, 0, n]\<rparr>"

definition demo_relay :: "Role \<Rightarrow> u8 \<Rightarrow> u8 \<Rightarrow> sockaddr_in option \<Rightarrow> relay" where
  "demo_relay role a b peer = relay_init ''tun0''
     \<lparr>rc_mtu = 1420, rc_role = role, rc_peer = peer, rc_identity = Some (demo_identity a b)\<rparr> (demo_identity a b)"

lemma demo_relay_ok: "relay_ok demo_lib (demo_relay role a b peer) {}" and demo_relay_mtu: "rl_mtu (demo_relay role a b peer) = 1420"
  using relay_init_ok [OF demo_identity_wf [of a b], of "\<lparr>rc_mtu = 1420, rc_role = role, rc_peer = peer,
    rc_identity = Some (demo_identity a b)\<rparr>" "''tun0''"] by (simp_all add: demo_relay_def)

lemma demo_relay_simps [simp]:
  "rl_role (demo_relay role a b peer) = role" "rl_peer (demo_relay role a b peer) = peer"
  "rl_identity (demo_relay role a b peer) = demo_identity a b" "rl_guard (demo_relay role a b peer) = TimestampGuard_init"
  "\<not> s_active (rl_session (demo_relay role a b peer))" "rl_last_initiation_ns (demo_relay role a b peer) = 0"
  by (simp_all add: demo_relay_def)

lemma demo_relays_talk: "can_talk demo_lib (demo_relay Initiator 7 8 (Some a)) (demo_relay Responder 8 7 None) a"
  unfolding can_talk_def by (intro conjI exI, (rule demo_relay_ok)+) (simp_all add: demo_relay_mtu, simp_all add: demo_identity_def)

text \<open>
  C1: two relays that know each other's keys exchange packets. The first packet of the initiator starts
  a handshake; the responder's answer establishes the session on both sides; then a packet read from
  the initiator's device is written to the responder's device, also when its datagram arrives from a
  new address, and a packet of the responder goes to that address and is written to the initiator's
  device. Nothing is assumed of the library but the correctness of its operations.
\<close>

theorem relay_end_to_end:
  assumes "crypto_ok L" and "can_talk L A B addr" and "env_ok e1" and "env_ok e2" and "env_ok e3" and "env_ok e4"
    and "length p0 \<le> rl_mtu A" and "length p \<le> rl_mtu A" and "length q \<le> rl_mtu A"
    and "ipv4_packet p" and "ipv4_packet q"
    and "snd (guard_accept (rl_guard B) (timestamp (se_clock e1)))"
  shows "\<exists>A1 m1 s1 B1 m2 s2 log1 A2 A3 d s3 B2 log2 B3 r peer s4 A4 log3.
    on_tun_packet L e1 A p0 = ret (A1, [Udp_send m1 addr s1]) \<and>
    on_datagram L e2 B m1 from = ret (B1, Udp_send m2 from s2 # log1) \<and>
    on_datagram L e3 A1 m2 addr = ret (A2, [Log_established addr]) \<and>
    on_tun_packet L e3 A2 p = ret (A3, [Udp_send d addr s3]) \<and>
    on_datagram L e4 B1 d from' = ret (B2, log2 @ [Tun_write p]) \<and>
    on_tun_packet L e4 B2 q = ret (B3, [Udp_send r peer s4]) \<and> same_endpoint peer from' \<and>
    on_datagram L e3 A3 r addr = ret (A4, log3 @ [Tun_write q])"
proof -
  obtain A1 m1 s1 B1 m2 s2 log1 A2 where h: "on_tun_packet L e1 A p0 = ret (A1, [Udp_send m1 addr s1])"
      "on_datagram L e2 B m1 from = ret (B1, Udp_send m2 from s2 # log1)"
      "on_datagram L e3 A1 m2 addr = ret (A2, [Log_established addr])" and i: "in_session L A2 B1"
      and r: "rl_peer A2 = Some addr" "rl_role A2 = Initiator" "rl_role B1 = Responder" and m: "rl_mtu A2 = rl_mtu A"
    using relay_handshake [OF assms(1-4,7,12)] by blast
  have zero: "counter_usable 0" "fresh {} 0" by (simp_all add: counter_usable_def fresh_def kRejectAfterMessages_def word_greater_zero_iff)
  from i have s: "relay_ok L A2 {}" "relay_ok L B1 {}" "rl_mtu B1 = rl_mtu A2" "s_active (rl_session A2)" "s_active (rl_session B1)"
    "mirrored (s_keys (rl_session A2)) (s_keys (rl_session B1))" "s_send_counter (rl_session A2) = 0"
    "s_send_counter (rl_session B1) = 0" by (simp_all add: in_session_def)
  obtain A3 d s3 B2 log2 where a: "on_tun_packet L e3 A2 p = ret (A3, [Udp_send d addr s3])"
      "on_datagram L e4 B1 d from' = ret (B2, log2 @ [Tun_write p])" "relay_ok L A3 {}" "relay_ok L B2 {0}"
      "s_keys (rl_session A3) = s_keys (rl_session A2)" "s_keys (rl_session B2) = s_keys (rl_session B1)"
      "s_send_counter (rl_session B2) = 0" "s_active (rl_session A3)" "s_active (rl_session B2)"
      "rl_mtu A3 = rl_mtu A2" "rl_mtu B2 = rl_mtu B1" and pa: "peer_at B2 from'"
    using packet_delivered [OF assms(1) s(1-6), unfolded s(7), OF zero r(1) _ assms(10,5,6), of "from'"] assms(8) m r(3) s(8)
    by auto
  obtain peer where peer: "rl_peer B2 = Some peer" "same_endpoint peer from'" using pa by (auto simp: peer_at_def)
  have mir: "mirrored (s_keys (rl_session B2)) (s_keys (rl_session A3))" using s(6) a(5,6) by (auto simp: mirrored_def)
  have l: "length q \<le> rl_mtu B2" "rl_mtu A3 = rl_mtu B2" using assms(9) m s(3) a(10,11) by simp_all
  obtain B3 r s4 A4 log3 where b: "on_tun_packet L e4 B2 q = ret (B3, [Udp_send r peer s4])"
      "on_datagram L e3 A3 r addr = ret (A4, log3 @ [Tun_write q])"
    using packet_delivered [OF assms(1) a(4,3) l(2) a(9,8) mir, unfolded a(7), OF zero peer(1) l(1) assms(11,6,5), of addr]
    by blast
  show ?thesis using h a(1,2) b peer(2) by blast
qed

theorem relay_end_to_end_witness:
  "\<exists>A1 m1 s1 B1 m2 s2 log1 A2 A3 d s3 B2 log2 B3 r peer s4 A4 log3.
    on_tun_packet demo_lib demo_env (demo_relay Initiator 7 8 (Some (demo_address 1))) [1] =
      ret (A1, [Udp_send m1 (demo_address 1) s1]) \<and>
    on_datagram demo_lib demo_env (demo_relay Responder 8 7 None) m1 (demo_address 2) =
      ret (B1, Udp_send m2 (demo_address 2) s2 # log1) \<and>
    on_datagram demo_lib demo_env A1 m2 (demo_address 1) = ret (A2, [Log_established (demo_address 1)]) \<and>
    on_tun_packet demo_lib demo_env A2 demo_packet = ret (A3, [Udp_send d (demo_address 1) s3]) \<and>
    on_datagram demo_lib demo_env B1 d (demo_address 3) = ret (B2, log2 @ [Tun_write demo_packet]) \<and>
    on_tun_packet demo_lib demo_env B2 demo_packet = ret (B3, [Udp_send r peer s4]) \<and> same_endpoint peer (demo_address 3) \<and>
    on_datagram demo_lib demo_env A3 r (demo_address 1) = ret (A4, log3 @ [Tun_write demo_packet])"
  by (rule relay_end_to_end [OF demo_crypto_ok demo_relays_talk demo_env_ok demo_env_ok demo_env_ok demo_env_ok _ _ _
        demo_packet_ok(1) demo_packet_ok(1)])
    (simp_all add: demo_relay_mtu demo_packet_ok first_guard_accept)

section \<open>Runs of the relay\<close>

text \<open>
  What the event loop does is a sequence of steps, one per packet of the device or datagram of the
  socket; a run keeps the output of every step.
\<close>

datatype relay_event = Ev_tun step_env bytes | Ev_udp step_env bytes sockaddr_in

fun relay_step :: "'s crypto_lib \<Rightarrow> relay \<Rightarrow> relay_event \<Rightarrow> (relay \<times> relay_out list) io" where
  "relay_step L st (Ev_tun env p) = on_tun_packet L env st p"
| "relay_step L st (Ev_udp env d from) = on_datagram L env st d from"

fun relay_run :: "'s crypto_lib \<Rightarrow> relay \<Rightarrow> relay_event list \<Rightarrow> (relay \<times> relay_out list list) io" where
  "relay_run L st [] = ret (st, [])"
| "relay_run L st (e # es) =
     bindI (relay_step L st e) (\<lambda>(st, out). bindI (relay_run L st es) (\<lambda>(st, outs). ret (st, out # outs)))"

lemma ret_eq [simp]: "ret x = ret y \<longleftrightarrow> x = y" "Some (Inr x) = ret y \<longleftrightarrow> x = y" "throw e \<noteq> ret y" "ret y \<noteq> throw e" "None \<noteq> ret y" "ret y \<noteq> None"
  by (simp_all add: ret_def throw_def)

lemma bindI_eq_ret [simp]: "bindI m f = ret y \<longleftrightarrow> (\<exists>x. m = ret x \<and> f x = ret y)"
  by (auto simp: bindI_def ret_def split: option.splits sum.splits)

text \<open>A packet of the device fits the interface: the read buffer holds no more than the MTU.\<close>

fun event_fits :: "nat \<Rightarrow> relay_event \<Rightarrow> bool" where
  "event_fits mtu (Ev_tun env p) = (length p \<le> mtu)"
| "event_fits mtu (Ev_udp env d from) = True"

lemma start_handshake_mtu: "holds (\<lambda>r. rl_mtu (fst r) = rl_mtu st) (start_handshake L env st)"
  unfolding start_handshake_def by (auto simp: Let_def intro!: holds_calls split: option.splits Role.splits)

lemma relay_step_mtu: "relay_step L st e = ret (st', out) \<Longrightarrow> rl_mtu st' = rl_mtu st"
proof -
  have "holds (\<lambda>r. rl_mtu (fst r) = rl_mtu st) (on_tun_packet L env st p)" for env p
    using start_handshake_mtu [of "bump f (st\<lparr>rl_tun_buffer := b\<rparr>)" for f b]
    by (auto simp: on_tun_packet_def Let_def intro!: holds_calls split: option.splits)
  moreover have "holds (\<lambda>r. rl_mtu (fst r) = rl_mtu st) (on_initiation L env st d from)" for env d "from"
    by (auto simp: on_initiation_def Let_def update_endpoint_mtu intro!: holds_calls split: option.splits)
  moreover have "holds (\<lambda>r. rl_mtu (fst r) = rl_mtu st) (on_response L st d from)" for d "from"
    by (auto simp: on_response_def Let_def intro!: holds_calls split: option.splits Role.splits)
  moreover have "holds (\<lambda>r. rl_mtu (fst r) = rl_mtu st) (on_transport L env st t d from)" for env t d "from"
    by (auto simp: on_transport_def Let_def split_beta update_endpoint_mtu intro!: holds_calls split: option.splits)
  ultimately show "relay_step L st e = ret (st', out) \<Longrightarrow> rl_mtu st' = rl_mtu st"
    by (cases e) (fastforce simp: on_datagram_def dest: holdsD split: if_splits option.splits message.splits)+
qed

text \<open>
  A run explains what the loop did: same final state, same packets sent and written, in the same
  order (the loop reports signals as well).
\<close>

definition explains :: "'s crypto_lib \<Rightarrow> relay \<Rightarrow> relay \<Rightarrow> relay_out list \<Rightarrow> bool" where
  "explains L st st' out \<longleftrightarrow>
     (\<exists>es outs. relay_run L st es = ret (st', outs) \<and> list_all (event_fits (rl_mtu st)) es \<and>
        filter (\<lambda>x. \<not> (\<exists>n. x = Log_signal n)) out = filter (\<lambda>x. \<not> (\<exists>n. x = Log_signal n)) (concat outs))"

lemma relay_run_append: "relay_run L st es = ret (st1, outs1) \<Longrightarrow> relay_run L st1 es' = ret (st2, outs2) \<Longrightarrow>
    relay_run L st (es @ es') = ret (st2, outs1 @ outs2)"
  by (induction es arbitrary: st outs1) (auto simp: split_beta)

lemma relay_run_mtu: "relay_run L st es = ret (st', outs) \<Longrightarrow> rl_mtu st' = rl_mtu st"
  by (induction es arbitrary: st outs) (auto simp: split_beta dest!: relay_step_mtu)

lemma explains_refl: "explains L st st []"
  unfolding explains_def by (intro exI [of _ "[]"]) simp

lemma explains_step: "relay_step L st e = ret (st', out) \<Longrightarrow> event_fits (rl_mtu st) e \<Longrightarrow> explains L st st' out"
  unfolding explains_def by (intro exI [of _ "[e]"]) simp

lemma explains_trans: "explains L st st1 out1 \<Longrightarrow> explains L st1 st2 out2 \<Longrightarrow> explains L st st2 (out1 @ out2)"
  unfolding explains_def by (metis (no_types, lifting) relay_run_append relay_run_mtu list_all_append concat_append filter_append)

lemma explains_signal: "explains L st st' out \<Longrightarrow> explains L st st' (Log_signal n # out)"
  by (simp add: explains_def)

lemma read_packet_fits: "map_option fst (read_packet name n ks) = ret (Some p) \<Longrightarrow> length p \<le> n"
  by (induction name n ks rule: read_packet.induct) (auto simp: ret_def split: if_splits)

lemma tun_drain_explained: "tun_drain L st rounds = ret (st', out) \<Longrightarrow> explains L st st' out"
proof (induction L st rounds arbitrary: st' out rule: tun_drain.induct)
  case (2 L st reads env rounds)
  then obtain packet where r: "map_option fst (read_packet (rl_tun_name st) (rl_mtu st) reads) = ret packet" by auto
  show ?case
  proof (cases packet)
    case None
    with 2(2) r show ?thesis by (auto simp: explains_refl)
  next
    case (Some p)
    with 2(2) r obtain st1 out1 out2 where s: "on_tun_packet L env st p = ret (st1, out1)"
      "tun_drain L st1 rounds = ret (st', out2)" "out = out1 @ out2" by auto
    with explains_step [of L st "Ev_tun env p"] read_packet_fits [OF r [unfolded Some]]
      explains_trans 2(1) [OF s(2)] show ?thesis by simp
  qed
qed simp

lemma udp_drain_explained: "udp_drain L st rounds = ret (st', out) \<Longrightarrow> explains L st st' out"
proof (induction L st rounds arbitrary: st' out rule: udp_drain.induct)
  case (2 L st recvs env rounds)
  then obtain received where
    r: "map_option fst (recv_from (unat (max_datagram (of_nat (rl_mtu st)) + 1)) recvs) = ret received" by auto
  show ?case
  proof (cases received)
    case None
    with 2(2) r show ?thesis by (auto simp: explains_refl)
  next
    case (Some x)
    obtain d a where x: "x = (d, a)" by fastforce
    with Some 2(2) r obtain st1 out1 out2 where s: "on_datagram L env st d a = ret (st1, out1)"
      "udp_drain L st1 rounds = ret (st', out2)" "out = out1 @ out2" by auto
    with explains_step [of L st "Ev_udp env d a"] explains_trans 2(1) [OF s(2)] show ?thesis by simp
  qed
qed simp

lemma handle_events_explained: "handle_events L st running evs = ret (st', running', out) \<Longrightarrow> explains L st st' out"
  by (induction L st running evs arbitrary: st' running' out rule: handle_events.induct)
    (auto simp: explains_refl intro: explains_trans tun_drain_explained udp_drain_explained explains_signal split: option.splits)

lemma event_loop_explained: "event_loop L st answers = ret (st', out) \<Longrightarrow> explains L st st' out"
  by (induction L st answers arbitrary: st' out rule: event_loop.induct)
    (auto intro: explains_trans dest: handle_events_explained split: if_splits)

definition demo_setup :: relay_setup where
  "demo_setup = \<lparr>su_sigprocmask = Sys_ok (), su_signalfd = Sys_ok 4, su_epoll_create1 = Sys_ok 5,
     su_add_tun = Sys_ok (), su_add_sock = Sys_ok (), su_add_signal = Sys_ok ()\<rparr>"

definition demo_config :: RelayConfig where
  "demo_config = \<lparr>rc_mtu = 1420, rc_role = Initiator, rc_peer = Some (demo_address 1), rc_identity = Some (demo_identity 7 8)\<rparr>"



section \<open>The relay keeps running\<close>

text \<open>What a sequence of answers to a read amounts to: a datum, nothing for now, or a failure.\<close>

fun outcome :: "int set \<Rightarrow> 'a syscall list \<Rightarrow> 'a option option" where
  "outcome E [] = None"
| "outcome E (Sys_ok x # ks) = Some (Some x)"
| "outcome E (Sys_err e # ks) = (if e = EINTR then outcome E ks else if e \<in> E then Some None else None)"

lemma read_packet_outcome:
  "outcome {EAGAIN} ks = Some v \<Longrightarrow> map_option fst (read_packet name n ks) = ret (map_option (take n) v)"
  by (induction name n ks rule: read_packet.induct) (auto simp: ret_def split: if_splits)

lemma recv_from_outcome:
  "outcome {EAGAIN, ECONNREFUSED, ENETUNREACH, EHOSTUNREACH} ks = Some v \<Longrightarrow>
   map_option fst (recv_from n ks) = ret (map_option (map_prod (take n) id) v)"
  by (induction n ks rule: recv_from.induct) (auto simp: ret_def split: if_splits)

text \<open>The reads of one burst: none fails, and the last one finds nothing.\<close>

fun drained :: "int set \<Rightarrow> ('a syscall list \<times> step_env) list \<Rightarrow> bool" where
  "drained E [] = False"
| "drained E ((ks, env) # rounds) =
     (case outcome E ks of None \<Rightarrow> False | Some None \<Rightarrow> True | Some (Some x) \<Rightarrow> env_ok env \<and> drained E rounds)"

lemma tun_drain_returns:
  assumes "crypto_ok L" and "relay_ok L st hist" and "drained {EAGAIN} rounds"
  shows "\<exists>st' out. tun_drain L st rounds = ret (st', out) \<and> relay_ok L st' hist"
  using assms(2,3)
proof (induction rounds arbitrary: st)
  case (Cons r rounds)
  obtain ks env where r: "r = (ks, env)" by fastforce
  with Cons(3) obtain v where v: "outcome {EAGAIN} ks = Some v" by (auto split: option.splits)
  note rd = read_packet_outcome [OF v, of "rl_tun_name st" "rl_mtu st"]
  show ?case
  proof (cases v)
    case (Some p)
    with Cons(3) r v have e: "env_ok env" "drained {EAGAIN} rounds" by simp_all
    from on_tun_packet_returns [OF assms(1) Cons(2) e(1), of "take (rl_mtu st) p"] obtain st1 out1
      where "on_tun_packet L env st (take (rl_mtu st) p) = ret (st1, out1)" "relay_ok L st1 hist" by auto
    with Cons(1) [OF _ e(2), of st1] r rd Some show ?thesis by fastforce
  qed (use r rd Cons(2) in simp)
qed simp

lemma udp_drain_returns:
  assumes "crypto_ok L" and "aead_authentic L" and "relay_ok L st hist"
    and "drained {EAGAIN, ECONNREFUSED, ENETUNREACH, EHOSTUNREACH} rounds"
  shows "\<exists>st' out hist'. udp_drain L st rounds = ret (st', out) \<and> relay_ok L st' hist'"
  using assms(3,4)
proof (induction rounds arbitrary: st hist)
  case (Cons r rounds)
  obtain ks env where r: "r = (ks, env)" by fastforce
  with Cons(3) obtain v where v: "outcome {EAGAIN, ECONNREFUSED, ENETUNREACH, EHOSTUNREACH} ks = Some v" by (auto split: option.splits)
  note rd = recv_from_outcome [OF v, of "unat (max_datagram (of_nat (rl_mtu st)) + 1)"]
  show ?case
  proof (cases v)
    case None
    with r rd Cons(2) show ?thesis by auto
  next
    case (Some x)
    obtain d a where x: "x = (d, a)" by fastforce
    with Some Cons(3) r v have e: "env_ok env" "drained {EAGAIN, ECONNREFUSED, ENETUNREACH, EHOSTUNREACH} rounds" by simp_all
    let ?d = "take (unat (max_datagram (of_nat (rl_mtu st)) + 1)) d"
    from on_datagram_returns [OF assms(1,2) Cons(2) e(1), of ?d a] obtain st1 out1 hist1
      where s: "on_datagram L env st ?d a = ret (st1, out1)" "relay_ok L st1 hist1" by auto
    from Cons(1) [OF s(2) e(2)] obtain st2 out2 hist2 where "udp_drain L st1 rounds = ret (st2, out2)" "relay_ok L st2 hist2" by blast
    with s(1) r rd Some x show ?thesis by simp blast
  qed
qed simp

fun burst_ok :: "ready \<Rightarrow> bool" where
  "burst_ok (Tun_ready rounds) = drained {EAGAIN} rounds"
| "burst_ok (Udp_ready rounds) = drained {EAGAIN, ECONNREFUSED, ENETUNREACH, EHOSTUNREACH} rounds"
| "burst_ok (Signal_ready sig) = True"
| "burst_ok Other_ready = True"

fun is_signal :: "ready \<Rightarrow> bool" where
  "is_signal (Signal_ready sig) = True"
| "is_signal _ = False"

lemma handle_events_returns:
  assumes "crypto_ok L" and "aead_authentic L" and "relay_ok L st hist" and "list_all burst_ok evs"
  shows "\<exists>st' out hist'. handle_events L st running evs = ret (st', running \<and> \<not> list_ex is_signal evs, out) \<and> relay_ok L st' hist'"
  using assms(3,4)
proof (induction evs arbitrary: st running hist)
  case (Cons e evs)
  show ?case
  proof (cases e)
    case (Tun_ready rounds)
    then obtain st1 out1 where t: "tun_drain L st rounds = ret (st1, out1)" "relay_ok L st1 hist"
      using tun_drain_returns [OF assms(1) Cons(2), of rounds] Cons(3) by auto
    with Cons(1) [OF t(2), of running] Cons(3) Tun_ready show ?thesis by fastforce
  next
    case (Udp_ready rounds)
    then obtain st1 out1 hist1 where t: "udp_drain L st rounds = ret (st1, out1)" "relay_ok L st1 hist1"
      using udp_drain_returns [OF assms(1,2) Cons(2), of rounds] Cons(3) by auto
    with Cons(1) [OF t(2), of running] Cons(3) Udp_ready show ?thesis by fastforce
  next
    case (Signal_ready sig)
    with Cons(1) [OF Cons(2), of False] Cons(3) show ?thesis by fastforce
  next
    case Other_ready
    with Cons(1) [OF Cons(2), of running] Cons(3) show ?thesis by fastforce
  qed
qed auto

text \<open>The answers of \<open>epoll_wait\<close>: interruptions and bursts without failure, and a signal at some point.\<close>

fun stopped_by_signal :: "epoll_answer list \<Rightarrow> bool" where
  "stopped_by_signal [] = False"
| "stopped_by_signal (Epoll_error e # answers) = (e = EINTR \<and> stopped_by_signal answers)"
| "stopped_by_signal (Epoll_ready evs # answers) =
     (list_all burst_ok evs \<and> (list_ex is_signal evs \<or> stopped_by_signal answers))"

lemma event_loop_returns:
  assumes "crypto_ok L" and "aead_authentic L" and "relay_ok L st hist" and "stopped_by_signal answers"
  shows "\<exists>st' out. event_loop L st answers = ret (st', out)"
  using assms(3,4)
proof (induction answers arbitrary: st hist rule: stopped_by_signal.induct)
  case (3 evs answers)
  from 3(3) have "list_all burst_ok evs" by simp
  from handle_events_returns [OF assms(1,2) 3(2) this, of True] obtain st1 out1 hist1 where
    h: "handle_events L st True evs = ret (st1, \<not> list_ex is_signal evs, out1)" "relay_ok L st1 hist1" by auto
  with 3(1) [OF h(2)] 3(3) show ?case by (cases "list_ex is_signal evs") fastforce+
qed simp_all

definition setup_ok :: "relay_setup \<Rightarrow> bool" where
  "setup_ok setup \<longleftrightarrow> (\<exists>sfd efd. setup = \<lparr>su_sigprocmask = Sys_ok (), su_signalfd = Sys_ok sfd, su_epoll_create1 = Sys_ok efd,
     su_add_tun = Sys_ok (), su_add_sock = Sys_ok (), su_add_signal = Sys_ok ()\<rparr>)"


text \<open>A packet of the device, a datagram that is no message, an interruption, and SIGINT.\<close>

definition demo_answers :: "epoll_answer list" where
  "demo_answers =
     [Epoll_ready [Tun_ready [([Sys_ok demo_packet], demo_env), ([Sys_err EAGAIN], demo_env)],
                   Udp_ready [([Sys_ok ([1, 2, 3], demo_address 2)], demo_env), ([Sys_err EINTR, Sys_err EAGAIN], demo_env)]],
      Epoll_error EINTR,
      Epoll_ready [Signal_ready (Some 2)]]"


section \<open>Forged traffic\<close>

lemma same_but_stats_eq: "same_but_stats st st' \<Longrightarrow> st' = st\<lparr>rl_stats := rl_stats st'\<rparr>"
proof -
  assume "same_but_stats st st'"
  then have "st = st'\<lparr>rl_stats := rl_stats st\<rparr>" by (simp add: same_but_stats_def)
  then have "st\<lparr>rl_stats := rl_stats st'\<rparr> = st'\<lparr>rl_stats := rl_stats st, rl_stats := rl_stats st'\<rparr>" by (rule arg_cong)
  then show ?thesis by simp
qed

lemma same_but_stats_peer: "same_but_stats st st' \<Longrightarrow> rl_peer st' = rl_peer st"
  by (drule same_but_stats_eq) (erule ssubst, simp)

text \<open>
  C5: only genuine messages have an effect. A datagram that is neither a valid initiation newer than
  all before it, nor a valid response to the pending handshake, nor data of the session under a
  counter not used before, leaves no trace but in the statistics: nothing is sent, nothing is written
  to the device, and keys, counters, window, timestamp guard and peer address stay as they are.
\<close>

theorem forgeries_are_ignored:
  assumes "crypto_ok L" and "aead_authentic L" and "relay_ok L st hist" and "\<not> genuine L st hist d"
  shows "\<exists>stats. on_datagram L env st d from = ret (st\<lparr>rl_stats := stats\<rparr>, [])"
  using on_datagram_ignored [OF assms, of env "from"] same_but_stats_eq by (fastforce simp: ignored_def)

theorem forgeries_are_ignored_witness:
  "\<exists>stats. on_datagram demo_lib demo_env (demo_relay Responder 8 7 None) (replicate 148 1) (demo_address 3) =
     ret ((demo_relay Responder 8 7 None)\<lparr>rl_stats := stats\<rparr>, [])"
proof -
  let ?st = "demo_relay Responder 8 7 None"
  have d: "decode (replicate 148 1) = None" by (simp add: decode_def prefix_ok_def)
  then have "\<not> genuine demo_lib ?st {} (replicate 148 1)"
    using valid_initiation_decode [OF demo_crypto_ok demo_identity_wf [of 8 7]]
    by (fastforce simp: genuine_def genuine_initiation_def genuine_response_def genuine_data_def)
  then show ?thesis by (rule forgeries_are_ignored [OF demo_crypto_ok demo_aead_authentic demo_relay_ok])
qed

text \<open>
  C22: every datagram is counted once. Processing one increments exactly one of the counters that
  describe what became of a datagram; it never changes the role, and it changes the address of the
  peer only on a responder, only to the datagram's source, and only for a genuine message.
\<close>

theorem datagram_accounted_once:
  assumes "crypto_ok L" and "aead_authentic L" and "relay_ok L st hist" and "on_datagram L env st d from = ret (st', out)"
  shows "disposed (rl_stats st') = disposed (rl_stats st) + 1 \<and> rl_role st' = rl_role st \<and>
    (rl_peer st' = rl_peer st \<or> rl_role st = Responder \<and> rl_peer st' = Some from \<and> genuine L st hist d)"
  using holdsD [OF on_datagram_effect assms(4)] on_datagram_ignored [OF assms(1-3), of d env "from"] assms(4)
    same_but_stats_peer by (fastforce simp: effect_def ignored_def)

theorem datagram_accounted_once_witness:
  "\<exists>st'. on_datagram demo_lib demo_env (demo_relay Responder 8 7 None) [] (demo_address 3) = ret (st', []) \<and>
     disposed (rl_stats st') = disposed (rl_stats (demo_relay Responder 8 7 None)) + 1"
proof -
  let ?st = "demo_relay Responder 8 7 None"
  have r: "on_datagram demo_lib demo_env ?st [] (demo_address 3) = ret (bump (rs_dropped_malformed_update inc) ?st, [])"
    by (simp add: on_datagram_def decode_def)
  from datagram_accounted_once [OF demo_crypto_ok demo_aead_authentic demo_relay_ok r] r show ?thesis by blast
qed

section \<open>Replayed traffic\<close>

lemma on_transport_step:
  assumes "crypto_ok L" and "aead_authentic L" and "relay_ok L st hist" and "decode d = Some (Msg_Transport t)"
    and "on_transport L env st t d from = ret (st', out)"
  shows "relay_ok L st' hist \<and> out = [] \<or> relay_ok L st' (insert (td_counter t) hist) \<and> td_counter t \<notin> hist"
proof (cases "genuine_data L st hist d")
  case False
  from on_transport_ignored [OF assms(1-3) this assms(4), of env "from"] assms(3,5) show ?thesis
    by (auto simp: ignored_def dest: same_but_stats_ok)
next
  case True
  with assms(4) obtain P where g: "fresh hist (td_counter t)" "authentic L (rl_session st) (td_counter t) (td_sealed t) P"
    "td_receiver_index t = tk_local_index (s_keys (rl_session st))" by (auto simp: genuine_data_def)
  have w: "window_tracks (s_window (rl_session st)) hist" using assms(3) by (simp add: relay_ok_def)
  from session_open_authentic [OF crypto_okD(3) [OF assms(1)] w g(1,2)] obtain w' where
    o: "session_open L (rl_session st) (td_counter t) (drop 16 d) = Some ((rl_session st)\<lparr>s_window := w'\<rparr>, delivered P)"
      "window_tracks w' (insert (td_counter t) hist)"
    by (auto simp: decode_transport_sealed [OF assms(4)])
  have a: "s_active (rl_session st)" "replay_acceptable (rl_session st) (td_counter t)"
    using g(1,2) window.tracks_ok [OF w] by (simp_all add: authentic_def replay_acceptable_def)
  have "relay_ok L (st\<lparr>rl_session := (rl_session st)\<lparr>s_window := w'\<rparr>\<rparr>) (insert (td_counter t) hist)"
    using assms(3) o(2) by (simp add: relay_ok_def)
  then have "holds (\<lambda>r. relay_ok L (fst r) (insert (td_counter t) hist)) (on_transport L env st t d from)"
    using a g(3) o(1) by (auto simp: on_transport_def Let_def split_beta intro!: holds_calls split: option.splits)
  with assms(5) g(1) show ?thesis by (auto dest: holdsD simp: fresh_def)
qed

text \<open>The outside world in a step: randomness and descriptors work, and packets are no longer than the MTU.\<close>

fun sane_event :: "nat \<Rightarrow> relay_event \<Rightarrow> bool" where
  "sane_event mtu (Ev_tun env p) = (env_ok env \<and> length p \<le> mtu)"
| "sane_event mtu (Ev_udp env d from) = env_ok env"

text \<open>Events that leave the session in place: packets of the device and datagrams that are no handshake message.\<close>

fun no_handshake :: "relay_event \<Rightarrow> bool" where
  "no_handshake (Ev_tun env p) = True"
| "no_handshake (Ev_udp env d from) = (case decode d of Some (Msg_Initiation _) \<Rightarrow> False | Some (Msg_Response _) \<Rightarrow> False | _ \<Rightarrow> True)"

text \<open>The datagrams of a run whose content was written to the device.\<close>

fun written :: "relay_event \<Rightarrow> relay_out list \<Rightarrow> bytes list" where
  "written (Ev_udp env d from) out = (if \<exists>p. Tun_write p \<in> set out then [d] else [])"
| "written (Ev_tun env p) out = []"

definition delivered_datagrams :: "relay_event list \<Rightarrow> relay_out list list \<Rightarrow> bytes list" where
  "delivered_datagrams es outs = concat (map2 written es outs)"

definition counter_of :: "bytes \<Rightarrow> u64 option" where
  "counter_of d = (case decode d of Some (Msg_Transport t) \<Rightarrow> Some (td_counter t) | _ \<Rightarrow> None)"

lemma relay_step_counters:
  assumes "crypto_ok L" and "aead_authentic L" and "relay_ok L st hist" and "relay_step L st e = ret (st', out)"
    and "no_handshake e" and "sane_event (rl_mtu st) e"
  shows "\<exists>hist'. relay_ok L st' hist' \<and> hist \<subseteq> hist' \<and>
    (\<forall>d \<in> set (written e out). \<exists>c. counter_of d = Some c \<and> c \<notin> hist \<and> c \<in> hist')"
proof (cases e)
  case (Ev_tun env p)
  with on_tun_packet_returns [OF assms(1,3), of env p] assms(4,6) show ?thesis by auto
next
  case (Ev_udp env d a)
  then have r: "on_datagram L env st d a = ret (st', out)" using assms(4) by simp
  show ?thesis
  proof (cases "\<exists>t. decode d = Some (Msg_Transport t) \<and> on_transport L env st t d a = ret (st', out)")
    case True
    then obtain t where t: "decode d = Some (Msg_Transport t)" "on_transport L env st t d a = ret (st', out)" by blast
    from on_transport_step [OF assms(1-3) t] show ?thesis
      by (rule disjE) (use Ev_udp t(1) in \<open>auto simp: counter_of_def\<close>)
  next
    case False
    with r assms(5) Ev_udp have "ignored st (ret (st', out))"
      by (auto simp: on_datagram_def split: if_splits option.splits message.splits)
    with assms(3) Ev_udp show ?thesis by (auto simp: ignored_def dest: same_but_stats_ok)
  qed
qed

lemma delivered_Nil [simp]: "delivered_datagrams [] outs = []"
  by (simp add: delivered_datagrams_def)

lemma delivered_Cons [simp]: "delivered_datagrams (e # es) (out # outs) = written e out @ delivered_datagrams es outs"
  by (simp add: delivered_datagrams_def)

lemma relay_run_counters:
  assumes "crypto_ok L" and "aead_authentic L" and "relay_ok L st hist" and "relay_run L st es = ret (st', outs)"
    and "list_all no_handshake es" and "list_all (sane_event (rl_mtu st)) es"
  shows "distinct (map counter_of (delivered_datagrams es outs)) \<and>
    (\<forall>d \<in> set (delivered_datagrams es outs). \<exists>c. counter_of d = Some c \<and> c \<notin> hist)"
  using assms(3-6)
proof (induction es arbitrary: st hist outs)
  case (Cons e es)
  then obtain st1 out1 outs1 where s: "relay_step L st e = ret (st1, out1)" "relay_run L st1 es = ret (st', outs1)"
    "outs = out1 # outs1" by auto
  from relay_step_counters [OF assms(1,2) Cons(2) s(1)] Cons(4,5) obtain hist1 where
    h: "relay_ok L st1 hist1" "hist \<subseteq> hist1" "\<forall>d \<in> set (written e out1). \<exists>c. counter_of d = Some c \<and> c \<notin> hist \<and> c \<in> hist1"
    by auto
  have ih: "distinct (map counter_of (delivered_datagrams es outs1))"
      "\<forall>d \<in> set (delivered_datagrams es outs1). \<exists>c. counter_of d = Some c \<and> c \<notin> hist1"
    using Cons(1) [OF h(1) s(2)] Cons(4,5) relay_step_mtu [OF s(1)] by auto
  have w: "distinct (map counter_of (written e out1))" by (cases e) simp_all
  have "counter_of ` set (written e out1) \<inter> counter_of ` set (delivered_datagrams es outs1) = {}"
    using h(3) ih(2) by (fastforce)
  with ih w h(2,3) s(3) show ?case by (fastforce)
qed simp


lemma relay_run_returns:
  assumes "crypto_ok L" and "aead_authentic L" and "relay_ok L st hist" and "list_all (sane_event (rl_mtu st)) es"
  shows "\<exists>st' outs. relay_run L st es = ret (st', outs)"
  using assms(3,4)
proof (induction es arbitrary: st hist)
  case (Cons e es)
  from Cons(2,3) obtain st1 out1 hist1 where s: "relay_step L st e = ret (st1, out1)" "relay_ok L st1 hist1"
    using on_tun_packet_returns [OF assms(1) Cons(2)] on_datagram_returns [OF assms(1,2) Cons(2)]
    by (cases e) (simp, blast)+
  from Cons(1) [OF s(2)] Cons(3) relay_step_mtu [OF s(1)] obtain st2 outs where "relay_run L st1 es = ret (st2, outs)" by auto
  with s(1) show ?case by simp
qed simp

definition demo_peer :: relay where
  "demo_peer = (demo_relay Responder 8 7 (Some (demo_address 1)))\<lparr>rl_session := demo_session (demo_keys 1 2 3 4)\<rparr>"

definition demo_datagram :: bytes where
  "demo_datagram = transport_layout (sealed_packet demo_lib (demo_keys 2 1 4 3) 0 demo_packet)"

lemma demo_peer_ok: "relay_ok demo_lib demo_peer {}" "rl_mtu demo_peer = 1420"
  using demo_relay_ok [of Responder 8 7 "Some (demo_address 1)"] window.tracks_start
  by (simp_all add: demo_peer_def relay_ok_def demo_relay_mtu)

lemma demo_datagram_decode:
  "decode demo_datagram = Some (Msg_Transport (sealed_packet demo_lib (demo_keys 2 1 4 3) 0 demo_packet))"
  unfolding demo_datagram_def using wf_sealed_packet [OF crypto_okD(3) [OF demo_crypto_ok]] by (rule decode_transport_layout)


section \<open>Handshakes are rate limited\<close>

fun event_time :: "relay_event \<Rightarrow> u64" where
  "event_time (Ev_tun env p) = monotonic_ns (se_mono env)"
| "event_time (Ev_udp env d from) = monotonic_ns (se_mono env)"

definition sends_initiation :: "relay_out list \<Rightarrow> bool" where
  "sends_initiation out \<longleftrightarrow> (\<exists>m a s i. Udp_send m a s \<in> set out \<and> decode m = Some (Msg_Initiation i))"

definition initiation_times :: "relay_event list \<Rightarrow> relay_out list list \<Rightarrow> u64 list" where
  "initiation_times es outs = concat (map2 (\<lambda>e out. if sends_initiation out then [event_time e] else []) es outs)"

definition due :: "u64 \<Rightarrow> u64 \<Rightarrow> bool" where
  "due before now \<longleftrightarrow> before = 0 \<or> kHandshakeRetryNs \<le> now - before"

text \<open>The rate limit in one step.\<close>

definition limited :: "relay \<Rightarrow> u64 \<Rightarrow> relay \<times> relay_out list \<Rightarrow> bool" where
  "limited st now r \<longleftrightarrow> rl_role (fst r) = rl_role st \<and>
     (if sends_initiation (snd r) then rl_last_initiation_ns (fst r) = now \<and> due (rl_last_initiation_ns st) now
      else rl_last_initiation_ns (fst r) \<in> {rl_last_initiation_ns st, now})"

lemma sends_nothing [simp]: "\<not> sends_initiation []"
  by (simp add: sends_initiation_def)

lemma start_handshake_limited: "holds (limited st (monotonic_ns (se_mono env))) (start_handshake L env st)"
  unfolding start_handshake_def
  by (auto simp: Let_def limited_def due_def not_less intro!: holds_calls split: option.splits Role.splits)

lemma update_endpoint_last [simp]: "rl_last_initiation_ns (fst (update_endpoint from st)) = rl_last_initiation_ns st"
  by (auto simp: update_endpoint_def split: option.split)

lemma on_datagram_limited:
  assumes "rl_role st = Initiator"
  shows "holds (limited st now) (on_datagram L env st d from)"
  using assms unfolding on_datagram_def on_initiation_def on_response_def on_transport_def
  by (auto simp: Let_def split_beta limited_def sends_initiation_def intro!: holds_calls split: option.splits message.splits)

lemma on_tun_packet_limited:
  assumes "crypto_ok L" and "relay_ok L st hist" and "length p \<le> rl_mtu st"
  shows "holds (limited st (monotonic_ns (se_mono env))) (on_tun_packet L env st p)"
proof (cases "rl_peer st")
  case None
  then show ?thesis by (simp add: on_tun_packet_def Let_def limited_def)
next
  case (Some peer)
  show ?thesis
  proof (cases "s_active (rl_session st)")
    case True
    define d where "d = transport_layout (sealed_packet L (s_keys (rl_session st)) (s_send_counter (rl_session st)) p)"
    have "decode d = Some (Msg_Transport (sealed_packet L (s_keys (rl_session st)) (s_send_counter (rl_session st)) p))"
      unfolding d_def using wf_sealed_packet [OF crypto_okD(3) [OF assms(1)]] by (rule decode_transport_layout)
    then have "\<not> sends_initiation [Udp_send d a s]" for a s by (simp add: sends_initiation_def)
    with on_tun_packet_active [OF assms Some True refl refl, of env] show ?thesis
      by (auto simp: limited_def d_def intro!: holds_calls)
  next
    case False
    let ?st = "bump (rs_dropped_no_session_update inc) (st\<lparr>rl_tun_buffer := blit kTransportHeaderSize p (rl_tun_buffer st)\<rparr>)"
    have "limited ?st = limited st" by (simp add: limited_def fun_eq_iff)
    with start_handshake_limited [of ?st env L] Some False show ?thesis by (simp add: on_tun_packet_def Let_def)
  qed
qed

lemma relay_step_limited:
  assumes "crypto_ok L" and "aead_authentic L" and "relay_ok L st hist" and "relay_step L st e = ret (st', out)"
    and "sane_event (rl_mtu st) e" and "rl_role st = Initiator"
  shows "limited st (event_time e) (st', out) \<and> (\<exists>hist'. relay_ok L st' hist')"
proof (cases e)
  case (Ev_tun env p)
  then have r: "on_tun_packet L env st p = ret (st', out)" and e: "env_ok env" "length p \<le> rl_mtu st" using assms(4,5) by simp_all
  from on_tun_packet_returns [OF assms(1,3) e] r holdsD [OF on_tun_packet_limited [OF assms(1,3) e(2)] r] Ev_tun
  show ?thesis by auto
next
  case (Ev_udp env d a)
  then have r: "on_datagram L env st d a = ret (st', out)" and e: "env_ok env" using assms(4,5) by simp_all
  from on_datagram_returns [OF assms(1-3) e, of d a] r holdsD [OF on_datagram_limited [OF assms(6)] r] show ?thesis by auto
qed

lemma initiation_times_simps [simp]: "initiation_times [] outs = []"
  "initiation_times (e # es) (out # outs) = (if sends_initiation out then [event_time e] else []) @ initiation_times es outs"
  by (simp_all add: initiation_times_def)

definition later :: "u64 \<Rightarrow> u64 \<Rightarrow> bool" where
  "later t t' \<longleftrightarrow> unat t + 1000000000 \<le> unat t'"

lemma due_later: "due t t' \<Longrightarrow> t \<noteq> 0 \<Longrightarrow> t \<le> t' \<Longrightarrow> later t t'"
  by (simp add: due_def later_def kHandshakeRetryNs_def word_le_nat_alt unat_sub)

lemma relay_run_limited:
  assumes "crypto_ok L" and "aead_authentic L" and "relay_ok L st hist" and "relay_run L st es = ret (st', outs)"
    and "list_all (sane_event (rl_mtu st)) es" and "rl_role st = Initiator"
    and "sorted (rl_last_initiation_ns st # map event_time es)" and "0 \<notin> set (map event_time es)"
  shows "sorted_wrt later (initiation_times es outs) \<and>
    (\<forall>t \<in> set (initiation_times es outs). rl_last_initiation_ns st = 0 \<or> later (rl_last_initiation_ns st) t)"
  using assms(3-8)
proof (induction es arbitrary: st hist outs)
  case (Cons e es)
  let ?l = "rl_last_initiation_ns st"
  from Cons(3) obtain st1 out1 outs1 where s: "relay_step L st e = ret (st1, out1)" "relay_run L st1 es = ret (st', outs1)"
    "outs = out1 # outs1" by auto
  from relay_step_limited [OF assms(1,2) Cons(2) s(1) _ Cons(5)] Cons(4) obtain hist1 where
    lim: "limited st (event_time e) (st1, out1)" and h: "relay_ok L st1 hist1" by auto
  let ?l1 = "rl_last_initiation_ns st1"
  have l1: "?l1 \<in> {?l, event_time e}" "rl_role st1 = Initiator" using lim Cons(5) by (auto simp: limited_def split: if_splits)
  have ih: "sorted_wrt later (initiation_times es outs1)" "\<forall>t \<in> set (initiation_times es outs1). ?l1 = 0 \<or> later ?l1 t"
    using Cons(1) [OF h s(2) _ l1(2)] Cons(4,6,7) relay_step_mtu [OF s(1)] l1(1) by auto
  have t: "event_time e \<noteq> 0" "?l \<le> event_time e" using Cons(6,7) by auto
  have tr: "later ?l x" if "later (event_time e) x" for x using that t(2) by (simp add: later_def word_le_nat_alt)
  show ?case
  proof (cases "sends_initiation out1")
    case True
    with lim have "?l1 = event_time e" "?l = 0 \<or> later ?l (event_time e)" using t due_later by (auto simp: limited_def)
    with True ih t(1) tr s(3) show ?thesis by auto
  next
    case False
    with ih l1(1) t(1) tr s(3) show ?thesis by auto
  qed
qed simp

text \<open>
  C21: an initiator sends at most one initiation per second, whatever traffic asks for one and whatever
  the network delivers: with a clock that does not go backwards, any two initiations of a run are at
  least \<open>kHandshakeRetryNs\<close> apart.
\<close>

theorem handshakes_rate_limited:
  assumes "crypto_ok L" and "aead_authentic L" and "rc_role config = Initiator" and "wf_Identity L identity"
    and "0 \<le> rc_mtu config" and "rc_mtu config \<le> 1500"
    and "relay_run L (relay_init name config identity) es = ret (st', outs)"
    and "list_all (sane_event (nat (rc_mtu config))) es"
    and "sorted (map event_time es)" and "0 \<notin> set (map event_time es)"
  shows "sorted_wrt (\<lambda>t t'. unat t + unat kHandshakeRetryNs \<le> unat t') (initiation_times es outs)"
proof -
  have "sorted_wrt later (initiation_times es outs)"
    using relay_run_limited [OF assms(1,2) _ assms(7)] relay_init_ok [OF assms(4-6), of name] assms(3,8-10) by auto
  then show ?thesis by (rule sorted_wrt_mono_rel [rotated]) (simp add: later_def kHandshakeRetryNs_def)
qed

theorem handshakes_rate_limited_witness:
  "\<exists>st' outs. relay_run demo_lib (relay_init ''tun0'' demo_config (demo_identity 7 8)) (replicate 2 (Ev_tun demo_env demo_packet)) =
       ret (st', outs) \<and>
     sorted_wrt (\<lambda>t t'. unat t + unat kHandshakeRetryNs \<le> unat t')
       (initiation_times (replicate 2 (Ev_tun demo_env demo_packet)) outs)"
proof -
  let ?es = "replicate 2 (Ev_tun demo_env demo_packet)" and ?st = "relay_init ''tun0'' demo_config (demo_identity 7 8)"
  have c: "rc_role demo_config = Initiator" "0 \<le> rc_mtu demo_config" "rc_mtu demo_config \<le> 1500" "rc_mtu demo_config = 1420"
    by (simp_all add: demo_config_def)
  have e: "list_all (sane_event (nat (rc_mtu demo_config))) ?es" "sorted (map event_time ?es)" "0 \<notin> set (map event_time ?es)"
    by (simp_all add: c(4) list_all_iff demo_env_ok demo_packet_ok) (simp add: demo_env_def monotonic_ns_def)
  note i = relay_init_ok [OF demo_identity_wf [of 7 8] c(2,3), of "''tun0''"]
  obtain st' outs where r: "relay_run demo_lib ?st ?es = ret (st', outs)"
    using relay_run_returns [OF demo_crypto_ok demo_aead_authentic conjunct1 [OF i], of ?es] e(1) i by auto
  with handshakes_rate_limited [OF demo_crypto_ok demo_aead_authentic c(1) demo_identity_wf c(2,3) r e] show ?thesis by blast
qed

section \<open>Packets of the device\<close>

text \<open>
  A packet read from the device while a session is up becomes exactly one datagram: the sealed
  packet under the session's current counter, to the current peer, and the counter moves on, so no two
  packets share one. Once the counters are used up the packet is dropped and counted, nothing is sent
  and the session does not change: exhaustion is the only reason for a session not to seal.
\<close>

theorem tun_packet_sealed_once:
  assumes "crypto_ok L" and "relay_ok L st hist" and "length p \<le> rl_mtu st" and "rl_peer st = Some peer"
    and "s_active (rl_session st)" and "env_ok env"
  shows "\<exists>st' out. on_tun_packet L env st p = ret (st', out) \<and> relay_ok L st' hist \<and>
    (if s_send_counter (rl_session st) < kRejectAfterMessages
     then (\<exists>sent. out = [Udp_send (transport_layout (sealed_packet L (s_keys (rl_session st))
                                 (s_send_counter (rl_session st)) p)) peer sent]) \<and>
       rl_session st' = (rl_session st)\<lparr>s_send_counter := s_send_counter (rl_session st) + 1\<rparr>
     else out = [] \<and> rl_session st' = rl_session st \<and>
       rs_dropped_counter_exhausted (rl_stats st') = rs_dropped_counter_exhausted (rl_stats st) + 1)"
proof -
  let ?s = "rl_session st"
  let ?d = "transport_layout (sealed_packet L (s_keys ?s) (s_send_counter ?s) p)"
  obtain st' out where r: "on_tun_packet L env st p = ret (st', out)" "relay_ok L st' hist"
    using on_tun_packet_returns [OF assms(1,2,6,3)] by blast
  obtain sent where "socket_send ?d (se_send env ?d) = ret sent" using env_send [OF assms(6)] by blast
  with on_tun_packet_active [OF assms(1-5) refl refl, of env] r show ?thesis
    by (auto simp: counter_usable_def split: if_splits)
qed

theorem tun_packet_sealed_once_witness:
  "\<exists>st' sent. on_tun_packet demo_lib demo_env demo_peer demo_packet =
     ret (st', [Udp_send (transport_layout (sealed_packet demo_lib (demo_keys 1 2 3 4) 0 demo_packet)) (demo_address 1) sent]) \<and>
     s_send_counter (rl_session st') = 1"
proof -
  have d: "rl_peer demo_peer = Some (demo_address 1)" "s_active (rl_session demo_peer)"
    "s_send_counter (rl_session demo_peer) = 0" "s_keys (rl_session demo_peer) = demo_keys 1 2 3 4"
    by (simp_all add: demo_peer_def)
  have l: "length demo_packet \<le> rl_mtu demo_peer" by (simp add: demo_peer_ok demo_packet_ok)
  from tun_packet_sealed_once [OF demo_crypto_ok demo_peer_ok(1) l d(1,2) demo_env_ok] show ?thesis
    by (auto simp: d kRejectAfterMessages_def word_greater_zero_iff)
qed

end
