(* ===== verification/Tunnel.thy ===== *)
theory Tunnel
  imports Relay_Protocol "HOL-Library.Multiset"
begin

text \<open>
  The tunnel as a whole: the relays of the two programs, each with its device, and a network between
  them that an attacker controls, as a transition system. A step of the system is a step of one relay,
  with the definitions of \<open>Relay\<close>, from the moment the two programs start: handshakes, retries and
  the sessions that replace each other are part of it. The properties are proved by induction over the
  reachable states.
\<close>

section \<open>Two sides and a network\<close>

fun sent_of :: "relay_out \<Rightarrow> bytes list" where
  "sent_of (Udp_send d to ok) = [d]"
| "sent_of x = []"

fun written_of :: "relay_out \<Rightarrow> bytes list" where
  "written_of (Tun_write p) = [p]"
| "written_of x = []"

definition datagrams :: "relay_out list \<Rightarrow> bytes list" where
  "datagrams out = concat (map sent_of out)"

definition packets :: "relay_out list \<Rightarrow> bytes list" where
  "packets out = concat (map written_of out)"

lemma outputs_simps [simp]:
  "datagrams [] = []" "datagrams (x # out) = sent_of x @ datagrams out" "datagrams (out @ out') = datagrams out @ datagrams out'"
  "packets [] = []" "packets (x # out) = written_of x @ packets out" "packets (out @ out') = packets out @ packets out'"
  by (simp_all add: datagrams_def packets_def)

abbreviation session_keys :: "relay \<Rightarrow> TransportKeys" where
  "session_keys st \<equiv> s_keys (rl_session st)"

text \<open>
  A side of the tunnel: its relay, the keys of the sessions it has established so far, the packets
  taken from the device, the datagrams sent, each with the session keys of that time, and the packets
  written to the device.
\<close>

record side =
  sd_relay :: relay
  sd_keys :: "TransportKeys set"
  sd_taken :: "bytes list"
  sd_sent :: "(TransportKeys \<times> bytes) list"
  sd_written :: "bytes list"

definition moved :: "side \<Rightarrow> relay \<Rightarrow> relay_out list \<Rightarrow> side" where
  "moved x r out = x\<lparr>sd_relay := r, sd_sent := sd_sent x @ map (Pair (session_keys (sd_relay x))) (datagrams out),
     sd_written := sd_written x @ packets out\<rparr>"

text \<open>
  What an attacker cannot make: transport data that verifies under the session's receiving key, unless
  the other side has sealed it under the keys that belong to this session.
\<close>

definition forged :: "'s crypto_lib \<Rightarrow> relay \<Rightarrow> (TransportKeys \<times> bytes) set \<Rightarrow> bytes \<Rightarrow> bool" where
  "forged L st other d \<longleftrightarrow>
     (\<exists>t P. decode d = Some (Msg_Transport t) \<and> authentic L (rl_session st) (td_counter t) (td_sealed t) P) \<and>
     \<not> (\<exists>k. (k, d) \<in> other \<and> mirrored k (session_keys st))"

fun handshake_message :: "bytes \<Rightarrow> bool" where
  "handshake_message d = (case decode d of Some (Msg_Initiation _) \<Rightarrow> True | Some (Msg_Response _) \<Rightarrow> True | _ \<Rightarrow> False)"

declare handshake_message.simps [simp del]

text \<open>A handshake message that is not answered or logged has established no session.\<close>

definition establishes :: "bytes \<Rightarrow> relay_out list \<Rightarrow> bool" where
  "establishes d out \<longleftrightarrow> handshake_message d \<and> out \<noteq> []"

text \<open>
  One side moves: it takes a packet from its device, or the network hands it a datagram. A session that
  a handshake establishes has a sending key that the side has not used before.
\<close>

inductive side_step :: "'s crypto_lib \<Rightarrow> (TransportKeys \<times> bytes) set \<Rightarrow> side \<Rightarrow> side \<Rightarrow> bool" for L other where
  takes: "\<lbrakk>on_tun_packet L env (sd_relay x) p = ret (r, out); env_ok env; ipv4_packet p; length p \<le> rl_mtu (sd_relay x)\<rbrakk> \<Longrightarrow>
    side_step L other x ((moved x r out)\<lparr>sd_taken := sd_taken x @ [p]\<rparr>)"
| gets: "\<lbrakk>on_datagram L env (sd_relay x) d from = ret (r, out); env_ok env; \<not> forged L (sd_relay x) other d; \<not> establishes d out\<rbrakk> \<Longrightarrow>
    side_step L other x (moved x r out)"
| rekeys: "\<lbrakk>on_datagram L env (sd_relay x) d from = ret (r, out); env_ok env; establishes d out; tk_send (session_keys r) \<notin> tk_send ` sd_keys x\<rbrakk> \<Longrightarrow>
    side_step L other x ((moved x r out)\<lparr>sd_keys := insert (session_keys r) (sd_keys x)\<rparr>)"

inductive tunnel_step :: "'s crypto_lib \<Rightarrow> side \<times> side \<Rightarrow> side \<times> side \<Rightarrow> bool" for L where
  left: "side_step L (set (sd_sent b)) a a' \<Longrightarrow> tunnel_step L (a, b) (a', b)"
| right: "side_step L (set (sd_sent a)) b b' \<Longrightarrow> tunnel_step L (a, b) (a, b')"

inductive_cases side_stepE: "side_step L other x y"
inductive_simps tunnel_step_simps: "tunnel_step L (a, b) s"

lemma moved_simps [simp]:
  "sd_relay (moved x r out) = r" "sd_keys (moved x r out) = sd_keys x" "sd_taken (moved x r out) = sd_taken x"
  "sd_sent (moved x r out) = sd_sent x @ map (Pair (session_keys (sd_relay x))) (datagrams out)"
  "sd_written (moved x r out) = sd_written x @ packets out"
  by (simp_all add: moved_def)

section \<open>What the relays send\<close>

definition is_data :: "bytes \<Rightarrow> bool" where
  "is_data d \<longleftrightarrow> (\<exists>t. decode d = Some (Msg_Transport t))"

definition no_data :: "relay_out list \<Rightarrow> bool" where
  "no_data out \<longleftrightarrow> (\<forall>m \<in> set (datagrams out). \<not> is_data m)"

lemma not_data [simp]: "decode d = Some (Msg_Initiation i) \<Longrightarrow> \<not> is_data d" "decode d = Some (Msg_Response r) \<Longrightarrow> \<not> is_data d"
  by (simp_all add: is_data_def)

lemma write_initiation_message:
  assumes "crypto_ok L" and "wf_Handshake L hs" and "length rk = 32"
    and "write_initiation L ri rk now hs out = Inr (hs', out', Some m)"
  shows "\<exists>i. decode m = Some (Msg_Initiation i)"
proof (cases "length out < 148 \<or> dh L (clamp rk) (id_peer_public (hs_identity hs)) = None \<or>
         dh L (id_private_key (hs_identity hs)) (id_peer_public (hs_identity hs)) = None")
  case True
  with write_initiation_fails [OF assms(1-3) refl True, of ri now] assms(4) show ?thesis by auto
next
  case False
  then obtain es ss where d: "dh L (clamp rk) (id_peer_public (hs_identity hs)) = Some es"
      "dh L (id_private_key (hs_identity hs)) (id_peer_public (hs_identity hs)) = Some ss" "148 \<le> length out" by auto
  note ok = crypto_okD [OF assms(1)]
  have "wf_HandshakeInitiation (wp_initiation L (random_index ri) (id_peer_public (hs_identity hs)) (snd (scalarmult_base L (clamp rk))) es ss
      (id_public_key (hs_identity hs)) (timestamp now) (replicate 16 0))"
    using ok assms(3) wf_HandshakeD [OF assms(2) refl] by (intro wf_wp_initiation [OF assms(1)]) auto
  from decode_initiation_layout [OF this] write_initiation_value [OF assms(1-3) d(3) refl refl refl d(1,2) refl, of ri now] assms(4)
  show ?thesis by auto
qed

lemma write_response_message:
  assumes "crypto_ok L" and "wf_Handshake L hs" and "length rk = 32"
    and "write_response L ri rk hs out keys = Inr (hs', out', keys', Some m)"
  shows "\<exists>i. decode m = Some (Msg_Response i)"
proof (cases "length out < 92 \<or> dh L (clamp rk) (hs_peer_ephemeral hs) = None \<or>
         dh L (clamp rk) (id_peer_public (hs_identity hs)) = None")
  case True
  with write_response_fails [OF assms(1-3) refl True, of ri keys] assms(4) show ?thesis by auto
next
  case False
  then obtain ee se where d: "dh L (clamp rk) (hs_peer_ephemeral hs) = Some ee"
      "dh L (clamp rk) (id_peer_public (hs_identity hs)) = Some se" "92 \<le> length out" by auto
  have "wf_HandshakeResponse (wp_response L (random_index ri) (hs_peer_index hs) (id_peer_public (hs_identity hs)) (hs_chaining_key hs)
      (hs_hash hs) (snd (scalarmult_base L (clamp rk))) ee se (replicate 16 0))"
    using crypto_okD [OF assms(1)] assms(3) by (intro wf_wp_response [OF assms(1)]) auto
  from decode_response_layout [OF this] write_response_value [OF assms(1-3) d(3) refl refl refl refl refl d(1,2) refl, of ri keys] assms(4)
  show ?thesis by auto
qed

lemma start_handshake_sent:
  assumes "crypto_ok L" and "relay_ok L st hist" and "env_ok env" and "start_handshake L env st = ret (st', out)"
  shows "no_data out \<and> packets out = []"
proof -
  have k: "length (se_rnd_key env) = 32" using assms(3) by (simp add: env_ok_def)
  have w: "wf_Handshake L (Handshake_init (rl_identity st))" using assms(2) by (simp add: relay_ok_def wf_Handshake_init)
  obtain hs buf v where v: "write_initiation L (se_rnd_index env) (se_rnd_key env) (se_clock env) (Handshake_init (rl_identity st))
      (rl_handshake_buffer st) = Inr (hs, buf, v)" using write_initiation_step [OF assms(1) w k] by blast
  show ?thesis
  proof (cases v)
    case None
    with assms(4) v show ?thesis
      by (cases "rl_role st"; cases "rl_peer st") (auto simp: start_handshake_def Let_def no_data_def split: if_splits)
  next
    case (Some m)
    obtain i where "decode m = Some (Msg_Initiation i)" using write_initiation_message [OF assms(1) w k] v unfolding Some by blast
    moreover obtain b where "socket_send m (se_send env m) = ret b" using env_send [OF assms(3)] by blast
    then have "out = [] \<or> out = [Udp_send m (the (rl_peer st)) b]" using assms(4) v Some
      by (cases "rl_role st"; cases "rl_peer st") (simp_all add: start_handshake_def Let_def split: if_split_asm)
    ultimately show ?thesis by (auto simp: no_data_def)
  qed
qed

text \<open>The effect of a handshake message: none, or a new session with nothing sent or received on it.\<close>

definition renewed :: "'s crypto_lib \<Rightarrow> relay \<Rightarrow> u64 set \<Rightarrow> relay \<Rightarrow> relay_out list \<Rightarrow> bool" where
  "renewed L st hist st' out \<longleftrightarrow> no_data out \<and> packets out = [] \<and>
     (if out = [] then relay_ok L st' hist \<and> rl_session st' = rl_session st
      else relay_ok L st' {} \<and> s_active (rl_session st') \<and> s_send_counter (rl_session st') = 0)"

lemma on_initiation_renews:
  assumes "crypto_ok L" and "aead_authentic L" and "relay_ok L st hist" and "env_ok env"
    and "on_initiation L env st d from = ret (st', out)"
  shows "renewed L st hist st' out"
proof (cases "rl_role st = Responder")
  case True
  have w: "wf_Identity L (rl_identity st)" "wf_guard (rl_guard st)" using assms(3) by (simp_all add: relay_ok_def)
  obtain hs g ok where r: "read_initiation L (Handshake_init (rl_identity st)) (rl_guard st) d = Inr (hs, g, ok)"
      "wf_Handshake L hs" "wf_guard g"
    using read_initiation_step [OF assms(1,2) w, of d] by blast
  have k: "length (se_rnd_key env) = 32" using assms(4) by (simp add: env_ok_def)
  obtain hs' out' keys' v where v: "write_response L (se_rnd_index env) (se_rnd_key env) hs (rl_handshake_buffer st)
      (s_keys (rl_session st)) = Inr (hs', out', keys', v)" "length out' = length (rl_handshake_buffer st)" "v = None \<longrightarrow> keys' = session_keys st"
    using write_response_step [OF assms(1) r(2) k] by blast
  note m = write_response_message [OF assms(1) r(2) k]
  have i: "relay_ok L (st\<lparr>rl_guard := g\<rparr>) hist"
    "relay_ok L (st\<lparr>rl_guard := g, rl_handshake_buffer := out', rl_session := (rl_session st)\<lparr>s_keys := keys'\<rparr>\<rparr>) hist"
    "relay_ok L (st\<lparr>rl_guard := g, rl_handshake_buffer := out', rl_session := activate ((rl_session st)\<lparr>s_keys := keys'\<rparr>)\<rparr>) {}"
    using assms(3) r(3) v(2) window.tracks_start by (auto simp: relay_ok_def)
  show ?thesis
  proof (cases "\<exists>m. ok \<and> v = Some m")
    case False
    with assms(5) True r(1) v(1,3) i(1,2) show ?thesis
      by (cases ok) (auto simp: on_initiation_def renewed_def no_data_def)
  next
    case True
    then obtain m where o: "ok" "v = Some m" by blast
    obtain b where "socket_send m (se_send env m) = ret b" using env_send [OF assms(4)] by blast
    moreover obtain i where "decode m = Some (Msg_Response i)" using m v(1) unfolding o(2) by blast
    ultimately show ?thesis using o assms(5) \<open>rl_role st = Responder\<close> r(1) v(1) i(3)
      by (cases b) (auto simp: on_initiation_def renewed_def no_data_def Let_def)
  qed
qed (use assms(3,5) in \<open>auto simp: on_initiation_def renewed_def no_data_def\<close>)

lemma on_response_renews:
  assumes "crypto_ok L" and "aead_authentic L" and "relay_ok L st hist" and "on_response L st d from = ret (st', out)"
  shows "renewed L st hist st' out"
proof (cases "rl_role st = Initiator \<and> (\<exists>hs. rl_pending st = Some hs)")
  case True
  then obtain hs where hs: "rl_role st = Initiator" "rl_pending st = Some hs" by blast
  with assms(3) have "wf_Handshake L hs" by (simp add: relay_ok_def)
  from read_response_step [OF assms(1,2) this, of d "session_keys st"] obtain hs' keys' ok
    where "read_response L hs d (session_keys st) = Inr (hs', keys', ok)" "\<not> ok \<longrightarrow> hs' = hs \<and> keys' = session_keys st" by blast
  then show ?thesis
    using assms(3,4) hs window.tracks_start by (cases ok) (auto simp: on_response_def renewed_def no_data_def relay_ok_def Let_def)
next
  case False
  with assms(3,4) show ?thesis by (auto simp: on_response_def renewed_def no_data_def split: Role.splits option.splits)
qed

lemma handshake_renews:
  assumes "crypto_ok L" and "aead_authentic L" and "relay_ok L st hist" and "env_ok env"
    and "on_datagram L env st d from = ret (st', out)" and "handshake_message d"
  shows "renewed L st hist st' out"
proof (cases "of_nat (length d) > max_datagram (of_nat (rl_mtu st))")
  case True
  with assms(3,5) show ?thesis by (auto simp: on_datagram_def renewed_def no_data_def)
next
  case False
  from assms(6) consider i where "decode d = Some (Msg_Initiation i)" | i where "decode d = Some (Msg_Response i)"
    by (auto simp: handshake_message.simps split: option.splits message.splits)
  then show ?thesis
  proof cases
    case 1
    with False assms(5) show ?thesis by (intro on_initiation_renews [OF assms(1-4)]) (simp add: on_datagram_def)
  next
    case 2
    with False assms(5) show ?thesis by (intro on_response_renews [OF assms(1-3)]) (simp add: on_datagram_def)
  qed
qed

section \<open>One side\<close>

definition session_kept :: "relay \<Rightarrow> relay \<Rightarrow> bool" where
  "session_kept st st' \<longleftrightarrow> session_keys st' = session_keys st \<and> s_active (rl_session st') = s_active (rl_session st)"

text \<open>A packet of the device: sealed under the next counter of an active session, or not sent at all.\<close>

lemma tun_packet_taken:
  assumes "crypto_ok L" and "relay_ok L st hist" and "env_ok env" and "length p \<le> rl_mtu st"
    and "on_tun_packet L env st p = ret (st', out)"
  shows "relay_ok L st' hist \<and> session_kept st st' \<and> packets out = [] \<and>
    (s_send_counter (rl_session st') = s_send_counter (rl_session st) \<and> no_data out \<or>
     s_active (rl_session st) \<and> s_send_counter (rl_session st) < kRejectAfterMessages \<and>
     s_send_counter (rl_session st') = s_send_counter (rl_session st) + 1 \<and>
     datagrams out = [transport_layout (sealed_packet L (session_keys st) (s_send_counter (rl_session st)) p)])"
    (is "_ \<and> ?effect st' out")
proof
  show "relay_ok L st' hist" using on_tun_packet_returns [OF assms(1-4)] assms(5) by auto
  let ?d = "transport_layout (sealed_packet L (session_keys st) (s_send_counter (rl_session st)) p)"
  let ?st = "bump (rs_dropped_no_session_update inc) (st\<lparr>rl_tun_buffer := blit 16 p (rl_tun_buffer st)\<rparr>)"
  consider "rl_peer st = None" | peer where "rl_peer st = Some peer" "\<not> s_active (rl_session st)"
    | peer where "rl_peer st = Some peer" "s_active (rl_session st)" "counter_usable (s_send_counter (rl_session st))"
    | peer where "rl_peer st = Some peer" "s_active (rl_session st)" "\<not> counter_usable (s_send_counter (rl_session st))" by fastforce
  then show "?effect st' out"
  proof cases
    case 1
    with assms(5) show ?thesis by (auto simp: on_tun_packet_def Let_def session_kept_def no_data_def)
  next
    case 2
    have "rl_mtu st \<le> 1500" "length (rl_tun_buffer st) = sealed_size (rl_mtu st)" using assms(2) by (simp_all add: relay_ok_def)
    with sealed_size_mono [OF assms(4)] have "16 + length p \<le> length (rl_tun_buffer st)" by (simp add: sealed_size_def)
    then have i: "relay_ok L ?st hist" using assms(2) by (simp add: relay_ok_def)
    have "start_handshake L env ?st = ret (st', out)" using assms(5) 2 by (simp add: on_tun_packet_def Let_def)
    with start_handshake_returns [OF assms(1) i assms(3)] start_handshake_sent [OF assms(1) i assms(3)] show ?thesis
      by (auto simp: session_kept_def)
  next
    case (3 peer)
    obtain b where b: "socket_send ?d (se_send env ?d) = ret b" using env_send [OF assms(3)] by blast
    from on_tun_packet_active [OF assms(1,2,4) 3(1,2) refl refl, of env] obtain buf f where "on_tun_packet L env st p =
        ret (bump f (st\<lparr>rl_session := (rl_session st)\<lparr>s_send_counter := s_send_counter (rl_session st) + 1\<rparr>, rl_tun_buffer := buf\<rparr>),
          [Udp_send ?d peer b])" unfolding if_P [OF 3(3)] b bindI_simps by blast
    with assms(5) 3 show ?thesis by (auto simp: session_kept_def counter_usable_def)
  next
    case (4 peer)
    from on_tun_packet_active [OF assms(1,2,4) 4(1,2) refl refl, of env] assms(5) show ?thesis
      unfolding if_not_P [OF 4(3)] by (auto simp: session_kept_def no_data_def)
  qed
qed

lemma same_session: "same_but_stats st st' \<Longrightarrow> rl_session st' = rl_session st"
  by (cases st; cases st') (simp add: same_but_stats_def)

lemma ignored_received:
  assumes "relay_ok L st hist" and "ignored st (ret (st', out))"
  shows "relay_ok L st' hist \<and> rl_session st' = rl_session st \<and> out = []"
  using assms by (auto simp: ignored_def same_session dest: same_but_stats_ok)

lemma data_not_handshake:
  assumes "crypto_ok L" and "relay_ok L st hist" and "\<not> handshake_message d"
  shows "genuine L st hist d \<longleftrightarrow> genuine_data L st hist d"
proof -
  have "\<not> genuine_initiation L st d" using valid_initiation_decode [OF assms(1)] assms(2,3)
    unfolding genuine_initiation_def relay_ok_def handshake_message.simps by fastforce
  moreover have "\<not> genuine_response L st d" using valid_response_decode [OF assms(1)] assms(3)
    unfolding genuine_response_def handshake_message.simps by fastforce
  ultimately show ?thesis by (simp add: genuine_def)
qed

lemma datagram_received:
  assumes "crypto_ok L" and "aead_authentic L" and "relay_ok L st hist" and "s_active (rl_session st)"
    and "mirrored keys (session_keys st)" and "ipv4_packet p"
    and "on_datagram L env st (transport_layout (sealed_packet L keys c p)) from = ret (st', out)"
  shows "session_kept st st' \<and> s_send_counter (rl_session st') = s_send_counter (rl_session st) \<and> datagrams out = [] \<and>
    (relay_ok L st' hist \<and> packets out = [] \<or> relay_ok L st' (insert c hist) \<and> c \<notin> hist \<and> packets out = [p])"
proof -
  define t where "t = sealed_packet L keys c p"
  let ?s = "rl_session st" and ?d = "transport_layout t"
  note aead = crypto_okD(3) [OF assms(1)]
  have dec: "decode ?d = Some (Msg_Transport t)" unfolding t_def using wf_sealed_packet [OF aead] by (rule decode_transport_layout)
  then have hs: "\<not> handshake_message ?d" by (simp add: handshake_message.simps)
  have c: "td_counter t = c" by (simp add: t_def sealed_packet_def)
  have r: "on_datagram L env st ?d from = ret (st', out)" using assms(7) by (simp add: t_def)
  show ?thesis
  proof (cases "fresh hist c \<and> \<not> of_nat (length ?d) > max_datagram (of_nat (rl_mtu st))")
    case False
    have "ignored st (ret (st', out))"
    proof (cases "fresh hist c")
      case True
      with False r show ?thesis by (auto simp: on_datagram_def)
    next
      case False
      then have "\<not> genuine L st hist ?d" unfolding data_not_handshake [OF assms(1,3) hs] by (simp add: genuine_data_def dec c)
      from on_datagram_ignored [OF assms(1-3) this, of env "from"] r show ?thesis by simp
    qed
    from ignored_received [OF assms(3) this] show ?thesis by (simp add: session_kept_def)
  next
    case True
    have w: "window_tracks (s_window ?s) hist" using assms(3) by (simp add: relay_ok_def)
    have "authentic L ?s c (td_sealed t) (padded_packet p)"
      using assms(4,5) by (simp add: t_def authentic_def sealed_packet_def mirrored_def)
    from session_open_authentic [OF aead w _ this] True delivered_padded [OF assms(6)] obtain w' where
      o: "session_open L ?s c (td_sealed t) = Some (?s\<lparr>s_window := w'\<rparr>, Some p)" "window_tracks w' (insert c hist)" by auto
    have a: "replay_acceptable ?s c" using window.tracks_ok [OF w, of c] True by (simp add: replay_acceptable_def)
    have i: "td_receiver_index t = tk_local_index (s_keys ?s)" using assms(5) by (simp add: t_def sealed_packet_def mirrored_def)
    have p: "p \<noteq> []" using assms(6) by (auto simp: ipv4_packet_def inner_packet_length_Some_iff)
    have k: "relay_ok L (st\<lparr>rl_session := ?s\<lparr>s_window := w'\<rparr>\<rparr>) (insert c hist)" using assms(3) o(2) by (simp add: relay_ok_def)
    have h: "holds (\<lambda>(st', out). relay_ok L st' (insert c hist) \<and> rl_session st' = ?s\<lparr>s_window := w'\<rparr> \<and> datagrams out = [] \<and>
        packets out = [p]) (on_transport L env st t ?d from)"
      using assms(4) i a o(1) p k
      by (auto simp: on_transport_def c drop_transport_layout Let_def split_beta intro!: holds_calls)
    have "on_transport L env st t ?d from = ret (st', out)" using True dec r by (simp add: on_datagram_def)
    from holdsD [OF h this] True show ?thesis unfolding fresh_def session_kept_def by simp
  qed
qed

section \<open>What is in flight\<close>

text \<open>A packet sealed by a side: the session keys, the counter and the packet.\<close>

type_synonym sealing = "TransportKeys \<times> u64 \<times> bytes"

definition nonce_of :: "sealing \<Rightarrow> bytes \<times> u64" where
  "nonce_of e = (tk_send (fst e), fst (snd e))"

definition packet_of :: "sealing \<Rightarrow> bytes" where
  "packet_of e = snd (snd e)"

definition datagram_of :: "'s crypto_lib \<Rightarrow> sealing \<Rightarrow> TransportKeys \<times> bytes" where
  "datagram_of L e = (fst e, transport_layout (sealed_packet L (fst e) (fst (snd e)) (snd (snd e))))"

text \<open>
  The log of a side explains its transport datagrams. A nonce is used once: no two entries agree in the
  sending key and the counter.
\<close>

definition sender_ok :: "'s crypto_lib \<Rightarrow> side \<Rightarrow> sealing list \<Rightarrow> bool" where
  "sender_ok L x log \<longleftrightarrow>
     filter (is_data \<circ> snd) (sd_sent x) = map (datagram_of L) log \<and>
     (\<forall>k c p. (k, c, p) \<in> set log \<longrightarrow> k \<in> sd_keys x \<and> ipv4_packet p \<and>
        (tk_send k = tk_send (session_keys (sd_relay x)) \<longrightarrow> c < s_send_counter (rl_session (sd_relay x)))) \<and>
     distinct (map nonce_of log) \<and> mset (map packet_of log) \<subseteq># mset (sd_taken x) \<and>
     (s_active (rl_session (sd_relay x)) \<longrightarrow> session_keys (sd_relay x) \<in> sd_keys x)"

text \<open>
  What a side has written is what it got from the other side's log, each entry once; those of the
  current session are in the window's history \<open>hist\<close>.
\<close>

definition receiver_ok :: "side \<Rightarrow> u64 set \<Rightarrow> sealing list \<Rightarrow> sealing list \<Rightarrow> bool" where
  "receiver_ok y hist log got \<longleftrightarrow>
     sd_written y = map packet_of got \<and> distinct got \<and> set got \<subseteq> set log \<and>
     (\<forall>k c p. (k, c, p) \<in> set got \<longrightarrow> (\<exists>K \<in> sd_keys y. mirrored k K) \<and> (mirrored k (session_keys (sd_relay y)) \<longrightarrow> c \<in> hist))"

definition linked :: "'s crypto_lib \<Rightarrow> side \<Rightarrow> side \<Rightarrow> bool" where
  "linked L x y \<longleftrightarrow> (\<exists>hx hy lx ly gx gy. relay_ok L (sd_relay x) hx \<and> relay_ok L (sd_relay y) hy \<and>
     sender_ok L x lx \<and> sender_ok L y ly \<and> receiver_ok x hx ly gx \<and> receiver_ok y hy lx gy)"

lemma linked_sym: "linked L x y \<Longrightarrow> linked L y x"
  unfolding linked_def by blast

lemma mirrored_unique: "mirrored k a \<Longrightarrow> mirrored k b \<Longrightarrow> a = b"
  by (cases a; cases b) (auto simp: mirrored_def)

lemma sender_sent:
  assumes "sender_ok L x log" and "(k, d) \<in> set (sd_sent x)" and "decode d = Some (Msg_Transport t)"
  shows "\<exists>c p. (k, c, p) \<in> set log \<and> d = transport_layout (sealed_packet L k c p) \<and> ipv4_packet p"
proof -
  have "(k, d) \<in> set (filter (is_data \<circ> snd) (sd_sent x))" using assms(2,3) by (auto simp: is_data_def)
  then obtain e where "e \<in> set log" "(k, d) = datagram_of L e" using assms(1) unfolding sender_ok_def by auto
  then obtain c p where "(k, c, p) \<in> set log" "d = transport_layout (sealed_packet L k c p)" by (metis datagram_of_def prod.collapse prod.inject)
  with assms(1) show ?thesis unfolding sender_ok_def by blast
qed

lemma no_data_filter: "no_data out \<Longrightarrow> filter (is_data \<circ> snd) (map (Pair k) (datagrams out)) = []"
  by (auto simp: no_data_def filter_empty_conv)

lemma sender_keeps:
  assumes "sender_ok L x log" and "no_data out" and "session_kept (sd_relay x) r"
    and "s_send_counter (rl_session r) = s_send_counter (rl_session (sd_relay x))"
  shows "sender_ok L (moved x r out) log"
  using assms no_data_filter [OF assms(2)] by (simp add: sender_ok_def session_kept_def)

lemma receiver_keeps:
  assumes "receiver_ok x hist log got" and "packets out = []" and "session_keys r = session_keys (sd_relay x)"
  shows "receiver_ok (moved x r out) hist log got"
  using assms by (simp add: receiver_ok_def)

lemma sender_taken: "sender_ok L x log \<Longrightarrow> sender_ok L (x\<lparr>sd_taken := sd_taken x @ ps\<rparr>) log"
  by (auto simp: sender_ok_def intro: subset_mset.order_trans)

lemma receiver_taken [simp]: "receiver_ok (x\<lparr>sd_taken := ps\<rparr>) hist log got = receiver_ok x hist log got"
  by (simp add: receiver_ok_def)

lemma receiver_log: "receiver_ok y hist log got \<Longrightarrow> set log \<subseteq> set log' \<Longrightarrow> receiver_ok y hist log' got"
  by (auto simp: receiver_ok_def)

lemma sender_seals:
  assumes "sender_ok L x log" and "s_active (rl_session (sd_relay x))" and "ipv4_packet p"
    and "session_kept (sd_relay x) r" and "s_send_counter (rl_session (sd_relay x)) < kRejectAfterMessages"
    and "s_send_counter (rl_session r) = s_send_counter (rl_session (sd_relay x)) + 1"
    and "datagrams out = [transport_layout (sealed_packet L (session_keys (sd_relay x)) (s_send_counter (rl_session (sd_relay x))) p)]"
    and "crypto_ok L"
  shows "sender_ok L ((moved x r out)\<lparr>sd_taken := sd_taken x @ [p]\<rparr>)
    (log @ [(session_keys (sd_relay x), s_send_counter (rl_session (sd_relay x)), p)])"
proof -
  let ?c = "s_send_counter (rl_session (sd_relay x))" and ?k = "session_keys (sd_relay x)"
  have less: "?c < ?c + 1" "c < ?c \<Longrightarrow> c < ?c + 1" for c using assms(5) by unat_arith+
  have "(tk_send ?k, ?c) \<notin> nonce_of ` set log" using assms(1) by (fastforce simp: sender_ok_def nonce_of_def)
  then have "distinct (map nonce_of (log @ [(?k, ?c, p)]))" using assms(1) by (simp add: sender_ok_def nonce_of_def [of "(_, _)"])
  moreover have "mset (map packet_of (log @ [(?k, ?c, p)])) \<subseteq># mset (sd_taken x @ [p])"
    using assms(1) by (simp add: sender_ok_def packet_of_def [of "(_, _)"])
  moreover have "is_data (transport_layout (sealed_packet L ?k ?c p))"
    using decode_transport_layout [OF wf_sealed_packet [OF crypto_okD(3) [OF assms(8)]]] by (auto simp: is_data_def)
  then have "filter (is_data \<circ> snd) (map (Pair ?k) (datagrams out)) = [datagram_of L (?k, ?c, p)]" using assms(7) by (simp add: datagram_of_def)
  ultimately show ?thesis
    using assms(1-6) less unfolding sender_ok_def session_kept_def by auto
qed

lemma receiver_gets:
  assumes "receiver_ok x hist log got" and "(k, c, p) \<in> set log" and "mirrored k (session_keys (sd_relay x))"
    and "session_keys (sd_relay x) \<in> sd_keys x" and "c \<notin> hist" and "packets out = [p]"
    and "session_keys r = session_keys (sd_relay x)"
  shows "receiver_ok (moved x r out) (insert c hist) log (got @ [(k, c, p)])"
  using assms by (fastforce simp: receiver_ok_def packet_of_def [of "(_, _)"])

lemma sender_rekeys:
  assumes "sender_ok L x log" and "no_data out" and "s_active (rl_session r)" and "tk_send (session_keys r) \<notin> tk_send ` sd_keys x"
  shows "sender_ok L ((moved x r out)\<lparr>sd_keys := insert (session_keys r) (sd_keys x)\<rparr>) log"
proof -
  have "tk_send k \<noteq> tk_send (session_keys r)" if "(k, c, p) \<in> set log" for k c p
    using that assms(1,4) unfolding sender_ok_def by (metis imageI)
  with no_data_filter [OF assms(2), of "session_keys (sd_relay x)"] assms(1,3) show ?thesis by (simp add: sender_ok_def)
qed

lemma receiver_rekeys:
  assumes "receiver_ok x hist log got" and "packets out = []" and "session_keys r \<notin> sd_keys x"
  shows "receiver_ok ((moved x r out)\<lparr>sd_keys := insert (session_keys r) (sd_keys x)\<rparr>) {} log got"
  using assms mirrored_unique unfolding receiver_ok_def by (simp, metis)

section \<open>The invariant\<close>

text \<open>What a step of one side does to its half of the invariant.\<close>

lemma takes_linked:
  assumes "crypto_ok L" and "relay_ok L (sd_relay x) hx" and "sender_ok L x lx" and "receiver_ok x hx ly gx"
    and "on_tun_packet L env (sd_relay x) p = ret (r, out)" and "env_ok env" and "ipv4_packet p" and "length p \<le> rl_mtu (sd_relay x)"
  shows "\<exists>lx'. set lx \<subseteq> set lx' \<and> relay_ok L r hx \<and> sender_ok L ((moved x r out)\<lparr>sd_taken := sd_taken x @ [p]\<rparr>) lx' \<and>
    receiver_ok ((moved x r out)\<lparr>sd_taken := sd_taken x @ [p]\<rparr>) hx ly gx"
proof -
  note t = tun_packet_taken [OF assms(1,2,6,8,5)]
  then have k: "relay_ok L r hx" "session_kept (sd_relay x) r" "packets out = []" by simp_all
  have g: "receiver_ok (moved x r out) hx ly gx" using receiver_keeps [OF assms(4) k(3)] k(2) by (simp add: session_kept_def)
  from t consider "s_send_counter (rl_session r) = s_send_counter (rl_session (sd_relay x))" "no_data out"
    | "sender_ok L ((moved x r out)\<lparr>sd_taken := sd_taken x @ [p]\<rparr>) (lx @ [(session_keys (sd_relay x), s_send_counter (rl_session (sd_relay x)), p)])"
    using sender_seals [OF assms(3) _ assms(7) k(2) _ _ _ assms(1)] by blast
  then show ?thesis
  proof cases
    case 1
    from sender_taken [OF sender_keeps [OF assms(3) 1(2) k(2) 1(1)], of "[p]"] k(1) g show ?thesis by auto
  next
    case 2
    with k(1) g show ?thesis by (intro exI [of _ "lx @ _"]) auto
  qed
qed

lemma gets_linked:
  assumes "crypto_ok L" and "aead_authentic L" and "relay_ok L (sd_relay x) hx" and "sender_ok L x lx" and "sender_ok L y ly"
    and "receiver_ok x hx ly gx" and "on_datagram L env (sd_relay x) d from = ret (r, out)" and "env_ok env"
    and "\<not> forged L (sd_relay x) (set (sd_sent y)) d" and "\<not> establishes d out"
  shows "\<exists>hx' gx'. relay_ok L r hx' \<and> sender_ok L (moved x r out) lx \<and> receiver_ok (moved x r out) hx' ly gx'"
proof (cases "\<exists>t P. decode d = Some (Msg_Transport t) \<and> authentic L (rl_session (sd_relay x)) (td_counter t) (td_sealed t) P")
  case True
  then have active: "s_active (rl_session (sd_relay x))" by (auto simp: authentic_def)
  then have used: "session_keys (sd_relay x) \<in> sd_keys x" using assms(4) by (simp add: sender_ok_def)
  from True assms(9) obtain k where k: "(k, d) \<in> set (sd_sent y)" "mirrored k (session_keys (sd_relay x))" unfolding forged_def by blast
  from True k(1) assms(5) obtain c p where p: "(k, c, p) \<in> set ly" "d = transport_layout (sealed_packet L k c p)" "ipv4_packet p"
    using sender_sent by blast
  from datagram_received [OF assms(1-3) active k(2) p(3)] assms(7) p(2)
  have r: "session_kept (sd_relay x) r" "s_send_counter (rl_session r) = s_send_counter (rl_session (sd_relay x))" "datagrams out = []"
    and e: "relay_ok L r hx \<and> packets out = [] \<or> relay_ok L r (insert c hx) \<and> c \<notin> hx \<and> packets out = [p]" by blast+
  have "no_data out" using r(3) by (simp add: no_data_def)
  from sender_keeps [OF assms(4) this r(1,2)] e r(1) receiver_keeps [OF assms(6)] receiver_gets [OF assms(6) p(1) k(2) used]
  show ?thesis unfolding session_kept_def by metis
next
  case False
  have "relay_ok L r hx \<and> rl_session r = rl_session (sd_relay x) \<and> out = []"
  proof (cases "handshake_message d")
    case True
    with assms(10) have "out = []" by (simp add: establishes_def)
    with handshake_renews [OF assms(1-3,8,7) True] show ?thesis by (simp add: renewed_def)
  next
    case h: False
    have "\<not> genuine L (sd_relay x) hx d" unfolding data_not_handshake [OF assms(1,3) h] using False by (auto simp: genuine_data_def)
    from on_datagram_ignored [OF assms(1-3) this, of env "from"] assms(7) have "ignored (sd_relay x) (ret (r, out))" by simp
    from ignored_received [OF assms(3) this] show ?thesis .
  qed
  then show ?thesis using sender_keeps [OF assms(4)] receiver_keeps [OF assms(6)]
    by (intro exI [of _ hx] exI [of _ gx]) (simp add: session_kept_def no_data_def)
qed

lemma rekeys_linked:
  assumes "crypto_ok L" and "aead_authentic L" and "relay_ok L (sd_relay x) hx" and "sender_ok L x lx"
    and "receiver_ok x hx ly gx" and "on_datagram L env (sd_relay x) d from = ret (r, out)" and "env_ok env"
    and "establishes d out" and "tk_send (session_keys r) \<notin> tk_send ` sd_keys x"
  shows "relay_ok L r {} \<and> sender_ok L ((moved x r out)\<lparr>sd_keys := insert (session_keys r) (sd_keys x)\<rparr>) lx \<and>
    receiver_ok ((moved x r out)\<lparr>sd_keys := insert (session_keys r) (sd_keys x)\<rparr>) {} ly gx"
proof -
  have "handshake_message d" "out \<noteq> []" using assms(8) by (simp_all add: establishes_def)
  with handshake_renews [OF assms(1-3,7,6)] have "no_data out" "packets out = []" "relay_ok L r {}" "s_active (rl_session r)"
    by (simp_all add: renewed_def)
  moreover have "session_keys r \<notin> sd_keys x" using assms(9) by blast
  ultimately show ?thesis using sender_rekeys [OF assms(4)] receiver_rekeys [OF assms(5)] assms(9) by blast
qed

lemma side_step_linked:
  assumes "crypto_ok L" and "aead_authentic L" and "side_step L (set (sd_sent y)) x x'" and "linked L x y"
  shows "linked L x' y"
proof -
  obtain hx hy lx ly gx gy where i: "relay_ok L (sd_relay x) hx" "relay_ok L (sd_relay y) hy"
     "sender_ok L x lx" "sender_ok L y ly" "receiver_ok x hx ly gx" "receiver_ok y hy lx gy" using assms(4) unfolding linked_def by blast
  from assms(3) show ?thesis
  proof (cases rule: side_step.cases)
    case (takes env p r out)
    from takes_linked [OF assms(1) i(1,3,5) takes(2-5)] obtain lx' where "set lx \<subseteq> set lx'" "relay_ok L r hx" "sender_ok L x' lx'"
      "receiver_ok x' hx ly gx" unfolding takes(1) by blast
    moreover have "sd_relay x' = r" by (simp add: takes(1))
    ultimately show ?thesis using i receiver_log [OF i(6)] unfolding linked_def by blast
  next
    case (gets env d a r out)
    from gets_linked [OF assms(1,2) i(1,3,4,5) gets(2-5)] obtain hx' gx' where "relay_ok L r hx'" "sender_ok L x' lx" "receiver_ok x' hx' ly gx'"
      unfolding gets(1) by blast
    moreover have "sd_relay x' = r" by (simp add: gets(1))
    ultimately show ?thesis using i unfolding linked_def by blast
  next
    case (rekeys env d a r out)
    from rekeys_linked [OF assms(1,2) i(1,3,5) rekeys(2-5)] have "relay_ok L r {}" "sender_ok L x' lx" "receiver_ok x' {} ly gx"
      unfolding rekeys(1) by blast+
    moreover have "sd_relay x' = r" by (simp add: rekeys(1))
    ultimately show ?thesis using i unfolding linked_def by blast
  qed
qed

lemma tunnel_linked:
  assumes "crypto_ok L" and "aead_authentic L" and "(tunnel_step L)\<^sup>*\<^sup>* (x, y) (x', y')" and "linked L x y"
  shows "linked L x' y'"
  using assms(3,4)
proof (induction rule: rtranclp_induct2)
  case (step a b a' b')
  from step(2) step.IH [OF assms(4)] side_step_linked [OF assms(1,2)] linked_sym show ?case
    unfolding tunnel_step_simps by blast
qed

text \<open>The two programs start: nothing has been sent and there is no session.\<close>

definition side_start :: "relay \<Rightarrow> side" where
  "side_start A = \<lparr>sd_relay = A, sd_keys = {}, sd_taken = [], sd_sent = [], sd_written = []\<rparr>"

lemma start_linked:
  assumes "relay_ok L A {}" and "relay_ok L B {}" and "\<not> s_active (rl_session A)" and "\<not> s_active (rl_session B)"
  shows "linked L (side_start A) (side_start B)"
  unfolding linked_def using assms
  by (intro exI [of _ "{}"] exI [of _ "[]"]) (simp add: side_start_def sender_ok_def receiver_ok_def)

lemma got_from_log:
  assumes "sender_ok L x log" and "receiver_ok y hist log got"
  shows "mset (sd_written y) \<subseteq># mset (sd_taken x)"
proof -
  have "distinct log" using assms(1) by (auto simp: sender_ok_def distinct_map)
  moreover have "distinct got" "set got \<subseteq> set log" using assms(2) by (simp_all add: receiver_ok_def)
  ultimately have "mset got \<subseteq># mset log" by (simp add: mset_set_set [symmetric] subset_imp_msubset_mset_set)
  then have "mset (map packet_of got) \<subseteq># mset (map packet_of log)" by (simp add: image_mset_subseteq_mono)
  with assms show ?thesis by (auto simp: sender_ok_def receiver_ok_def intro: subset_mset.order_trans)
qed

text \<open>The state in which the loop of a program starts.\<close>

definition fresh_relay :: "'s crypto_lib \<Rightarrow> relay \<Rightarrow> bool" where
  "fresh_relay L st \<longleftrightarrow> (\<exists>name config identity. st = relay_init name config identity \<and> wf_Identity L identity \<and>
     0 \<le> rc_mtu config \<and> rc_mtu config \<le> 1500)"

lemma fresh_relay_ok: "fresh_relay L st \<Longrightarrow> relay_ok L st {} \<and> \<not> s_active (rl_session st)"
  using relay_init_ok by (auto simp: fresh_relay_def)

lemma reachable_linked:
  assumes "crypto_ok L" and "aead_authentic L" and "fresh_relay L A" and "fresh_relay L B"
    and "(tunnel_step L)\<^sup>*\<^sup>* (side_start A, side_start B) (a, b)"
  shows "linked L a b"
  using tunnel_linked [OF assms(1,2,5)] start_linked fresh_relay_ok [OF assms(3)] fresh_relay_ok [OF assms(4)] by blast

section \<open>The tunnel comes up\<close>

lemma effect_of_handshake:
  assumes "crypto_ok L" and "aead_authentic L" and "relay_ok L st hist" and "\<not> s_active (rl_session st)"
    and "on_datagram L env st d from = ret (st', out)" and "out \<noteq> []"
  shows "establishes d out"
proof (rule ccontr)
  assume "\<not> establishes d out"
  with assms(6) have h: "\<not> handshake_message d" by (simp add: establishes_def)
  have "\<not> genuine L st hist d" unfolding data_not_handshake [OF assms(1,3) h] using assms(4) by (auto simp: genuine_data_def authentic_def)
  from on_datagram_ignored [OF assms(1-3) this, of env "from"] assms(5,6) show False by (simp add: ignored_def)
qed

lemma tunnel_up:
  assumes "crypto_ok L" and "aead_authentic L" and "fresh_relay L A" and "fresh_relay L B" and "can_talk L A B addr"
    and "env_ok e" and "ipv4_packet p" and "length p \<le> rl_mtu A" and "snd (guard_accept (rl_guard B) (timestamp (se_clock e)))"
  shows "\<exists>a b. (tunnel_step L)\<^sup>*\<^sup>* (side_start A, side_start B) (a, b) \<and> in_session L (sd_relay a) (sd_relay b) \<and>
    rl_peer (sd_relay a) = Some addr \<and> rl_mtu (sd_relay a) = rl_mtu A \<and> sd_taken a = [p] \<and> sd_written b = []"
proof -
  note A = fresh_relay_ok [OF assms(3)] and B = fresh_relay_ok [OF assms(4)]
  obtain A1 m1 s1 B1 m2 s2 log A2 where r: "on_tun_packet L e A p = ret (A1, [Udp_send m1 addr s1])"
    "on_datagram L e B m1 addr = ret (B1, Udp_send m2 addr s2 # log)" "on_datagram L e A1 m2 addr = ret (A2, [Log_established addr])"
    and i: "in_session L A2 B1" "rl_peer A2 = Some addr" "rl_mtu A2 = rl_mtu A"
    using relay_handshake [OF assms(1,5,6,6,8,9), of addr e] by blast
  from tun_packet_taken [OF assms(1) conjunct1 [OF A] assms(6,8) r(1)] A have t: "relay_ok L A1 {}" "\<not> s_active (rl_session A1)" by (simp_all add: session_kept_def)
  have h: "establishes m1 (Udp_send m2 addr s2 # log)" "establishes m2 [Log_established addr]"
    using effect_of_handshake [OF assms(1,2) _ _ r(2)] effect_of_handshake [OF assms(1,2) t r(3)] B by auto
  then have "handshake_message m1" by (simp add: establishes_def)
  from handshake_renews [OF assms(1,2) conjunct1 [OF B] assms(6) r(2) this] have "packets log = []" by (simp add: renewed_def)
  define a1 where "a1 = (moved (side_start A) A1 [Udp_send m1 addr s1])\<lparr>sd_taken := sd_taken (side_start A) @ [p]\<rparr>"
  define b1 where "b1 = (moved (side_start B) B1 (Udp_send m2 addr s2 # log))\<lparr>sd_keys := insert (session_keys B1) (sd_keys (side_start B))\<rparr>"
  define a2 where "a2 = (moved a1 A2 [Log_established addr])\<lparr>sd_keys := insert (session_keys A2) (sd_keys a1)\<rparr>"
  have st: "sd_relay (side_start C) = C" "sd_keys (side_start C) = {}" "sd_taken (side_start C) = []" "sd_written (side_start C) = []" for C
    by (simp_all add: side_start_def)
  have r': "on_datagram L e (sd_relay (side_start B)) m1 addr = ret (B1, Udp_send m2 addr s2 # log)"
    "on_datagram L e (sd_relay a1) m2 addr = ret (A2, [Log_established addr])" using r by (simp_all add: st a1_def)
  have "side_step L other (side_start A) a1" for other
    unfolding a1_def by (rule side_step.takes [OF _ assms(6,7)]) (simp_all add: st r(1) assms(8))
  moreover have "side_step L other (side_start B) b1" for other
    unfolding b1_def by (rule side_step.rekeys [OF r'(1) assms(6) h(1)]) (simp add: st)
  moreover have "side_step L other a1 a2" for other
    unfolding a2_def by (rule side_step.rekeys [OF r'(2) assms(6) h(2)]) (simp add: st a1_def)
  ultimately have "(tunnel_step L)\<^sup>*\<^sup>* (side_start A, side_start B) (a2, b1)"
    by (meson converse_rtranclp_into_rtranclp r_into_rtranclp tunnel_step.intros)
  moreover have "sd_relay a2 = A2" "sd_relay b1 = B1" "sd_taken a2 = [p]" "sd_written b1 = []"
    using \<open>packets log = []\<close> by (simp_all add: a2_def a1_def b1_def st)
  ultimately show ?thesis using i by blast
qed

lemma tunnel_carries:
  assumes "crypto_ok L" and "in_session L (sd_relay a) (sd_relay b)" and "rl_peer (sd_relay a) = Some addr"
    and "env_ok e" and "ipv4_packet p" and "length p \<le> rl_mtu (sd_relay a)"
  shows "\<exists>a' b'. (tunnel_step L)\<^sup>*\<^sup>* (a, b) (a', b') \<and> sd_taken a' = sd_taken a @ [p] \<and> (\<exists>ps. sd_written b' = sd_written b @ ps @ [p]) \<and>
    (\<exists>d. filter (is_data \<circ> snd) (sd_sent a') = filter (is_data \<circ> snd) (sd_sent a) @ [(session_keys (sd_relay a), d)])"
proof -
  let ?A = "sd_relay a" and ?B = "sd_relay b"
  from assms(2) have s: "relay_ok L ?A {}" "relay_ok L ?B {}" "rl_mtu ?B = rl_mtu ?A" "s_active (rl_session ?A)"
    "s_active (rl_session ?B)" "mirrored (session_keys ?A) (session_keys ?B)" "s_send_counter (rl_session ?A) = 0" by (simp_all add: in_session_def)
  have z: "counter_usable (s_send_counter (rl_session ?A))" "fresh {} (s_send_counter (rl_session ?A))"
    by (simp_all add: s(7) counter_usable_def fresh_def kRejectAfterMessages_def word_greater_zero_iff)
  obtain A' d ok B' log where r: "on_tun_packet L e ?A p = ret (A', [Udp_send d addr ok])"
      "on_datagram L e ?B d addr = ret (B', log @ [Tun_write p])" "s_send_counter (rl_session A') = s_send_counter (rl_session ?A) + 1"
    using packet_delivered [OF assms(1) s(1-6) z assms(3,6,5,4,4), of addr] by blast
  from tun_packet_taken [OF assms(1) s(1) assms(4,6) r(1)] r(3) have d: "d = transport_layout (sealed_packet L (session_keys ?A) 0 p)"
    using s(7) by simp
  have data: "decode d = Some (Msg_Transport (sealed_packet L (session_keys ?A) 0 p))"
    unfolding d using wf_sealed_packet [OF crypto_okD(3) [OF assms(1)]] by (rule decode_transport_layout)
  define a' b' where "a' = (moved a A' [Udp_send d addr ok])\<lparr>sd_taken := sd_taken a @ [p]\<rparr>" and "b' = moved b B' (log @ [Tun_write p])"
  have "side_step L (set (sd_sent b)) a a'" unfolding a'_def by (rule side_step.takes [OF r(1) assms(4-6)])
  moreover have "side_step L (set (sd_sent a')) b b'"
    unfolding b'_def
  proof (rule side_step.gets [OF r(2) assms(4)])
    show "\<not> forged L ?B (set (sd_sent a')) d" using s(6) by (auto simp: forged_def a'_def)
    show "\<not> establishes d (log @ [Tun_write p])" by (simp add: establishes_def handshake_message.simps data)
  qed
  ultimately have "(tunnel_step L)\<^sup>*\<^sup>* (a, b) (a', b')" by (meson converse_rtranclp_into_rtranclp r_into_rtranclp tunnel_step.intros)
  moreover have "is_data d" using data by (simp add: is_data_def)
  ultimately show ?thesis by (intro exI [of _ a'] exI [of _ b']) (auto simp: a'_def b'_def)
qed

lemma demo_fresh: "fresh_relay demo_lib (demo_relay role m n peer)"
  unfolding fresh_relay_def demo_relay_def by (intro exI conjI, rule refl, rule demo_identity_wf) simp_all

lemma demo_tunnel:
  "\<exists>a b d. (tunnel_step demo_lib)\<^sup>*\<^sup>* (side_start (demo_relay Initiator 7 8 (Some (demo_address 1))), side_start (demo_relay Responder 8 7 None)) (a, b) \<and>
     sd_taken a = [demo_packet, demo_packet] \<and> demo_packet \<in> set (sd_written b) \<and> d \<in> set (filter (is_data \<circ> snd) (sd_sent a))"
proof -
  let ?A = "demo_relay Initiator 7 8 (Some (demo_address 1))" and ?B = "demo_relay Responder 8 7 None"
  have l: "length demo_packet \<le> rl_mtu ?A" "snd (guard_accept (rl_guard ?B) (timestamp (se_clock demo_env)))"
    by (simp_all add: demo_relay_mtu demo_packet_ok first_guard_accept)
  obtain a b where u: "(tunnel_step demo_lib)\<^sup>*\<^sup>* (side_start ?A, side_start ?B) (a, b)" "in_session demo_lib (sd_relay a) (sd_relay b)"
    "rl_peer (sd_relay a) = Some (demo_address 1)" "rl_mtu (sd_relay a) = rl_mtu ?A" "sd_taken a = [demo_packet]"
    using tunnel_up [OF demo_crypto_ok demo_aead_authentic demo_fresh demo_fresh demo_relays_talk demo_env_ok demo_packet_ok(1) l] by blast
  from tunnel_carries [OF demo_crypto_ok u(2,3) demo_env_ok demo_packet_ok(1)] l(1) u(4) obtain a' b' d ps where
    "(tunnel_step demo_lib)\<^sup>*\<^sup>* (a, b) (a', b')" "sd_taken a' = [demo_packet, demo_packet]" "sd_written b' = sd_written b @ ps @ [demo_packet]"
    "filter (is_data \<circ> snd) (sd_sent a') = filter (is_data \<circ> snd) (sd_sent a) @ [(session_keys (sd_relay a), d)]"
    unfolding u(5) by auto
  with rtranclp_trans [OF u(1)] show ?thesis by (intro exI [of _ a'] exI [of _ b'] exI [of _ "(session_keys (sd_relay a), d)"]) simp
qed

section \<open>Properties\<close>



lemma sent_nonces:
  assumes "crypto_ok L" and "sender_ok L x log"
  shows "map (\<lambda>(k, d). (tk_send k, counter_of d)) (filter (is_data \<circ> snd) (sd_sent x)) = map (map_prod id Some) (map nonce_of log)"
proof -
  have "decode (transport_layout (sealed_packet L k c p)) = Some (Msg_Transport (sealed_packet L k c p))" for k c p
    using wf_sealed_packet [OF crypto_okD(3) [OF assms(1)]] by (rule decode_transport_layout)
  moreover have "td_counter (sealed_packet L k c p) = c" for k c p by (simp add: sealed_packet_def)
  ultimately show ?thesis using assms(2) by (simp add: sender_ok_def datagram_of_def nonce_of_def counter_of_def)
qed



end
