(* ===== verification/Delivery.thy ===== *)
theory Delivery
  imports Tunnel
begin

text \<open>
  What the tunnel promises on a network that is only unreliable: packets sent in a session arrive, also
  when their datagrams overtake each other or come from changing addresses, as long as none of them is
  overtaken by one that was sent a window's width later.
\<close>

section \<open>Sending a list of packets\<close>

lemma send_all:
  assumes "crypto_ok L" and "env_ok env" and "relay_ok L st hist" and "s_active (rl_session st)" and "rl_peer st = Some peer"
    and "list_all (\<lambda>p. length p \<le> rl_mtu st) ps" and "unat (s_send_counter (rl_session st)) + length ps \<le> unat kRejectAfterMessages"
  shows "\<exists>st' outs. relay_run L st (map (Ev_tun env) ps) = ret (st', outs) \<and> datagrams (concat outs) =
    map (\<lambda>i. transport_layout (sealed_packet L (session_keys st) (s_send_counter (rl_session st) + of_nat i) (ps ! i))) [0..<length ps]"
  using assms(3-7)
proof (induction ps arbitrary: st)
  case (Cons p ps)
  let ?c = "s_send_counter (rl_session st)" and ?k = "session_keys st"
  have u: "counter_usable ?c" using Cons(6) by (simp add: counter_usable_def word_less_nat_alt)
  obtain st1 sent where s: "on_tun_packet L env st p = ret (st1, [Udp_send (transport_layout (sealed_packet L ?k ?c p)) peer sent])"
      "relay_ok L st1 hist" "rl_session st1 = (rl_session st)\<lparr>s_send_counter := ?c + 1\<rparr>" "rl_peer st1 = Some peer" "rl_mtu st1 = rl_mtu st"
    using tun_packet_sent [OF assms(1) Cons(2,3) u Cons(4) _ assms(2), of p] Cons(5) by auto
  have c: "unat (?c + 1) = unat ?c + 1" using u by (simp add: counter_usable_def) unat_arith
  obtain st' outs where r: "relay_run L st1 (map (Ev_tun env) ps) = ret (st', outs)" "datagrams (concat outs) =
      map (\<lambda>i. transport_layout (sealed_packet L ?k (?c + 1 + of_nat i) (ps ! i))) [0..<length ps]"
    using Cons(1) [OF s(2)] s(3-5) Cons(3,5,6) c by auto
  have "map (\<lambda>i. transport_layout (sealed_packet L ?k (?c + of_nat i) ((p # ps) ! i))) [0..<length (p # ps)] =
      transport_layout (sealed_packet L ?k ?c p) # datagrams (concat outs)"
    unfolding r(2) by (simp add: upt_conv_Cons map_Suc_upt [symmetric] add.assoc del: upt_Suc)
  with s(1) r(1) show ?case by simp
qed simp

section \<open>Receiving them in some order\<close>

lemma receive_all:
  assumes "crypto_ok L" and "env_ok env" and "\<And>i. i \<in> set order \<Longrightarrow> ipv4_packet (p i) \<and> length (p i) \<le> mtu"
    and "relay_ok L st hist" and "s_active (rl_session st)" and "mirrored keys (session_keys st)" and "rl_mtu st = mtu"
    and "distinct order" and "sorted_wrt (\<lambda>i j. i < j + kBits) order" and "\<And>i. i \<in> set order \<Longrightarrow> i < unat kRejectAfterMessages"
    and "\<And>i. i \<in> set order \<Longrightarrow> fresh hist (of_nat i)"
  shows "\<exists>st' outs. relay_run L st (map (\<lambda>i. Ev_udp env (transport_layout (sealed_packet L keys (of_nat i) (p i))) (from i)) order) =
      ret (st', outs) \<and> packets (concat outs) = map p order"
  using assms(3-11)
proof (induction order arbitrary: st hist)
  case (Cons i order)
  obtain st1 log w where s: "on_datagram L env st (transport_layout (sealed_packet L keys (of_nat i) (p i))) (from i) = ret (st1, log @ [Tun_write (p i)])"
      "set log \<subseteq> {Log_roamed (from i)}" "relay_ok L st1 (insert (of_nat i) hist)" "rl_session st1 = (rl_session st)\<lparr>s_window := w\<rparr>" "rl_mtu st1 = rl_mtu st"
    using datagram_delivered [OF assms(1) Cons(3,4,5) Cons(10) [of i] _ _ assms(2), of "p i" "from i"] Cons(2) [of i] Cons(6) by auto
  have u: "unat (of_nat j :: u64) = j" if "j \<in> set (i # order)" for j
    using Cons(9) [OF that] by (simp add: unat_of_nat kRejectAfterMessages_value)
  have f: "fresh (insert (of_nat i) hist) (of_nat j)" if "j \<in> set order" for j
  proof -
    have "i < j + kBits" "i \<noteq> j" using that Cons(7,8) by auto
    moreover have "(of_nat i :: u64) \<noteq> of_nat j" using u [of i] u [of j] that \<open>i \<noteq> j\<close> by (metis list.set_intros)
    ultimately show ?thesis using Cons(10) [of j] that u [of i] u [of j] by (auto simp: fresh_def)
  qed
  obtain st' outs where r: "relay_run L st1 (map (\<lambda>i. Ev_udp env (transport_layout (sealed_packet L keys (of_nat i) (p i))) (from i)) order) = ret (st', outs)"
      "packets (concat outs) = map p order"
    using Cons(1) [OF _ s(3)] s(4,5) Cons(2,4-9) f by fastforce
  have "packets log = []" using s(2) by (induction log) auto
  with s(1) r show ?case by simp
qed simp

section \<open>Properties\<close>

text \<open>
  C4: packets survive a network that loses, delays and reorders. In a session, every packet of the
  device is sealed into one datagram. Whichever of these datagrams arrive, in whatever order and from
  whatever addresses, the receiver writes exactly their packets to its device, in the order of arrival
  and unchanged, provided that no datagram arrives after one that was sent 8192 or more packets later.
  Nothing is assumed of the library but the correctness of its operations.
\<close>

theorem packets_survive_reordering:
  assumes "crypto_ok L" and "in_session L A B" and "rl_peer A = Some peer" and "env_ok e1" and "env_ok e2"
    and "list_all ipv4_packet ps" and "list_all (\<lambda>p. length p \<le> rl_mtu A) ps" and "length ps \<le> unat kRejectAfterMessages"
    and "distinct order" and "set order \<subseteq> {..<length ps}" and "sorted_wrt (\<lambda>i j. i < j + kBits) order"
  shows "\<exists>A' outs B' outs'. relay_run L A (map (Ev_tun e1) ps) = ret (A', outs) \<and> length (datagrams (concat outs)) = length ps \<and>
    relay_run L B (map (\<lambda>i. Ev_udp e2 (datagrams (concat outs) ! i) (from i)) order) = ret (B', outs') \<and>
    packets (concat outs') = map ((!) ps) order"
proof -
  from assms(2) have s: "relay_ok L A {}" "relay_ok L B {}" "s_active (rl_session A)" "s_active (rl_session B)"
    "mirrored (session_keys A) (session_keys B)" "s_send_counter (rl_session A) = 0" "rl_mtu B = rl_mtu A" by (simp_all add: in_session_def)
  let ?d = "\<lambda>i. transport_layout (sealed_packet L (session_keys A) (of_nat i) (ps ! i))"
  obtain A' outs where a: "relay_run L A (map (Ev_tun e1) ps) = ret (A', outs)" "datagrams (concat outs) = map ?d [0..<length ps]"
    using send_all [OF assms(1,4) s(1,3) assms(3,7)] assms(8) s(6) by auto
  have i: "i < length ps" "i < unat kRejectAfterMessages" "ipv4_packet (ps ! i)" "length (ps ! i) \<le> rl_mtu A" "fresh {} (of_nat i)" if "i \<in> set order" for i
    using that assms(6-8,10) by (auto simp: list_all_length fresh_def word_less_nat_alt unat_of_nat kRejectAfterMessages_value)
  have b: "\<exists>B' outs'. relay_run L B (map (\<lambda>i. Ev_udp e2 (?d i) (from i)) order) = ret (B', outs') \<and> packets (concat outs') = map ((!) ps) order"
    by (rule receive_all [OF assms(1,5) _ s(2,4,5,7) assms(9,11)]) (use i in auto)
  have "map (\<lambda>i. Ev_udp e2 (?d i) (from i)) order = map (\<lambda>i. Ev_udp e2 (datagrams (concat outs) ! i) (from i)) order"
    using i(1) by (simp add: a(2))
  moreover have "length (datagrams (concat outs)) = length ps" by (simp add: a(2))
  ultimately show ?thesis using a(1) b by metis
qed

definition demo_left :: relay where
  "demo_left = (demo_relay Initiator 7 8 (Some (demo_address 1)))\<lparr>rl_session := demo_session (demo_keys 2 1 4 3)\<rparr>"

lemma demo_in_session: "in_session demo_lib demo_left demo_peer"
proof -
  have "relay_ok demo_lib demo_left {}" using demo_relay_ok [of Initiator 7 8 "Some (demo_address 1)"] window.tracks_start
    by (simp add: demo_left_def relay_ok_def demo_relay_mtu)
  then show ?thesis using demo_peer_ok
    by (simp add: in_session_def demo_left_def demo_peer_def mirrored_def demo_keys_def demo_relay_mtu)
qed

theorem packets_survive_reordering_witness:
  "\<exists>A' outs B' outs'. relay_run demo_lib demo_left (map (Ev_tun demo_env) [demo_packet, demo_packet, demo_packet]) = ret (A', outs) \<and>
    relay_run demo_lib demo_peer (map (\<lambda>i. Ev_udp demo_env (datagrams (concat outs) ! i) (demo_address (of_nat i))) [2, 0]) = ret (B', outs') \<and>
    packets (concat outs') = [demo_packet, demo_packet]"
proof -
  have l: "rl_peer demo_left = Some (demo_address 1)" "rl_mtu demo_left = 1420" by (simp_all add: demo_left_def demo_relay_mtu)
  let ?ps = "[demo_packet, demo_packet, demo_packet]"
  have "list_all ipv4_packet ?ps" "list_all (\<lambda>p. length p \<le> rl_mtu demo_left) ?ps" "length ?ps \<le> unat kRejectAfterMessages"
    by (simp_all add: demo_packet_ok l(2) kRejectAfterMessages_value)
  note run = packets_survive_reordering [OF demo_crypto_ok demo_in_session l(1) demo_env_ok demo_env_ok this, of "[2, 0]" "\<lambda>i. demo_address (of_nat i)"]
  have "distinct [2, 0::nat]" "set [2, 0] \<subseteq> {..<length ?ps}" "sorted_wrt (\<lambda>i j. i < j + kBits) [2, 0]"
    by (simp_all add: kBits_def)
  note out = run [OF this]
  have "map ((!) ?ps) [2, 0] = [demo_packet, demo_packet]" by simp
  with out show ?thesis by (metis (no_types, lifting))
qed

end
