(* ===== verification/Bounds.thy ===== *)
theory Bounds
  imports Relay_Protocol
begin

text \<open>
  How large what leaves the relay can be: the datagrams it sends and the packets it writes to the
  device, over a whole run with sessions established and renewed. The bounds are those of the
  arithmetic in \<^verbatim>\<open>wire.h\<close>: a datagram holds the header, the padded packet and the tag.
\<close>

section \<open>What may leave the relay\<close>

fun in_bounds :: "size_t \<Rightarrow> relay_out \<Rightarrow> bool" where
  "in_bounds mtu (Udp_send d to sent) = (kTransportMinSize \<le> length d \<and> length d \<le> unat (max_datagram mtu))"
| "in_bounds mtu (Tun_write p) = (kMinIpv4Header \<le> length p \<and> length p \<le> unat (padded_length mtu))"
| "in_bounds mtu _ = True"

text \<open>A datagram is a span of memory: its size is a machine word.\<close>

fun addressable :: "relay_event \<Rightarrow> bool" where
  "addressable (Ev_udp env d from) = (length d < 2 ^ 64)"
| "addressable (Ev_tun env p) = True"

lemma padded_length_value: "n \<le> 1500 \<Longrightarrow> unat (padded_length (of_nat n)) = (n + 15) div 16 * 16"
  by (subst unat_padded_length) (simp_all add: unat_small)

text \<open>Handshake messages fit because the smallest MTU the programs accept is 576.\<close>

lemma handshake_fits: "576 \<le> mtu \<Longrightarrow> mtu \<le> 1500 \<Longrightarrow> kInitiationSize \<le> unat (max_datagram (of_nat mtu))"
  by (drule sealed_size_mono) (simp add: max_datagram_value sealed_size_def)

lemma transport_in_bounds:
  assumes "crypto_ok L" and "mtu \<le> 1500" and "length p \<le> mtu"
  shows "in_bounds (of_nat mtu) (Udp_send (transport_layout (sealed_packet L keys c p)) to sent)"
  using sealed_packet_size [OF crypto_okD(3) [OF assms(1)], of keys c p] sealed_size_mono [OF assms(3)] assms(2)
  by (simp add: max_datagram_value sealed_size_def)

section \<open>One step\<close>

lemma start_handshake_in_bounds:
  assumes "crypto_ok L" and "relay_ok L st hist" and "length (se_rnd_key env) = 32" and "576 \<le> rl_mtu st"
  shows "holds (\<lambda>r. list_all (in_bounds (of_nat (rl_mtu st))) (snd r)) (start_handshake L env st)"
proof -
  have w: "wf_Handshake L (Handshake_init (rl_identity st))" "rl_mtu st \<le> 1500"
    using assms(2) by (simp_all add: relay_ok_def wf_Handshake_init)
  from write_initiation_step [OF assms(1) w(1) assms(3)] obtain hs buf v where
    "write_initiation L (se_rnd_index env) (se_rnd_key env) (se_clock env) (Handshake_init (rl_identity st))
      (rl_handshake_buffer st) = Inr (hs, buf, v)" "\<forall>m. v = Some m \<longrightarrow> length m = 148" by blast
  then show ?thesis
    using handshake_fits [OF assms(4) w(2)]
    by (auto simp: start_handshake_def Let_def intro!: holds_calls split: option.splits Role.splits)
qed

lemma on_tun_packet_in_bounds:
  assumes "crypto_ok L" and "relay_ok L st hist" and "length (se_rnd_key env) = 32" and "576 \<le> rl_mtu st"
    and "length p \<le> rl_mtu st"
  shows "holds (\<lambda>r. list_all (in_bounds (of_nat (rl_mtu st))) (snd r)) (on_tun_packet L env st p)"
proof (cases "\<exists>peer. rl_peer st = Some peer \<and> s_active (rl_session st)")
  case True
  then obtain peer where a: "rl_peer st = Some peer" "s_active (rl_session st)" by blast
  have m: "rl_mtu st \<le> 1500" using assms(2) by (simp add: relay_ok_def)
  from on_tun_packet_active [OF assms(1,2,5) a refl refl, of env] transport_in_bounds [OF assms(1) m assms(5)] show ?thesis
    by (auto intro!: holds_calls)
next
  case False
  have "16 + length p \<le> length (rl_tun_buffer st)"
    using assms(2) sealed_size_mono [OF assms(5)] by (simp add: relay_ok_def sealed_size_def)
  then have "relay_ok L (bump (rs_dropped_no_session_update inc) (st\<lparr>rl_tun_buffer := blit 16 p (rl_tun_buffer st)\<rparr>)) hist"
    using assms(2) by (simp add: relay_ok_def)
  from start_handshake_in_bounds [OF assms(1) this assms(3)] assms(4) False show ?thesis
    by (auto simp: on_tun_packet_def Let_def split: option.splits)
qed

lemma on_initiation_in_bounds:
  assumes "crypto_ok L" and "aead_authentic L" and "relay_ok L st hist" and "length (se_rnd_key env) = 32" and "576 \<le> rl_mtu st"
  shows "holds (\<lambda>r. list_all (in_bounds (of_nat (rl_mtu st))) (snd r)) (on_initiation L env st d from)"
proof -
  have w: "wf_Identity L (rl_identity st)" "wf_guard (rl_guard st)" "rl_mtu st \<le> 1500"
    using assms(3) by (simp_all add: relay_ok_def)
  obtain hs g ok where r: "read_initiation L (Handshake_init (rl_identity st)) (rl_guard st) d = Inr (hs, g, ok)" "wf_Handshake L hs"
    using read_initiation_step [OF assms(1,2) w(1,2), of d] by blast
  from write_response_step [OF assms(1) r(2) assms(4)] obtain hs' buf keys v where
    "write_response L (se_rnd_index env) (se_rnd_key env) hs (rl_handshake_buffer st) (s_keys (rl_session st)) =
      Inr (hs', buf, keys, v)" "\<forall>m. v = Some m \<longrightarrow> length m = 92" by blast
  with r show ?thesis
    using handshake_fits [OF assms(5) w(3)]
    by (auto simp: on_initiation_def Let_def intro!: holds_calls split: option.splits)
qed

lemma on_response_in_bounds: "holds (\<lambda>r. list_all (in_bounds mtu) (snd r)) (on_response L st d from)"
  by (auto simp: on_response_def Let_def intro!: holds_calls split: option.splits Role.splits)

text \<open>What is opened is shorter than what was sealed, and is an IP packet or empty.\<close>

lemma session_open_size:
  assumes "aead_ok L" and "aead_authentic L" and "session_open L s c x = Some (s', Some p)"
  shows "p = [] \<or> 20 \<le> length p \<and> length p + 16 \<le> length x"
proof -
  from assms(3) obtain P where P: "crypto_open L (length x - 16) (tk_receive (s_keys s)) c x [] = Some P"
    "p = P \<and> P = [] \<or> (\<exists>n. inner_packet_length P = Some n \<and> p = take n P)"
    by (auto simp: session_open_def Let_def split: if_splits option.splits)
  have "length x = length P + 16"
    using crypto_open_authentic [OF assms(2) P(1)] assms(1) by (metis aead_ok_def)
  with P(2) show ?thesis using inner_packet_length_bounds by fastforce
qed

lemma on_transport_in_bounds:
  assumes "crypto_ok L" and "aead_authentic L" and "mtu \<le> 1500" and "length d \<le> sealed_size mtu"
  shows "holds (\<lambda>r. list_all (in_bounds (of_nat mtu)) (snd r)) (on_transport L env st t d from)"
proof -
  have "p = [] \<or> in_bounds (of_nat mtu) (Tun_write p)"
    if "session_open L (rl_session st) (td_counter t) (drop 16 d) = Some (s, Some p)" for s p
    using session_open_size [OF crypto_okD(3) [OF assms(1)] assms(2) that] assms(3,4)
    by (auto simp: padded_length_value sealed_size_def)
  then show ?thesis
    by (cases "session_open L (rl_session st) (td_counter t) (drop 16 d)")
      (auto simp del: in_bounds.simps(2) simp: on_transport_def Let_def split_beta intro!: holds_calls split: option.split)
qed

lemma relay_step_in_bounds:
  assumes "crypto_ok L" and "aead_authentic L" and "relay_ok L st hist" and "576 \<le> rl_mtu st"
    and "sane_event (rl_mtu st) e" and "addressable e"
  shows "\<exists>st' out hist'. relay_step L st e = ret (st', out) \<and> relay_ok L st' hist' \<and> list_all (in_bounds (of_nat (rl_mtu st))) out"
proof (cases e)
  case (Ev_tun env p)
  with assms(5) have e: "env_ok env" "length p \<le> rl_mtu st" "length (se_rnd_key env) = 32" by (simp_all add: env_ok_def)
  from on_tun_packet_returns [OF assms(1,3) e(1,2)] on_tun_packet_in_bounds [OF assms(1,3) e(3) assms(4) e(2)] Ev_tun
  show ?thesis by (fastforce dest: holdsD)
next
  case (Ev_udp env d a)
  with assms(5) have e: "env_ok env" "length (se_rnd_key env) = 32" by (simp_all add: env_ok_def)
  have m: "rl_mtu st \<le> 1500" using assms(3) by (simp add: relay_ok_def)
  have "holds (\<lambda>r. list_all (in_bounds (of_nat (rl_mtu st))) (snd r)) (on_datagram L env st d a)"
    using on_initiation_in_bounds [OF assms(1-3) e(2) assms(4)] on_response_in_bounds on_transport_in_bounds [OF assms(1,2) m]
      oversize_iff [OF m, of d] assms(6) Ev_udp
    by (auto simp: on_datagram_def split: option.split message.split)
  with on_datagram_returns [OF assms(1-3) e(1), of d a] Ev_udp show ?thesis by (fastforce dest: holdsD)
qed

section \<open>A run\<close>

text \<open>
  C20: the sizes of what leaves the relay are bounded. Over every run, with sessions established and
  renewed along it and any datagrams from the network, every datagram the relay sends is at least
  the size of an empty transport message and at most \<^verbatim>\<open>max_datagram(mtu)\<close>, so up to a tunnel MTU of
  1440 it fits an outer packet of 1500 bytes with its IP and UDP headers; and every packet it writes
  to the device has at least an IPv4 header and is at most the padded MTU.
\<close>

theorem output_sizes_bounded:
  assumes "crypto_ok L" and "aead_authentic L" and "relay_ok L st hist" and "576 \<le> rl_mtu st"
    and "list_all (sane_event (rl_mtu st)) es" and "list_all addressable es"
  shows "\<exists>st' outs. relay_run L st es = ret (st', outs) \<and>
    (\<forall>d to sent. Udp_send d to sent \<in> set (concat outs) \<longrightarrow>
       kTransportMinSize \<le> length d \<and> length d \<le> unat (max_datagram (of_nat (rl_mtu st))) \<and>
       (rl_mtu st \<le> 1440 \<longrightarrow> length d + kOuterOverhead \<le> 1500)) \<and>
    (\<forall>p. Tun_write p \<in> set (concat outs) \<longrightarrow>
       kMinIpv4Header \<le> length p \<and> length p \<le> unat (padded_length (of_nat (rl_mtu st))))"
proof -
  have "\<exists>st' outs. relay_run L st es = ret (st', outs) \<and> list_all (in_bounds (of_nat (rl_mtu st))) (concat outs)"
    using assms(3-6)
  proof (induction es arbitrary: st hist)
    case (Cons e es)
    from relay_step_in_bounds [OF assms(1,2) Cons(2,3), of e] Cons(4,5) obtain st1 out hist1 where
      s: "relay_step L st e = ret (st1, out)" "relay_ok L st1 hist1" "list_all (in_bounds (of_nat (rl_mtu st))) out" by auto
    with Cons(1) [OF s(2)] Cons(3-5) relay_step_mtu [OF s(1)] show ?case by fastforce
  qed simp
  moreover have "unat (max_datagram (of_nat (rl_mtu st))) + 28 \<le> 1500" if "rl_mtu st \<le> 1440"
    using that sealed_size_mono [OF that] by (simp add: max_datagram_value sealed_size_def)
  ultimately show ?thesis by (fastforce simp: list_all_iff)
qed

theorem output_sizes_bounded_witness:
  "\<exists>st' outs. relay_run demo_lib demo_peer [Ev_udp demo_env demo_datagram (demo_address 1), Ev_tun demo_env demo_packet] =
       ret (st', outs) \<and>
     (\<forall>d to sent. Udp_send d to sent \<in> set (concat outs) \<longrightarrow> length d + kOuterOverhead \<le> 1500)"
proof -
  let ?es = "[Ev_udp demo_env demo_datagram (demo_address 1), Ev_tun demo_env demo_packet]"
  have e: "list_all (sane_event (rl_mtu demo_peer)) ?es" "list_all addressable ?es" "576 \<le> rl_mtu demo_peer"
    using sealed_packet_size [OF crypto_okD(3) [OF demo_crypto_ok], of "demo_keys 2 1 4 3" 0 demo_packet]
    by (simp_all add: demo_env_ok demo_peer_ok demo_packet_ok demo_datagram_def sealed_size_def)
  from output_sizes_bounded [OF demo_crypto_ok demo_aead_authentic demo_peer_ok(1) e(3,1,2)] show ?thesis
    by (auto simp: demo_peer_ok)
qed

end
