(* ===== verification/Netcfg.thy ===== *)
theory Netcfg
  imports Relay "HOL-Library.Sublist"
begin

text \<open>
  Network configuration, \<^verbatim>\<open>src/src/netcfg.h\<close> and \<^verbatim>\<open>src/src/netcfg.cpp\<close>. The operating system the code
  talks to (which files are executable, what a spawned tool does, the files under \<^verbatim>\<open>/proc/sys\<close>) is the
  record \<open>'w os\<close> of functions on an unknown state \<open>'w\<close>, an argument of every definition. The state
  of the model, \<open>'w host\<close>, is this unknown state and everything the code did so far: the programs
  spawned with their arguments, the files written, the lines printed, the descriptors opened, read
  and closed, and, for the programs' main functions, what the relay sent. An operation returns
  \<open>None\<close> while it has not returned, and otherwise an exception or a value and the new state. A local
  object with a destructor opens a scope (\<open>scopeS\<close>) whose cleanup runs on every way out, so that the
  nesting of the scopes is the order of destruction.
\<close>

unbundle bit_operations_syntax

section \<open>The host\<close>

datatype net_out =
    Spawned string "string list"
  | Wrote_file string string bool
  | Note string
  | Undo_failed exn
  | Restore_failed string string
  | Usage string
  | Key_diag identity_diag
  | Actions_init
  | Actions_destroy
  | Descriptor fd_event
  | Relayed "relay_out list"
  | Fatal exn

record 'w host =
  ho_world :: 'w
  ho_out :: "net_out list"

text \<open>What a spawned child gives its parent: the result of spawning, the answers of the reads of its output and of \<^verbatim>\<open>waitpid\<close>.\<close>

record child =
  ch_spawn :: int
  ch_reads :: "string syscall list"
  ch_waits :: "nat syscall list"

record 'w os =
  os_executable :: "'w \<Rightarrow> string \<Rightarrow> bool"
  os_exists :: "'w \<Rightarrow> string \<Rightarrow> bool"
  os_file_actions_init :: "'w \<Rightarrow> int"
  os_adddup2 :: "'w \<Rightarrow> int"
  os_pipe2 :: "'w \<Rightarrow> (int \<times> int) syscall"
  os_spawn :: "'w \<Rightarrow> string \<Rightarrow> string list \<Rightarrow> (int \<times> int) list \<Rightarrow> child \<times> 'w"
  os_read_file :: "'w \<Rightarrow> string \<Rightarrow> string option"
  os_write_file :: "'w \<Rightarrow> string \<Rightarrow> string \<Rightarrow> bool \<times> 'w"

type_synonym ('w, 'a) sys = "'w host \<Rightarrow> ('a result \<times> 'w host) option"

definition retS :: "'a \<Rightarrow> ('w, 'a) sys" where
  "retS x h = Some (Inr x, h)"

definition throwS :: "exn \<Rightarrow> ('w, 'a) sys" where
  "throwS e h = Some (Inl e, h)"

definition bindS :: "('w, 'a) sys \<Rightarrow> ('a \<Rightarrow> ('w, 'b) sys) \<Rightarrow> ('w, 'b) sys" where
  "bindS m f h = (case m h of None \<Rightarrow> None | Some (Inl e, h') \<Rightarrow> Some (Inl e, h') | Some (Inr x, h') \<Rightarrow> f x h')"

definition catchS :: "('w, 'a) sys \<Rightarrow> (exn \<Rightarrow> ('w, 'a) sys) \<Rightarrow> ('w, 'a) sys" where
  "catchS m f h = (case m h of None \<Rightarrow> None | Some (Inl e, h') \<Rightarrow> f e h' | Some (Inr x, h') \<Rightarrow> Some (Inr x, h'))"

definition askS :: "('w \<Rightarrow> 'a) \<Rightarrow> ('w, 'a) sys" where
  "askS f h = Some (Inr (f (ho_world h)), h)"

definition changeS :: "('w \<Rightarrow> 'a \<times> 'w) \<Rightarrow> ('w, 'a) sys" where
  "changeS f h = (case f (ho_world h) of (x, w) \<Rightarrow> Some (Inr x, h\<lparr>ho_world := w\<rparr>))"

definition emitS :: "net_out \<Rightarrow> ('w, unit) sys" where
  "emitS x h = Some (Inr (), h\<lparr>ho_out := ho_out h @ [x]\<rparr>)"

definition liftS :: "'a io \<Rightarrow> ('w, 'a) sys" where
  "liftS m h = map_option (\<lambda>r. (r, h)) m"

text \<open>Destruction of local objects: \<open>cleanup\<close> runs when an exception leaves the scope.\<close>

definition unwindS :: "('w, unit) sys \<Rightarrow> ('w, 'a) sys \<Rightarrow> ('w, 'a) sys" where
  "unwindS cleanup m = catchS m (\<lambda>e. bindS cleanup (\<lambda>_. throwS e))"

definition scopeS :: "('w, unit) sys \<Rightarrow> ('w, 'a) sys \<Rightarrow> ('w, 'a) sys" where
  "scopeS cleanup body = bindS (unwindS cleanup body) (\<lambda>x. bindS cleanup (\<lambda>_. retS x))"

fun emitsS :: "net_out list \<Rightarrow> ('w, unit) sys" where
  "emitsS [] = retS ()"
| "emitsS (x # xs) = bindS (emitS x) (\<lambda>_. emitsS xs)"

text \<open>The destructor of a descriptor's owner, its \<open>reset\<close>, and the assignment of a temporary to it.\<close>

definition descrS :: "fd_event list \<Rightarrow> ('w, unit) sys" where
  "descrS events = emitsS (map Descriptor events)"

definition closeS :: "int \<Rightarrow> ('w, unit) sys" where
  "closeS fd = descrS (map Closed (fd_destroy fd))"

definition resetS :: "int \<Rightarrow> ('w, int) sys" where
  "resetS fd = (case fd_reset fd of (fd', closed) \<Rightarrow> bindS (descrS (map Closed closed)) (\<lambda>_. retS fd'))"

definition assignS :: "int \<Rightarrow> int \<Rightarrow> ('w, int) sys" where
  "assignS this temporary =
     (case fd_move_assign False this temporary of (this', temporary', closed) \<Rightarrow>
        bindS (descrS (map Closed (closed @ fd_destroy temporary'))) (\<lambda>_. retS this'))"

section \<open>Running the tools\<close>

datatype Tool = Tool_ip | Tool_iptables | Tool_ip6tables

definition find_binary :: "'w os \<Rightarrow> string list \<Rightarrow> string \<Rightarrow> ('w, string) sys" where
  "find_binary os candidates what =
     bindS (askS (\<lambda>w. find (os_executable os w) candidates)) (\<lambda>found.
     case found of
       Some path \<Rightarrow> retS path
     | None \<Rightarrow> throwS (Runtime_error (''could not find an executable '' @ what @
                '' in /usr/sbin, /sbin, /usr/bin or /bin'')))"

definition binary_for :: "'w os \<Rightarrow> Tool \<Rightarrow> ('w, string) sys" where
  "binary_for os tool =
     (case tool of
        Tool_ip \<Rightarrow> find_binary os [''/usr/sbin/ip'', ''/sbin/ip'', ''/usr/bin/ip'', ''/bin/ip''] ''ip(8)''
      | Tool_iptables \<Rightarrow>
          find_binary os [''/usr/sbin/iptables'', ''/sbin/iptables'', ''/usr/bin/iptables'', ''/bin/iptables''] ''iptables(8)''
      | Tool_ip6tables \<Rightarrow>
          find_binary os [''/usr/sbin/ip6tables'', ''/sbin/ip6tables'', ''/usr/bin/ip6tables'', ''/bin/ip6tables''] ''ip6tables(8)'')"

definition write_file :: "'w os \<Rightarrow> string \<Rightarrow> string \<Rightarrow> ('w, bool) sys" where
  "write_file os path value =
     bindS (changeS (\<lambda>w. os_write_file os w path (value @ [CHR 0x0A]))) (\<lambda>ok.
     bindS (emitS (Wrote_file path value ok)) (\<lambda>_. retS ok))"

definition write_sysctl :: "'w os \<Rightarrow> string \<Rightarrow> string \<Rightarrow> ('w, unit) sys" where
  "write_sysctl os path value =
     bindS (write_file os path value) (\<lambda>ok.
     if \<not> ok then throwS (Runtime_error (''cannot write '' @ value @ '' to '' @ path)) else retS ())"

definition blank :: "char \<Rightarrow> bool" where
  "blank c \<longleftrightarrow> c \<in> set [CHR '' '', CHR 0x09, CHR 0x0D, CHR 0x0A]"

definition trim :: "string \<Rightarrow> string" where
  "trim txt = rev (dropWhile blank (rev (dropWhile blank txt)))"

definition describe :: "string \<Rightarrow> string list \<Rightarrow> string" where
  "describe prog args = foldl (\<lambda>t arg. t @ '' '' @ arg) prog args"

text \<open>The file actions: the list of duplications, from a descriptor to another one, made in the child.\<close>

definition SpawnActions :: "'w os \<Rightarrow> ('w, (int \<times> int) list) sys" where
  "SpawnActions os =
     bindS (askS (os_file_actions_init os)) (\<lambda>rc.
     if rc \<noteq> 0 then throwS (System_error rc ''posix_spawn_file_actions_init'')
     else bindS (emitS Actions_init) (\<lambda>_. retS []))"

definition SpawnActions_destroy :: "('w, unit) sys" where
  "SpawnActions_destroy = emitS Actions_destroy"

definition actions_dup2 :: "'w os \<Rightarrow> (int \<times> int) list \<Rightarrow> int \<Rightarrow> int \<Rightarrow> ('w, (int \<times> int) list) sys" where
  "actions_dup2 os actions from to =
     bindS (askS (os_adddup2 os)) (\<lambda>rc.
     if rc \<noteq> 0 then throwS (System_error rc ''posix_spawn_file_actions_adddup2'') else retS (actions @ [(from, to)]))"

definition STDOUT_FILENO :: int where "STDOUT_FILENO = 1"

text \<open>The loop that collects the child's output; an empty chunk is the end of file.\<close>

fun read_output :: "string \<Rightarrow> string \<Rightarrow> string syscall list \<Rightarrow> string io" where
  "read_output what output [] = None"
| "read_output what output (Sys_ok chunk # ks) =
     (if chunk \<noteq> [] then read_output what (output @ take 4096 chunk) ks else ret output)"
| "read_output what output (Sys_err e # ks) =
     (if e = EINTR then read_output what output ks else throw (System_error e (''reading output of '' @ what)))"

fun wait_loop :: "string \<Rightarrow> nat syscall list \<Rightarrow> nat io" where
  "wait_loop prog [] = None"
| "wait_loop prog (Sys_ok status # ks) = ret status"
| "wait_loop prog (Sys_err e # ks) =
     (if e \<noteq> EINTR then throw (System_error e (''waitpid for '' @ prog)) else wait_loop prog ks)"

text \<open>The macros of \<^verbatim>\<open>sys/wait.h\<close> on the status word.\<close>

definition WTERMSIG :: "nat \<Rightarrow> nat" where "WTERMSIG status = status mod 128"
definition WEXITSTATUS :: "nat \<Rightarrow> nat" where "WEXITSTATUS status = status div 256 mod 256"
definition WIFEXITED :: "nat \<Rightarrow> bool" where "WIFEXITED status \<longleftrightarrow> WTERMSIG status = 0"
definition WIFSIGNALED :: "nat \<Rightarrow> bool" where "WIFSIGNALED status \<longleftrightarrow> 0 < WTERMSIG status \<and> WTERMSIG status < 127"

text \<open>The two ends of the pipe for the child's output, owned by \<^verbatim>\<open>read_end\<close> and \<^verbatim>\<open>write_end\<close>.\<close>

definition open_pipe :: "'w os \<Rightarrow> int \<Rightarrow> int \<Rightarrow> ('w, int \<times> int) sys" where
  "open_pipe os read_end write_end =
     bindS (askS (os_pipe2 os)) (\<lambda>pipe.
     case pipe of
       Sys_err e \<Rightarrow> throwS (System_error e ''pipe2'')
     | Sys_ok (fd0, fd1) \<Rightarrow>
         bindS (descrS [Opened fd0, Opened fd1]) (\<lambda>_.
         bindS (assignS read_end (UniqueFd fd0)) (\<lambda>read_end.
         bindS (assignS write_end (UniqueFd fd1)) (\<lambda>write_end.
         retS (read_end, write_end)))))"

definition spawn_child :: "'w os \<Rightarrow> string \<Rightarrow> string list \<Rightarrow> (int \<times> int) list \<Rightarrow> ('w, child) sys" where
  "spawn_child os prog args actions =
     bindS (changeS (\<lambda>w. os_spawn os w prog (prog # args) actions)) (\<lambda>child.
     if ch_spawn child \<noteq> 0 then throwS (System_error (ch_spawn child) (''posix_spawn '' @ describe prog args))
     else bindS (emitS (Spawned prog args)) (\<lambda>_. retS child))"

definition check_status :: "string \<Rightarrow> string list \<Rightarrow> nat \<Rightarrow> ('w, unit) sys" where
  "check_status prog args status =
     (if WIFSIGNALED status
      then throwS (Runtime_error (describe prog args @ '': killed by signal '' @ to_string (WTERMSIG status)))
      else if \<not> WIFEXITED status \<or> WEXITSTATUS status \<noteq> 0
      then throwS (Runtime_error (describe prog args @ '': exited '' @ to_string (WEXITSTATUS status)))
      else retS ())"

definition spawn_and_wait :: "'w os \<Rightarrow> string \<Rightarrow> string list \<Rightarrow> bool \<Rightarrow> ('w, string) sys" where
  "spawn_and_wait os prog args capture =
     bindS (SpawnActions os) (\<lambda>actions.
     scopeS SpawnActions_destroy (
       bindS (if capture then open_pipe os UniqueFd_default UniqueFd_default
              else retS (UniqueFd_default, UniqueFd_default)) (\<lambda>(read_end, write_end).
       scopeS (closeS read_end) (
         bindS (unwindS (closeS write_end) (
           bindS (if capture then actions_dup2 os actions (fd_get write_end) STDOUT_FILENO else retS actions) (\<lambda>actions.
           spawn_child os prog args actions))) (\<lambda>child.
         bindS (if capture then resetS write_end else retS write_end) (\<lambda>write_end.
         scopeS (closeS write_end) (
           bindS (if capture
                  then bindS (descrS [Read_from (fd_get read_end)]) (\<lambda>_.
                       liftS (read_output (describe prog args) [] (ch_reads child)))
                  else retS []) (\<lambda>output.
           bindS (liftS (wait_loop prog (ch_waits child))) (\<lambda>status.
           bindS (check_status prog args status) (\<lambda>_. retS output))))))))))"

definition concat_args :: "string list \<Rightarrow> string list \<Rightarrow> string list" where
  "concat_args a b = a @ b"

definition net_run :: "'w os \<Rightarrow> Tool \<Rightarrow> string list \<Rightarrow> ('w, unit) sys" where
  "net_run os tool args =
     bindS (binary_for os tool) (\<lambda>prog. bindS (spawn_and_wait os prog args False) (\<lambda>_. retS ()))"

definition run_capture :: "'w os \<Rightarrow> Tool \<Rightarrow> string list \<Rightarrow> ('w, string) sys" where
  "run_capture os tool args = bindS (binary_for os tool) (\<lambda>prog. spawn_and_wait os prog args True)"

definition int_to_string :: "int \<Rightarrow> string" where
  "int_to_string i = (if i < 0 then CHR ''-'' # to_string (nat (- i)) else to_string (nat i))"

definition disable_path :: "string \<Rightarrow> string" where
  "disable_path dev = ''/proc/sys/net/ipv6/conf/'' @ dev @ ''/disable_ipv6''"

definition no_ipv6_note :: "string \<Rightarrow> string" where
  "no_ipv6_note path = ''note: '' @ c_str path @ '' does not exist; this kernel has no IPv6''"

definition configure_interface :: "'w os \<Rightarrow> string \<Rightarrow> string \<Rightarrow> int \<Rightarrow> ('w, unit) sys" where
  "configure_interface os dev cidr mtu =
     bindS (net_run os Tool_ip [''link'', ''set'', ''dev'', dev, ''mtu'', int_to_string mtu]) (\<lambda>_.
     let disable = disable_path dev in
     bindS (askS (\<lambda>w. os_exists os w (c_str disable))) (\<lambda>found.
     bindS (if found then write_sysctl os disable ''1''
            else emitS (Note (no_ipv6_note disable))) (\<lambda>_.
     bindS (net_run os Tool_ip [''addr'', ''add'', cidr, ''dev'', dev]) (\<lambda>_.
     net_run os Tool_ip [''link'', ''set'', ''dev'', dev, ''up'']))))"

definition host_has_ipv6 :: "'w os \<Rightarrow> ('w, bool) sys" where
  "host_has_ipv6 os =
     bindS (run_capture os Tool_ip [''-6'', ''route'', ''show'', ''default'']) (\<lambda>output. retS (trim output \<noteq> []))"

datatype Ipv6Policy = Policy_refuse | Policy_block | Policy_ignore

definition parse_ipv6_policy :: "string \<Rightarrow> Ipv6Policy option" where
  "parse_ipv6_policy txt =
     (if txt = ''refuse'' then Some Policy_refuse
      else if txt = ''block'' then Some Policy_block
      else if txt = ''ignore'' then Some Policy_ignore
      else None)"

section \<open>Scoped changes\<close>

record ScopedCommand =
  sc_tool :: Tool
  sc_undo :: "string list"

definition ScopedCommand_make :: "'w os \<Rightarrow> Tool \<Rightarrow> string list \<Rightarrow> string list \<Rightarrow> ('w, ScopedCommand) sys" where
  "ScopedCommand_make os tool apply undo =
     bindS (net_run os tool apply) (\<lambda>_. retS \<lparr>sc_tool = tool, sc_undo = undo\<rparr>)"

text \<open>The new object and what is left of the old one.\<close>

definition ScopedCommand_move :: "ScopedCommand \<Rightarrow> ScopedCommand \<times> ScopedCommand" where
  "ScopedCommand_move other = (other, other\<lparr>sc_undo := []\<rparr>)"

definition ScopedCommand_release :: "ScopedCommand \<Rightarrow> ScopedCommand" where
  "ScopedCommand_release sc = sc\<lparr>sc_undo := []\<rparr>"

definition ScopedCommand_destroy :: "'w os \<Rightarrow> ScopedCommand \<Rightarrow> ('w, unit) sys" where
  "ScopedCommand_destroy os sc =
     (if sc_undo sc = [] then retS ()
      else catchS (net_run os (sc_tool sc) (sc_undo sc)) (\<lambda>error. emitS (Undo_failed error)))"

type_synonym ChangeSet = "ScopedCommand list"

fun undo_all :: "'w os \<Rightarrow> ChangeSet \<Rightarrow> ('w, unit) sys" where
  "undo_all os changes =
     (if changes = [] then retS ()
      else bindS (ScopedCommand_destroy os (last changes)) (\<lambda>_. undo_all os (butlast changes)))"

declare undo_all.simps [simp del]

text \<open>The assigned object and what is left of the other one; \<open>same\<close> says that they are one object.\<close>

definition ChangeSet_assign :: "'w os \<Rightarrow> bool \<Rightarrow> ChangeSet \<Rightarrow> ChangeSet \<Rightarrow> ('w, ChangeSet \<times> ChangeSet) sys" where
  "ChangeSet_assign os same this other =
     (if \<not> same then bindS (undo_all os this) (\<lambda>_. retS (other, [])) else retS (this, other))"

definition changes_add :: "'w os \<Rightarrow> ChangeSet \<Rightarrow> Tool \<Rightarrow> string list \<Rightarrow> string list \<Rightarrow> ('w, ChangeSet) sys" where
  "changes_add os changes tool apply undo =
     bindS (ScopedCommand_make os tool apply undo) (\<lambda>sc. retS (changes @ [sc]))"

text \<open>
  A run of additions to a local change set, one per triple of tool, apply and undo; when one throws,
  the set is destroyed on the way out.
\<close>

fun add_changes :: "'w os \<Rightarrow> ChangeSet \<Rightarrow> (Tool \<times> string list \<times> string list) list \<Rightarrow> ('w, ChangeSet) sys" where
  "add_changes os changes [] = retS changes"
| "add_changes os changes ((tool, apply, undo) # rest) =
     bindS (unwindS (undo_all os changes) (changes_add os changes tool apply undo)) (\<lambda>changes.
     add_changes os changes rest)"

record ScopedSysctl =
  ss_path :: string
  ss_previous :: string
  ss_active :: bool

definition ScopedSysctl_init :: ScopedSysctl where
  "ScopedSysctl_init = \<lparr>ss_path = [], ss_previous = [], ss_active = False\<rparr>"

definition ScopedSysctl_make :: "'w os \<Rightarrow> string \<Rightarrow> string \<Rightarrow> ('w, ScopedSysctl) sys" where
  "ScopedSysctl_make os path value =
     bindS (askS (\<lambda>w. os_read_file os w path)) (\<lambda>contents.
     case contents of
       None \<Rightarrow> throwS (Runtime_error (''cannot read '' @ path))
     | Some txt \<Rightarrow>
         let previous = getline txt
         in if previous = value then retS \<lparr>ss_path = path, ss_previous = previous, ss_active = False\<rparr>
            else
              bindS (write_file os path value) (\<lambda>ok.
              if \<not> ok then throwS (Runtime_error (''cannot write '' @ value @ '' to '' @ path))
              else retS \<lparr>ss_path = path, ss_previous = previous, ss_active = True\<rparr>))"

definition ScopedSysctl_restore :: "'w os \<Rightarrow> ScopedSysctl \<Rightarrow> ('w, ScopedSysctl) sys" where
  "ScopedSysctl_restore os s =
     (if \<not> ss_active s then retS s
      else
        let s = s\<lparr>ss_active := False\<rparr>
        in bindS (write_file os (ss_path s) (ss_previous s)) (\<lambda>ok.
           bindS (if \<not> ok then emitS (Restore_failed (ss_path s) (ss_previous s)) else retS ()) (\<lambda>_. retS s)))"

definition ScopedSysctl_destroy :: "'w os \<Rightarrow> ScopedSysctl \<Rightarrow> ('w, unit) sys" where
  "ScopedSysctl_destroy os s = bindS (ScopedSysctl_restore os s) (\<lambda>_. retS ())"

definition ScopedSysctl_move :: "ScopedSysctl \<Rightarrow> ScopedSysctl \<times> ScopedSysctl" where
  "ScopedSysctl_move other = (other, \<lparr>ss_path = [], ss_previous = [], ss_active = False\<rparr>)"

definition ScopedSysctl_assign :: "'w os \<Rightarrow> bool \<Rightarrow> ScopedSysctl \<Rightarrow> ScopedSysctl \<Rightarrow> ('w, ScopedSysctl \<times> ScopedSysctl) sys" where
  "ScopedSysctl_assign os same this other =
     (if \<not> same
      then bindS (ScopedSysctl_restore os this) (\<lambda>_. retS (ScopedSysctl_move other))
      else retS (this, other))"

section \<open>Addresses and routes\<close>

text \<open>The four bytes of an address as a number in host order, and back.\<close>

definition host_order :: "bytes \<Rightarrow> u32" where
  "host_order a = read_le 4 (rev a)"

definition network_order :: "u32 \<Rightarrow> bytes" where
  "network_order v = rev (le_bytes 4 v)"

definition prefix_mask :: "nat \<Rightarrow> u32" where
  "prefix_mask bits = (if bits = 0 then 0 else push_bit (32 - bits) 0xffffffff)"

definition subnet_of :: "string \<Rightarrow> string option" where
  "subnet_of cidr =
     (if CHR ''/'' \<notin> set cidr then None
      else
        let slash = length (takeWhile (\<lambda>c. c \<noteq> CHR ''/'') cidr);
            address = take slash cidr
        in (case inet_pton (c_str address) of
              None \<Rightarrow> None
            | Some parsed \<Rightarrow>
                let prefix_text = drop (slash + 1) cidr;
                    (rest, ec, bits) = from_chars False 0 (2 ^ 32 - 1) prefix_text
                in if ec \<noteq> Errc_ok \<or> rest \<noteq> [] \<or> bits > 32 then None
                   else
                     let mask = prefix_mask (nat bits);
                         network = network_order (host_order parsed AND mask)
                     in Some (inet_ntop network @ ''/'' @ int_to_string bits)))"

record RouteInfo =
  ri_dev :: string
  ri_gateway :: string

definition is_space :: "char \<Rightarrow> bool" where
  "is_space c \<longleftrightarrow> c \<in> set [CHR '' '', CHR 0x09, CHR 0x0A, CHR 0x0B, CHR 0x0C, CHR 0x0D]"

text \<open>The strings that repeated extraction with \<^verbatim>\<open>>>\<close> gives.\<close>

function tokens :: "string \<Rightarrow> string list" where
  "tokens [] = []"
| "tokens (c # cs) =
     (if is_space c then tokens cs
      else (c # takeWhile (\<lambda>x. \<not> is_space x) cs) # tokens (dropWhile (\<lambda>x. \<not> is_space x) cs))"
  by pat_completeness auto

termination
  by (relation "measure length") (auto simp: less_Suc_eq_le length_dropWhile_le)

fun scan_route :: "RouteInfo \<Rightarrow> string list \<Rightarrow> RouteInfo" where
  "scan_route info (token # value # rest) =
     (if token = ''via'' then scan_route (info\<lparr>ri_gateway := value\<rparr>) rest
      else if token = ''dev'' then scan_route (info\<lparr>ri_dev := value\<rparr>) rest
      else scan_route info (value # rest))"
| "scan_route info [token] = info"
| "scan_route info [] = info"

definition route_to :: "'w os \<Rightarrow> string \<Rightarrow> ('w, RouteInfo) sys" where
  "route_to os address =
     bindS (run_capture os Tool_ip [''route'', ''get'', address]) (\<lambda>output.
     if output = [] then throwS (Runtime_error (''ip route get '' @ address @ '': no output''))
     else
       let line = getline output;
           info = scan_route \<lparr>ri_dev = [], ri_gateway = []\<rparr> (tokens line)
       in if ri_dev info = []
          then throwS (Runtime_error (''could not work out which interface reaches '' @ address @
                 '' (ip route get said: '' @ line @ '')''))
          else retS info)"

section \<open>The client's routes, the IPv6 block and the server's NAT\<close>

definition route_change :: "string list \<Rightarrow> Tool \<times> string list \<times> string list" where
  "route_change spec = (Tool_ip, concat_args [''route'', ''add''] spec, concat_args [''route'', ''del''] spec)"

definition host_route :: "string \<Rightarrow> RouteInfo \<Rightarrow> string list" where
  "host_route server_address underlay =
     [server_address @ ''/32''] @ (if ri_gateway underlay \<noteq> [] then [''via'', ri_gateway underlay] else []) @
     [''dev'', ri_dev underlay]"

definition client_changes :: "string \<Rightarrow> string \<Rightarrow> RouteInfo \<Rightarrow> (Tool \<times> string list \<times> string list) list" where
  "client_changes tun_dev server_address underlay =
     route_change (host_route server_address underlay) #
     map (\<lambda>half. route_change [half, ''dev'', tun_dev]) [''0.0.0.0/1'', ''128.0.0.0/1'']"

definition routes_note :: "string \<Rightarrow> string \<Rightarrow> RouteInfo \<Rightarrow> string" where
  "routes_note tun_dev server_address underlay =
     ''routes: '' @ c_str server_address @ ''/32 via '' @
     (if ri_gateway underlay = [] then ''(on-link)'' else c_str (ri_gateway underlay)) @ '' dev '' @
     c_str (ri_dev underlay) @ '', then 0.0.0.0/1 and 128.0.0.0/1 dev '' @ c_str tun_dev"

definition install_client_routes :: "'w os \<Rightarrow> string \<Rightarrow> string \<Rightarrow> ('w, ChangeSet) sys" where
  "install_client_routes os tun_dev server_address =
     bindS (route_to os server_address) (\<lambda>underlay.
     bindS (add_changes os [] (client_changes tun_dev server_address underlay)) (\<lambda>changes.
     bindS (emitS (Note (routes_note tun_dev server_address underlay))) (\<lambda>_.
     retS changes)))"

definition rule_change :: "Tool \<Rightarrow> string list \<Rightarrow> string list \<Rightarrow> Tool \<times> string list \<times> string list" where
  "rule_change tool table spec =
     (tool, concat_args (concat_args table [''-A'']) spec, concat_args (concat_args table [''-D'']) spec)"

definition ipv6_changes :: "(Tool \<times> string list \<times> string list) list" where
  "ipv6_changes =
     List.concat (map (\<lambda>pfx.
       [rule_change Tool_ip6tables [] [''OUTPUT'', ''!'', ''-o'', ''lo'', ''-d'', pfx, ''-j'', ''REJECT'', ''--reject-with'', ''adm-prohibited''],
        rule_change Tool_ip6tables [] [''INPUT'', ''!'', ''-i'', ''lo'', ''-s'', pfx, ''-j'', ''DROP'']])
       [''2000::/3'', ''fc00::/7'']) @
     [rule_change Tool_ip6tables [] [''FORWARD'', ''-j'', ''DROP'']]"

definition ipv6_note :: string where
  "ipv6_note = ''ipv6: global and unique-local traffic blocked for the life of the tunnel''"

definition block_host_ipv6 :: "'w os \<Rightarrow> ('w, ChangeSet) sys" where
  "block_host_ipv6 os =
     bindS (add_changes os [] ipv6_changes) (\<lambda>blocked.
     bindS (emitS (Note ipv6_note)) (\<lambda>_.
     retS blocked))"

record ServerNat =
  sn_ip_forward :: ScopedSysctl
  sn_rules :: ChangeSet

definition ServerNat_init :: ServerNat where
  "ServerNat_init = \<lparr>sn_ip_forward = ScopedSysctl_init, sn_rules = []\<rparr>"

definition nat_changes :: "string \<Rightarrow> string \<Rightarrow> string \<Rightarrow> (Tool \<times> string list \<times> string list) list" where
  "nat_changes tun_dev tun_subnet wan_dev =
     [rule_change Tool_iptables [''-t'', ''nat'']
        [''POSTROUTING'', ''-s'', tun_subnet, ''-o'', wan_dev, ''-j'', ''MASQUERADE''],
      rule_change Tool_iptables [''-t'', ''filter'']
        [''FORWARD'', ''-i'', tun_dev, ''-o'', wan_dev, ''-s'', tun_subnet, ''-j'', ''ACCEPT''],
      rule_change Tool_iptables [''-t'', ''filter'']
        [''FORWARD'', ''-i'', wan_dev, ''-o'', tun_dev, ''-d'', tun_subnet, ''-m'', ''conntrack'',
         ''--ctstate'', ''RELATED,ESTABLISHED'', ''-j'', ''ACCEPT'']]"

definition nat_note :: "string \<Rightarrow> string \<Rightarrow> string \<Rightarrow> string" where
  "nat_note tun_dev tun_subnet wan_dev =
     ''nat: forwarding '' @ c_str tun_subnet @ '' between '' @ c_str tun_dev @ '' and '' @ c_str wan_dev @ '', masqueraded''"

definition install_server_nat :: "'w os \<Rightarrow> string \<Rightarrow> string \<Rightarrow> string \<Rightarrow> ('w, ServerNat) sys" where
  "install_server_nat os tun_dev tun_subnet wan_dev =
     bindS (ScopedSysctl_make os ''/proc/sys/net/ipv4/ip_forward'' ''1'') (\<lambda>forwarding.
     unwindS (ScopedSysctl_destroy os forwarding)
       (bindS (add_changes os [] (nat_changes tun_dev tun_subnet wan_dev)) (\<lambda>installed.
        bindS (emitS (Note (nat_note tun_dev tun_subnet wan_dev))) (\<lambda>_.
        retS \<lparr>sn_ip_forward = forwarding, sn_rules = installed\<rparr>))))"

text \<open>Members are destroyed in the reverse order of their declaration.\<close>

definition ServerNat_destroy :: "'w os \<Rightarrow> ServerNat \<Rightarrow> ('w, unit) sys" where
  "ServerNat_destroy os sn =
     bindS (undo_all os (sn_rules sn)) (\<lambda>_. ScopedSysctl_destroy os (sn_ip_forward sn))"

end
