(* ===== verification/Programs.thy ===== *)
theory Programs
  imports Netcfg
begin

text \<open>
  The three programs: the client \<^verbatim>\<open>src/src/vpn.cpp\<close>, the server \<^verbatim>\<open>src/src/vpnd.cpp\<close> and the key tool
  \<^verbatim>\<open>src/src/vpnkey.cpp\<close>. The option loops are recursive functions over the argument vector. The bodies
  compose the components in the order of the code, with a scope (\<open>scopeS\<close>) for every local object that
  has a destructor. The name the program was called by is separate from the other arguments. The answers of the system calls that are not made through the operating system of the
  network configuration are the fields of \<open>prog_env\<close>.
\<close>

section \<open>Common parts\<close>

text \<open>An operation that opens a descriptor and reports what happened to descriptors.\<close>

definition openS :: "fd_event list \<times> 'a result \<Rightarrow> ('w, 'a) sys" where
  "openS r = bindS (descrS (fst r)) (\<lambda>_. liftS (Some (snd r)))"

text \<open>The lines of a text.\<close>

definition lines_of :: "string list \<Rightarrow> string" where
  "lines_of ls = concat (map (\<lambda>l. l @ [CHR 0x0A]) ls)"

record prog_env =
  pe_allocated :: bool
  pe_key_mode :: "u32 option"
  pe_key_contents :: "string option"
  pe_open_tun :: "int syscall"
  pe_tunsetiff :: "u16 \<Rightarrow> string \<Rightarrow> string syscall"
  pe_socket :: "int syscall"
  pe_bind :: "sockaddr_in \<Rightarrow> unit syscall"
  pe_getsockname :: "sockaddr_in syscall"
  pe_setup :: relay_setup
  pe_answers :: "epoll_answer list"

text \<open>
  The relay with the two descriptors it owns: \<open>run_relay\<close> with its first lines repeated here, where the
  owners' destructors are visible.
\<close>

definition signal_owner :: "unit syscall \<Rightarrow> int syscall \<Rightarrow> fd_event list \<times> int result" where
  "signal_owner sigprocmask signalfd =
     (case make_signalfd sigprocmask signalfd of
        Inl e \<Rightarrow> ([], Inl e)
      | Inr fd \<Rightarrow> let (moved, rest) = fd_move_construct (UniqueFd fd) in (Opened fd # map Closed (fd_destroy rest), Inr moved))"

definition epoll_owner :: "int syscall \<Rightarrow> fd_event list \<times> int result" where
  "epoll_owner epoll_create1 =
     (case epoll_create1 of
        Sys_err e \<Rightarrow> ([], Inl (System_error e ''epoll_create1''))
      | Sys_ok fd \<Rightarrow> ([Opened fd], Inr (UniqueFd fd)))"

definition relayS :: "'s crypto_lib \<Rightarrow> prog_env \<Rightarrow> string \<Rightarrow> RelayConfig \<Rightarrow> ('w, RelayStats \<times> relay_out list) sys" where
  "relayS L env name config =
     (case rc_identity config of
        None \<Rightarrow> throwS (Logic_error ''run_relay needs an identity; the tunnel is not optional'')
      | Some identity \<Rightarrow>
          bindS (openS (signal_owner (su_sigprocmask (pe_setup env)) (su_signalfd (pe_setup env)))) (\<lambda>signal_fd.
          scopeS (closeS signal_fd) (
            bindS (openS (epoll_owner (su_epoll_create1 (pe_setup env)))) (\<lambda>epoll_fd.
            scopeS (closeS epoll_fd) (liftS (relay_loop L (pe_setup env) name config identity (pe_answers env)))))))"

section \<open>The client\<close>

definition client_usage :: "string \<Rightarrow> string" where
  "client_usage program = lines_of [
     ''usage: '' @ program @ '' --server IP:PORT [options]'',
     ''  --server IP:PORT    vpn server endpoint (required)'',
     ''  --dev NAME          tun device name (default tun0)'',
     ''  --tun-addr CIDR     tunnel address (default 10.9.0.2/24)'',
     ''  --mtu N             tunnel MTU, 576..1500 (default 1420)'',
     ''  --listen-port N     local udp port (default 0, ephemeral)'',
     ''  --private-key PATH  our private key, base64 (required)'',
     ''  --peer-key BASE64   the server'' @ [CHR 0x27] @ ''s public key (required)'',
     ''  --no-routes         do not touch the routing table'',
     ''  --host-ipv6 MODE    what to do if this host has working IPv6:'',
     ''                      refuse (default) | block | ignore'']"

record client_options =
  co_dev :: string
  co_tun_addr :: string
  co_mtu :: int
  co_listen_port :: u16
  co_install_routes :: bool
  co_ipv6_policy :: Ipv6Policy
  co_private_key_path :: string
  co_peer_key :: string
  co_server :: "sockaddr_in option"

definition client_defaults :: client_options where
  "client_defaults = \<lparr>co_dev = ''tun0'', co_tun_addr = ''10.9.0.2/24'', co_mtu = int kDefaultTunnelMtu, co_listen_port = 0,
     co_install_routes = True, co_ipv6_policy = Policy_refuse, co_private_key_path = [], co_peer_key = [], co_server = None\<rparr>"

type_synonym cli_exit = "nat \<times> net_out list"

definition client_option :: "string \<Rightarrow> client_options \<Rightarrow> string \<Rightarrow> string \<Rightarrow> cli_exit + client_options" where
  "client_option program opts flag value =
     (if flag = ''--server'' then
        (case parse_endpoint value of
           None \<Rightarrow> Inl (2, [Note ''bad --server (want IPv4:PORT, e.g. 10.0.0.1:51820)''])
         | Some server \<Rightarrow> Inr (opts\<lparr>co_server := Some server\<rparr>))
      else if flag = ''--dev'' then Inr (opts\<lparr>co_dev := value\<rparr>)
      else if flag = ''--tun-addr'' then
        (case subnet_of value of
           None \<Rightarrow> Inl (2, [Note ''bad --tun-addr (want IPv4/PREFIX, e.g. 10.9.0.2/24)''])
         | Some _ \<Rightarrow> Inr (opts\<lparr>co_tun_addr := value\<rparr>))
      else if flag = ''--host-ipv6'' then
        (case parse_ipv6_policy value of
           None \<Rightarrow> Inl (2, [Note ''bad --host-ipv6 (want refuse, block or ignore)''])
         | Some policy \<Rightarrow> Inr (opts\<lparr>co_ipv6_policy := policy\<rparr>))
      else if flag = ''--private-key'' then Inr (opts\<lparr>co_private_key_path := value\<rparr>)
      else if flag = ''--peer-key'' then Inr (opts\<lparr>co_peer_key := value\<rparr>)
      else if flag = ''--mtu'' then
        (case parse_mtu value of
           None \<Rightarrow> Inl (2, [Note ''bad --mtu (want 576..1500)''])
         | Some mtu \<Rightarrow> Inr (opts\<lparr>co_mtu := mtu\<rparr>))
      else if flag = ''--listen-port'' then
        (case parse_port value of
           None \<Rightarrow> Inl (2, [Note ''bad --listen-port (want 1..65535)''])
         | Some port \<Rightarrow> Inr (opts\<lparr>co_listen_port := port\<rparr>))
      else Inl (2, [Note (''unknown argument '' @ flag), Usage (client_usage program)]))"

text \<open>The loop over the arguments behind the program's name.\<close>

fun client_args :: "string \<Rightarrow> client_options \<Rightarrow> string list \<Rightarrow> cli_exit + client_options" where
  "client_args program opts [] = Inr opts"
| "client_args program opts (flag # rest) =
     (if flag = ''-h'' \<or> flag = ''--help'' then Inl (0, [Usage (client_usage program)])
      else if flag = ''--no-routes'' then client_args program (opts\<lparr>co_install_routes := False\<rparr>) rest
      else (case rest of
              [] \<Rightarrow> Inl (2, [Note (flag @ '' is not a known option, or needs a value'')])
            | value # rest' \<Rightarrow>
                (case client_option program opts flag value of
                   Inl stop \<Rightarrow> Inl stop
                 | Inr opts' \<Rightarrow> client_args program opts' rest')))"

definition client_checks :: "string \<Rightarrow> client_options \<Rightarrow> cli_exit + client_options \<times> sockaddr_in" where
  "client_checks program opts =
     (case co_server opts of
        None \<Rightarrow> Inl (2, [Note ''--server is required'', Usage (client_usage program)])
      | Some server \<Rightarrow>
          if co_private_key_path opts = [] \<or> co_peer_key opts = []
          then Inl (2, [Note ''--private-key and --peer-key are both required'', Usage (client_usage program)])
          else Inr (opts, server))"

definition ipv6_refusal :: exn where
  "ipv6_refusal = Runtime_error (
     ''this host has a default IPv6 route, and this tunnel carries only IPv4.'' @ [CHR 0x0A] @
     ''       Traffic to any IPv6-capable destination would go around it, in the clear.'' @ [CHR 0x0A] @
     ''       Pass --host-ipv6 block to firewall IPv6 off while the tunnel is up,'' @ [CHR 0x0A] @
     ''       or --host-ipv6 ignore to accept the leak.'')"

definition ipv6_warning :: string where
  "ipv6_warning = ''WARNING: this host routes IPv6 and the tunnel does not carry it. '' @
     ''Traffic to IPv6 destinations is leaving in the clear.''"

definition client_banner :: "string \<Rightarrow> client_options \<Rightarrow> u16 \<Rightarrow> sockaddr_in \<Rightarrow> string" where
  "client_banner name opts port server =
     ''vpn: '' @ c_str name @ '' '' @ c_str (co_tun_addr opts) @ '' mtu '' @ int_to_string (co_mtu opts) @ '', udp/'' @
     to_string (unat port) @ '' -> '' @ c_str (format_endpoint server)"

definition client_ipv6 :: "'w os \<Rightarrow> Ipv6Policy \<Rightarrow> ('w, ChangeSet) sys" where
  "client_ipv6 os policy =
     bindS (host_has_ipv6 os) (\<lambda>routed.
     if routed then
       (case policy of
          Policy_refuse \<Rightarrow> throwS ipv6_refusal
        | Policy_block \<Rightarrow>
            bindS (block_host_ipv6 os) (\<lambda>blocked.
            bindS (ChangeSet_assign os False [] blocked) (\<lambda>(this, other). bindS (undo_all os other) (\<lambda>_. retS this)))
        | Policy_ignore \<Rightarrow> bindS (emitS (Note ipv6_warning)) (\<lambda>_. retS []))
     else retS [])"

definition client_routes :: "'w os \<Rightarrow> bool \<Rightarrow> string \<Rightarrow> sockaddr_in \<Rightarrow> ('w, ChangeSet) sys" where
  "client_routes os install name server =
     (if install then
        bindS (install_client_routes os name (format_address server)) (\<lambda>installed.
        bindS (ChangeSet_assign os False [] installed) (\<lambda>(this, other). bindS (undo_all os other) (\<lambda>_. retS this)))
      else retS [])"

text \<open>The last lines of the try block: the banner, the relay and its statistics.\<close>

definition run_and_report :: "'s crypto_lib \<Rightarrow> prog_env \<Rightarrow> string \<Rightarrow> RelayConfig \<Rightarrow> ('w, unit) sys" where
  "run_and_report L env name config =
     bindS (relayS L env name config) (\<lambda>(stats, out).
     bindS (emitS (Relayed out)) (\<lambda>_. emitS (Note (print_stats stats))))"

definition client_body :: "'w os \<Rightarrow> 's crypto_lib \<Rightarrow> prog_env \<Rightarrow> client_options \<Rightarrow> sockaddr_in \<Rightarrow> Identity \<Rightarrow> ('w, nat) sys" where
  "client_body os L env opts server identity =
     bindS (client_ipv6 os (co_ipv6_policy opts)) (\<lambda>ipv6_block.
     scopeS (undo_all os ipv6_block) (
       bindS (openS (tun_open (pe_open_tun env) (pe_tunsetiff env) (co_dev opts))) (\<lambda>tun.
       scopeS (closeS (tun_owner tun)) (
         bindS (configure_interface os (tun_ifname tun) (co_tun_addr opts) (co_mtu opts)) (\<lambda>_.
         bindS (openS (bind_any (pe_socket env) (pe_bind env) (co_listen_port opts))) (\<lambda>sock.
         scopeS (closeS (us_fd sock)) (
           bindS (client_routes os (co_install_routes opts) (tun_ifname tun) server) (\<lambda>routes.
           scopeS (undo_all os routes) (
             bindS (liftS (Some (local_port (pe_getsockname env)))) (\<lambda>port.
             bindS (emitS (Note (client_banner (tun_ifname tun) opts port server))) (\<lambda>_.
             bindS (run_and_report L env (tun_ifname tun)
                      \<lparr>rc_mtu = co_mtu opts, rc_role = Initiator, rc_peer = Some server, rc_identity = Some identity\<rparr>) (\<lambda>_.
             retS 0))))))))))))"

text \<open>Loading the identity, common to both programs: without keys the exit code is 1.\<close>

definition with_identity ::
  "'s crypto_lib \<Rightarrow> prog_env \<Rightarrow> string \<Rightarrow> string \<Rightarrow> (Identity \<Rightarrow> ('w, nat) sys) \<Rightarrow> ('w, nat) sys" where
  "with_identity L env path peer_key body =
     bindS (liftS (Some (crypto_init L))) (\<lambda>_.
     bindS (liftS (Some (load_identity L (pe_allocated env) (pe_key_mode env) (pe_key_contents env) path peer_key)))
       (\<lambda>(diags, identity).
     bindS (emitsS (map Key_diag diags)) (\<lambda>_.
     case identity of None \<Rightarrow> retS 1 | Some I \<Rightarrow> body I)))"

definition report_errors :: "('w, nat) sys \<Rightarrow> ('w, nat) sys" where
  "report_errors m = catchS m (\<lambda>error. bindS (emitS (Fatal error)) (\<lambda>_. retS 1))"

definition client_main :: "'w os \<Rightarrow> 's crypto_lib \<Rightarrow> prog_env \<Rightarrow> string \<Rightarrow> string list \<Rightarrow> ('w, nat) sys" where
  "client_main os L env program args =
     (case client_args program client_defaults args of
        Inl (code, msgs) \<Rightarrow> bindS (emitsS msgs) (\<lambda>_. retS code)
      | Inr opts \<Rightarrow>
          (case client_checks program opts of
             Inl (code, msgs) \<Rightarrow> bindS (emitsS msgs) (\<lambda>_. retS code)
           | Inr (opts, server) \<Rightarrow>
               report_errors (with_identity L env (co_private_key_path opts) (co_peer_key opts)
                 (client_body os L env opts server))))"

section \<open>The server\<close>

record server_options =
  so_dev :: string
  so_tun_addr :: string
  so_wan_if :: string
  so_mtu :: int
  so_listen_port :: u16
  so_install_nat :: bool
  so_private_key_path :: string
  so_peer_key :: string

definition server_defaults :: server_options where
  "server_defaults = \<lparr>so_dev = ''tun0'', so_tun_addr = ''10.9.0.1/24'', so_wan_if = [], so_mtu = int kDefaultTunnelMtu,
     so_listen_port = 51820, so_install_nat = True, so_private_key_path = [], so_peer_key = []\<rparr>"

definition server_usage :: "string \<Rightarrow> string" where
  "server_usage program = lines_of [
     ''usage: '' @ program @ '' [options]'',
     ''  --dev NAME          tun device name (default tun0)'',
     ''  --tun-addr CIDR     tunnel address (default 10.9.0.1/24)'',
     ''  --mtu N             tunnel MTU, 576..1500 (default 1420)'',
     ''  --listen-port N     udp port to bind (default 51820)'',
     ''  --wan-if NAME       interface to masquerade out of'',
     ''                      (default: whichever reaches the internet)'',
     ''  --private-key PATH  our private key, base64 (required)'',
     ''  --peer-key BASE64   the client'' @ [CHR 0x27] @ ''s public key (required)'',
     ''  --no-nat            do not forward or masquerade'']"

definition server_option :: "string \<Rightarrow> server_options \<Rightarrow> string \<Rightarrow> string \<Rightarrow> cli_exit + server_options" where
  "server_option program opts flag value =
     (if flag = ''--dev'' then Inr (opts\<lparr>so_dev := value\<rparr>)
      else if flag = ''--tun-addr'' then
        (case subnet_of value of
           None \<Rightarrow> Inl (2, [Note ''bad --tun-addr (want IPv4/PREFIX, e.g. 10.9.0.1/24)''])
         | Some _ \<Rightarrow> Inr (opts\<lparr>so_tun_addr := value\<rparr>))
      else if flag = ''--wan-if'' then Inr (opts\<lparr>so_wan_if := value\<rparr>)
      else if flag = ''--private-key'' then Inr (opts\<lparr>so_private_key_path := value\<rparr>)
      else if flag = ''--peer-key'' then Inr (opts\<lparr>so_peer_key := value\<rparr>)
      else if flag = ''--mtu'' then
        (case parse_mtu value of
           None \<Rightarrow> Inl (2, [Note ''bad --mtu (want 576..1500)''])
         | Some mtu \<Rightarrow> Inr (opts\<lparr>so_mtu := mtu\<rparr>))
      else if flag = ''--listen-port'' then
        (case parse_port value of
           None \<Rightarrow> Inl (2, [Note ''bad --listen-port (want 1..65535)''])
         | Some port \<Rightarrow> Inr (opts\<lparr>so_listen_port := port\<rparr>))
      else Inl (2, [Note (''unknown argument '' @ flag), Usage (server_usage program)]))"

fun server_args :: "string \<Rightarrow> server_options \<Rightarrow> string list \<Rightarrow> cli_exit + server_options" where
  "server_args program opts [] = Inr opts"
| "server_args program opts (flag # rest) =
     (if flag = ''-h'' \<or> flag = ''--help'' then Inl (0, [Usage (server_usage program)])
      else if flag = ''--no-nat'' then server_args program (opts\<lparr>so_install_nat := False\<rparr>) rest
      else (case rest of
              [] \<Rightarrow> Inl (2, [Note (flag @ '' is not a known option, or needs a value'')])
            | value # rest' \<Rightarrow>
                (case server_option program opts flag value of
                   Inl stop \<Rightarrow> Inl stop
                 | Inr opts' \<Rightarrow> server_args program opts' rest')))"

definition server_checks :: "string \<Rightarrow> server_options \<Rightarrow> cli_exit + server_options" where
  "server_checks program opts =
     (if so_private_key_path opts = [] \<or> so_peer_key opts = []
      then Inl (2, [Note ''--private-key and --peer-key are both required'', Usage (server_usage program)])
      else Inr opts)"

definition server_banner :: "string \<Rightarrow> server_options \<Rightarrow> u16 \<Rightarrow> string" where
  "server_banner name opts port =
     ''vpnd: '' @ c_str name @ '' '' @ c_str (so_tun_addr opts) @ '' mtu '' @ int_to_string (so_mtu opts) @
     '', listening on udp/'' @ to_string (unat port) @ [CHR 0x0A] @
     ''vpnd: no peer yet '' @ [CHR 0xE2, CHR 0x80, CHR 0x94] @ '' the client has to send first''"

text \<open>The assignment of the installed set to the empty one, member by member.\<close>

definition ServerNat_assign :: "'w os \<Rightarrow> ServerNat \<Rightarrow> ServerNat \<Rightarrow> ('w, ServerNat \<times> ServerNat) sys" where
  "ServerNat_assign os this other =
     bindS (ScopedSysctl_assign os False (sn_ip_forward this) (sn_ip_forward other)) (\<lambda>(f, f').
     bindS (ChangeSet_assign os False (sn_rules this) (sn_rules other)) (\<lambda>(r, r').
     retS (\<lparr>sn_ip_forward = f, sn_rules = r\<rparr>, \<lparr>sn_ip_forward = f', sn_rules = r'\<rparr>)))"

definition server_nat :: "'w os \<Rightarrow> server_options \<Rightarrow> string \<Rightarrow> ('w, ServerNat) sys" where
  "server_nat os opts name =
     (if so_install_nat opts then
        bindS (if so_wan_if opts = [] then bindS (route_to os ''1.1.1.1'') (\<lambda>info. retS (ri_dev info))
               else retS (so_wan_if opts)) (\<lambda>wan_if.
        bindS (install_server_nat os name (the (subnet_of (so_tun_addr opts))) wan_if) (\<lambda>installed.
        bindS (ServerNat_assign os ServerNat_init installed) (\<lambda>(this, other).
        bindS (ServerNat_destroy os other) (\<lambda>_. retS this))))
      else retS ServerNat_init)"

definition server_body :: "'w os \<Rightarrow> 's crypto_lib \<Rightarrow> prog_env \<Rightarrow> server_options \<Rightarrow> Identity \<Rightarrow> ('w, nat) sys" where
  "server_body os L env opts identity =
     bindS (openS (tun_open (pe_open_tun env) (pe_tunsetiff env) (so_dev opts))) (\<lambda>tun.
     scopeS (closeS (tun_owner tun)) (
       bindS (configure_interface os (tun_ifname tun) (so_tun_addr opts) (so_mtu opts)) (\<lambda>_.
       bindS (openS (bind_any (pe_socket env) (pe_bind env) (so_listen_port opts))) (\<lambda>sock.
       scopeS (closeS (us_fd sock)) (
         bindS (server_nat os opts (tun_ifname tun)) (\<lambda>nat_changes.
         scopeS (ServerNat_destroy os nat_changes) (
           bindS (liftS (Some (local_port (pe_getsockname env)))) (\<lambda>port.
           bindS (emitS (Note (server_banner (tun_ifname tun) opts port))) (\<lambda>_.
           bindS (run_and_report L env (tun_ifname tun)
                    \<lparr>rc_mtu = so_mtu opts, rc_role = Responder, rc_peer = None, rc_identity = Some identity\<rparr>) (\<lambda>_.
           retS 0))))))))))"

definition server_main :: "'w os \<Rightarrow> 's crypto_lib \<Rightarrow> prog_env \<Rightarrow> string \<Rightarrow> string list \<Rightarrow> ('w, nat) sys" where
  "server_main os L env program args =
     (case server_args program server_defaults args of
        Inl (code, msgs) \<Rightarrow> bindS (emitsS msgs) (\<lambda>_. retS code)
      | Inr opts \<Rightarrow>
          (case server_checks program opts of
             Inl (code, msgs) \<Rightarrow> bindS (emitsS msgs) (\<lambda>_. retS code)
           | Inr opts \<Rightarrow>
               report_errors (with_identity L env (so_private_key_path opts) (so_peer_key opts)
                 (server_body os L env opts))))"

section \<open>The key tool\<close>

definition key_usage :: "string \<Rightarrow> string" where
  "key_usage program = lines_of [
     ''usage: '' @ program @ '' genkey | pubkey'',
     ''  genkey    write a new private key, base64, to stdout'',
     ''  pubkey    read a private key from stdin, write its public key'']"

text \<open>The exit code, what is printed on the standard output, and what on the standard error output.\<close>

record key_result =
  kr_code :: nat
  kr_stdout :: string
  kr_stderr :: "net_out list"

definition genkey :: "'s crypto_lib \<Rightarrow> bool \<Rightarrow> bytes \<Rightarrow> key_result result" where
  "genkey L stdout_is_terminal rnd =
     (if stdout_is_terminal
      then Inr \<lparr>kr_code = 1, kr_stdout = [], kr_stderr = [Note (''refusing to print a private key to a terminal; redirect it:'' @ [CHR 0x0A] @
             ''  vpnkey genkey > private.key'')]\<rparr>
      else bindR (generate_keypair L rnd) (\<lambda>(private_key, public_key).
             Inr \<lparr>kr_code = 0, kr_stdout = c_str (to_base64 L private_key) @ [CHR 0x0A], kr_stderr = []\<rparr>))"

definition pubkey :: "'s crypto_lib \<Rightarrow> string \<Rightarrow> key_result result" where
  "pubkey L input =
     (let line = rev (trim_back (rev (getline input)))
      in (case from_base64 L line of
            None \<Rightarrow> Inr \<lparr>kr_code = 1, kr_stdout = [], kr_stderr = [Note ''stdin is not a base64 32-byte private key'']\<rparr>
          | Some decoded \<Rightarrow>
              if length decoded \<noteq> kKeySize
              then Inr \<lparr>kr_code = 1, kr_stdout = [], kr_stderr = [Note ''stdin is not a base64 32-byte private key'']\<rparr>
              else bindR (derive_public L decoded) (\<lambda>public_key.
                     Inr \<lparr>kr_code = 0, kr_stdout = c_str (to_base64 L public_key) @ [CHR 0x0A], kr_stderr = []\<rparr>)))"

definition key_main :: "'s crypto_lib \<Rightarrow> bool \<Rightarrow> bytes \<Rightarrow> string \<Rightarrow> string list \<Rightarrow> key_result" where
  "key_main L stdout_is_terminal rnd input argv =
     (if length argv \<noteq> 2 then \<lparr>kr_code = 2, kr_stdout = [], kr_stderr = [Usage (key_usage (argv ! 0))]\<rparr>
      else
        (case bindR (crypto_init L) (\<lambda>_.
                if argv ! 1 = ''genkey'' then genkey L stdout_is_terminal rnd
                else if argv ! 1 = ''pubkey'' then pubkey L input
                else Inr \<lparr>kr_code = 2, kr_stdout = [], kr_stderr = [Usage (key_usage (argv ! 0))]\<rparr>) of
           Inr r \<Rightarrow> r
         | Inl error \<Rightarrow> \<lparr>kr_code = 1, kr_stdout = [], kr_stderr = [Fatal error]\<rparr>))"

end
