(* ===== verification/Netcfg_Logic.thy ===== *)
theory Netcfg_Logic
  imports Netcfg
begin

text \<open>
  How the operations of the network configuration are reasoned about. \<open>yields\<close> is total and \<open>ensures\<close>
  partial correctness with one postcondition for an exception and one for a value; \<open>keeps\<close> and
  \<open>acquires\<close> say of an operation that it leaves a part of the host's configuration alone, or that it
  changes it in a way its release takes back. \<open>tools_ok\<close> collects what is assumed of the system's tools:
  \<^verbatim>\<open>ip\<close>, \<^verbatim>\<open>iptables\<close> and \<^verbatim>\<open>ip6tables\<close> delete what they added, queries change nothing, and a sysctl file
  gives back what was written.
\<close>

section \<open>Total correctness of system operations\<close>

text \<open>
  \<open>yields m h E V\<close>: the operation returns from the state \<open>h\<close>; an exception and the state it leaves
  satisfy \<open>E\<close>, a value and its state \<open>V\<close>. The rewrite rules compute it for a composed operation.
\<close>

definition yields ::
  "('w, 'a) sys \<Rightarrow> 'w host \<Rightarrow> (exn \<Rightarrow> 'w host \<Rightarrow> bool) \<Rightarrow> ('a \<Rightarrow> 'w host \<Rightarrow> bool) \<Rightarrow> bool" where
  "yields m h E V \<longleftrightarrow> (\<exists>r h'. m h = Some (r, h') \<and> (case r of Inl e \<Rightarrow> E e h' | Inr x \<Rightarrow> V x h'))"

lemma yields_simps [simp]:
  "yields (retS x) h E V1 \<longleftrightarrow> V1 x h"
  "yields (throwS e) h E V2 \<longleftrightarrow> E e h"
  "yields (askS f) h E V3 \<longleftrightarrow> V3 (f (ho_world h)) h"
  "yields (emitS out) h E V4 \<longleftrightarrow> V4 () (h\<lparr>ho_out := ho_out h @ [out]\<rparr>)"
  "yields (changeS c) h E V5 \<longleftrightarrow> V5 (fst (c (ho_world h))) (h\<lparr>ho_world := snd (c (ho_world h))\<rparr>)"
  "yields (liftS io) h E V6 \<longleftrightarrow> (\<exists>r. io = Some r \<and> (case r of Inl e \<Rightarrow> E e h | Inr x \<Rightarrow> V6 x h))"
  by (auto simp: yields_def retS_def throwS_def askS_def emitS_def changeS_def liftS_def split: prod.splits)

lemma yields_bind [simp]: "yields (bindS m f) h E V \<longleftrightarrow> yields m h E (\<lambda>x h'. yields (f x) h' E V)"
  by (auto simp: yields_def bindS_def split: option.splits sum.splits)

lemma yields_catch [simp]: "yields (catchS m f) h E V \<longleftrightarrow> yields m h (\<lambda>e h'. yields (f e) h' E V) V"
  by (auto simp: yields_def catchS_def split: option.splits sum.splits)

lemma yields_unwind [simp]:
  "yields (unwindS c m) h E V \<longleftrightarrow> yields m h (\<lambda>e h'. yields c h' E (\<lambda>_ h''. E e h'')) V"
  by (simp add: unwindS_def)

lemma yields_scope [simp]: "yields (scopeS c m) h E V \<longleftrightarrow>
  yields m h (\<lambda>e h'. yields c h' E (\<lambda>_ h''. E e h'')) (\<lambda>x h'. yields c h' E (\<lambda>_ h''. V x h''))"
  by (simp add: scopeS_def)

lemma yields_emits [simp]: "yields (emitsS outs) h E V \<longleftrightarrow> V () (h\<lparr>ho_out := ho_out h @ outs\<rparr>)"
  by (induction outs arbitrary: h) simp_all

lemma yields_descr [simp]:
  "yields (descrS es) h E V1 \<longleftrightarrow> V1 () (h\<lparr>ho_out := ho_out h @ map Descriptor es\<rparr>)"
  "yields (closeS fd) h E V2 \<longleftrightarrow> V2 () (h\<lparr>ho_out := ho_out h @ map (\<lambda>fd. Descriptor (Closed fd)) (fd_destroy fd)\<rparr>)"
  by (simp_all add: descrS_def closeS_def comp_def)

lemma yields_mono:
  assumes "yields m h E V" and "\<And>e h'. m h = Some (Inl e, h') \<Longrightarrow> E e h' \<Longrightarrow> E' e h'"
    and "\<And>x h'. m h = Some (Inr x, h') \<Longrightarrow> V x h' \<Longrightarrow> V' x h'"
  shows "yields m h E' V'"
proof -
  from assms(1) obtain r h' where "m h = Some (r, h')" "case r of Inl e \<Rightarrow> E e h' | Inr x \<Rightarrow> V x h'" by (auto simp: yields_def)
  with assms(2,3) show ?thesis by (cases r) (auto simp: yields_def)
qed

lemma yields_eq: "m h = Some (Inl e, h') \<Longrightarrow> yields m h E V \<longleftrightarrow> E e h'" "m h = Some (Inr x, h') \<Longrightarrow> yields m h E V \<longleftrightarrow> V x h'"
  by (auto simp: yields_def)

text \<open>Tools that end: their output ends, and waiting for them gives a status.\<close>

definition ends :: "string \<Rightarrow> child \<Rightarrow> bool" where
  "ends prog child \<longleftrightarrow> (\<forall>what. \<exists>r. read_output what [] (ch_reads child) = Some r) \<and> (\<exists>r. wait_loop prog (ch_waits child) = Some r)"

definition responsive :: "'w os \<Rightarrow> bool" where
  "responsive os \<longleftrightarrow> (\<forall>w prog argv actions. ends prog (fst (os_spawn os w prog argv actions)))"

abbreviation returns :: "('w, 'a) sys \<Rightarrow> 'w host \<Rightarrow> bool" where
  "returns m h \<equiv> yields m h (\<lambda>e h'. True) (\<lambda>x h'. True)"

lemma bind_ret [simp]: "bindS (retS x) f = f x"
  by (simp add: bindS_def retS_def fun_eq_iff)

lemma assign_default [simp]: "assignS UniqueFd_default (UniqueFd fd) = retS fd"
  by (simp add: assignS_def fd_simps descrS_def)

lemma reset_close: "resetS fd = bindS (closeS fd) (\<lambda>_. retS (fst (fd_reset fd)))"
  by (simp add: resetS_def closeS_def fd_destroy_def split_beta)

lemma returns_bind: "yields m h (\<lambda>e h'. True) V \<Longrightarrow> (\<And>x h'. V x h' \<Longrightarrow> returns (f x) h') \<Longrightarrow> returns (bindS m f) h"
  by (auto elim: yields_mono)

lemma returns_cleanup: "returns m h \<Longrightarrow> (\<And>h'. returns c h') \<Longrightarrow> returns (scopeS c m) h"
  by (auto elim: yields_mono)

lemma returns_spawn: "returns (SpawnActions os) h1" "returns SpawnActions_destroy h2" "returns (open_pipe os UniqueFd_default UniqueFd_default) h3"
  "returns (actions_dup2 os actions from to) h4" "returns (check_status prog args status) h5" "returns (resetS fd) h6"
  by (simp_all add: SpawnActions_def SpawnActions_destroy_def open_pipe_def actions_dup2_def check_status_def reset_close
    split: syscall.split prod.split)

lemma spawn_child_ends:
  "responsive os \<Longrightarrow> yields (spawn_child os prog args actions) h (\<lambda>e h'. True) (\<lambda>child h'. ends prog child)"
  by (simp add: spawn_child_def responsive_def)

lemma returns_lift: "\<exists>r. io = Some r \<Longrightarrow> returns (liftS io) h"
  by (auto split: sum.split)

lemma spawn_and_wait_returns:
  assumes "responsive os"
  shows "returns (spawn_and_wait os prog args capture) h"
proof -
  have child: "yields (unwindS (closeS fd) (bindS (if capture then actions_dup2 os actions fd1 fd2 else retS actions)
      (spawn_child os prog args))) h (\<lambda>e h'. True) (\<lambda>child h'. ends prog child)" for fd actions fd1 fd2 h
    using spawn_child_ends [OF assms] by (cases capture) (auto simp: actions_dup2_def elim!: yields_mono)
  have rest: "returns (bindS (if capture then bindS (descrS es) (\<lambda>_. liftS (read_output what [] (ch_reads child))) else retS [])
      (\<lambda>output. bindS (liftS (wait_loop prog (ch_waits child))) (\<lambda>status. bindS (check_status prog args status) (\<lambda>_. retS output)))) h"
    if "ends prog child" for es what child and h :: "'a host"
    using that unfolding ends_def
    by (intro returns_bind [where V = "\<lambda>x h'. True"] returns_spawn returns_lift) (auto intro: returns_lift)
  show ?thesis unfolding spawn_and_wait_def split_beta
    by (intro returns_bind [where V = "\<lambda>x h'. True"] returns_cleanup returns_spawn returns_bind [OF child] rest)
      (simp_all add: returns_spawn)
qed

lemma binary_for_returns: "yields (binary_for os tool) h (\<lambda>e h'. h' = h) (\<lambda>x h'. h' = h)"
  by (auto simp: binary_for_def find_binary_def split: Tool.split option.split)

lemma net_run_returns:
  assumes "responsive os"
  shows "returns (net_run os tool args) h" "returns (run_capture os tool args) h"
  using spawn_and_wait_returns [OF assms]
  by (auto simp: net_run_def run_capture_def intro!: yields_mono [OF binary_for_returns] elim!: yields_mono)

section \<open>Changes are undone\<close>

text \<open>
  What the code relies on of the tools. \<open>view\<close> is the configuration of the host other than that of the
  tunnel device: a change is reversible if a failed application leaves it alone and, after a
  successful one, the undo command succeeds and gives back the configuration from before.
\<close>

definition reversible :: "'w os \<Rightarrow> ('w \<Rightarrow> 'c) \<Rightarrow> Tool \<times> string list \<times> string list \<Rightarrow> bool" where
  "reversible os view change \<longleftrightarrow> (case change of (tool, apply, undo) \<Rightarrow> undo \<noteq> [] \<and>
     (\<forall>h e h'. net_run os tool apply h = Some (Inl e, h') \<longrightarrow> view (ho_world h') = view (ho_world h)) \<and>
     (\<forall>h h' g. net_run os tool apply h = Some (Inr (), h') \<longrightarrow> view (ho_world g) = view (ho_world h') \<longrightarrow>
        yields (net_run os tool undo) g (\<lambda>e g'. False) (\<lambda>_ g'. view (ho_world g') = view (ho_world h))))"

text \<open>A set of changes whose destruction, from any state that looks like \<open>h\<close>, gives back the configuration \<open>v\<close>.\<close>

definition restores :: "'w os \<Rightarrow> ('w \<Rightarrow> 'c) \<Rightarrow> ChangeSet \<Rightarrow> 'w host \<Rightarrow> 'c \<Rightarrow> bool" where
  "restores os view cs h v \<longleftrightarrow> (\<forall>g. view (ho_world g) = view (ho_world h) \<longrightarrow>
     yields (undo_all os cs) g (\<lambda>e g'. False) (\<lambda>_ g'. view (ho_world g') = v))"

lemma undo_all_Nil [simp]: "undo_all os [] = retS ()"
  by (simp add: undo_all.simps)

lemma undo_all_snoc [simp]: "undo_all os (cs @ [c]) = bindS (ScopedCommand_destroy os c) (\<lambda>_. undo_all os cs)"
  by (subst undo_all.simps) simp

lemma restores_Nil: "restores os view [] h (view (ho_world h))"
  by (simp add: restores_def)

lemma restores_snoc:
  assumes "restores os view cs h v" and "reversible os view (tool, apply, undo)"
    and "net_run os tool apply h = Some (Inr (), h')"
  shows "restores os view (cs @ [\<lparr>sc_tool = tool, sc_undo = undo\<rparr>]) h' v"
  unfolding restores_def
proof (intro allI impI)
  fix g :: "'a host" assume g: "view (ho_world g) = view (ho_world h')"
  have u: "undo \<noteq> []" and "yields (net_run os tool undo) g (\<lambda>e g'. False) (\<lambda>_ g'. view (ho_world g') = view (ho_world h))"
    using assms(2,3) g by (auto simp: reversible_def)
  with assms(1) show "yields (undo_all os (cs @ [\<lparr>sc_tool = tool, sc_undo = undo\<rparr>])) g (\<lambda>e g'. False) (\<lambda>_ g'. view (ho_world g') = v)"
    by (auto simp: ScopedCommand_destroy_def restores_def elim!: yields_mono)
qed

lemma add_changes_restorable:
  assumes "responsive os" and "\<forall>c \<in> set changes. reversible os view c" and "restores os view cs h v"
  shows "yields (add_changes os cs changes) h (\<lambda>e h'. view (ho_world h') = v) (\<lambda>cs' h'. restores os view cs' h' v)"
  using assms(2,3)
proof (induction changes arbitrary: cs h)
  case (Cons c changes)
  obtain tool app undo where c: "c = (tool, app, undo)" by (metis prod_cases3)
  have rv: "reversible os view (tool, app, undo)" using Cons.prems(1) c by simp
  from net_run_returns(1) [OF assms(1), of tool app h] obtain r h1 where r: "net_run os tool app h = Some (r, h1)"
    by (auto simp: yields_def)
  show ?case
  proof (cases r)
    case (Inl e)
    with r rv have "view (ho_world h1) = view (ho_world h)" by (auto simp: reversible_def)
    with Cons.prems(2) have "yields (undo_all os cs) h1 (\<lambda>e g'. False) (\<lambda>_ g'. view (ho_world g') = v)" by (simp add: restores_def)
    then show ?thesis using r Inl
      by (auto simp: c changes_add_def ScopedCommand_make_def yields_eq elim!: yields_mono)
  next
    case (Inr x)
    with Cons.IH [OF _ restores_snoc [OF Cons.prems(2) rv]] Cons.prems(1) r show ?thesis
      by (simp add: c changes_add_def ScopedCommand_make_def yields_eq)
  qed
qed simp

section \<open>Order of the client's routes\<close>

fun command_of :: "net_out \<Rightarrow> string list list" where
  "command_of (Spawned prog args) = [args]"
| "command_of _ = []"

definition commands :: "net_out list \<Rightarrow> string list list" where
  "commands outs = List.concat (map command_of outs)"

lemma commands_simps [simp]: "commands [] = []" "commands (x # xs) = command_of x @ commands xs"
  "commands (xs @ ys) = commands xs @ commands ys"
  by (simp_all add: commands_def)

text \<open>\<open>ensures\<close> is \<open>yields\<close> without the claim that the operation returns.\<close>

definition ensures ::
  "('w, 'a) sys \<Rightarrow> 'w host \<Rightarrow> (exn \<Rightarrow> 'w host \<Rightarrow> bool) \<Rightarrow> ('a \<Rightarrow> 'w host \<Rightarrow> bool) \<Rightarrow> bool" where
  "ensures m h E V \<longleftrightarrow> (\<forall>r h'. m h = Some (r, h') \<longrightarrow> (case r of Inl e \<Rightarrow> E e h' | Inr x \<Rightarrow> V x h'))"

lemma ensures_simps [simp]:
  "ensures (retS x) h E V1 \<longleftrightarrow> V1 x h"
  "ensures (throwS e) h E V2 \<longleftrightarrow> E e h"
  "ensures (askS f) h E V3 \<longleftrightarrow> V3 (f (ho_world h)) h"
  "ensures (emitS out) h E V4 \<longleftrightarrow> V4 () (h\<lparr>ho_out := ho_out h @ [out]\<rparr>)"
  "ensures (changeS c) h E V5 \<longleftrightarrow> V5 (fst (c (ho_world h))) (h\<lparr>ho_world := snd (c (ho_world h))\<rparr>)"
  "ensures (liftS io) h E V6 \<longleftrightarrow> (\<forall>r. io = Some r \<longrightarrow> (case r of Inl e \<Rightarrow> E e h | Inr x \<Rightarrow> V6 x h))"
  by (auto simp: ensures_def retS_def throwS_def askS_def emitS_def changeS_def liftS_def split: prod.splits)

lemma ensures_bind [simp]: "ensures (bindS m f) h E V \<longleftrightarrow> ensures m h E (\<lambda>x h'. ensures (f x) h' E V)"
  by (auto simp: ensures_def bindS_def split: option.splits sum.splits)

lemma ensures_catch [simp]: "ensures (catchS m f) h E V \<longleftrightarrow> ensures m h (\<lambda>e h'. ensures (f e) h' E V) V"
  by (auto simp: ensures_def catchS_def split: option.splits sum.splits)

lemma ensures_unwind [simp]:
  "ensures (unwindS c m) h E V \<longleftrightarrow> ensures m h (\<lambda>e h'. ensures c h' E (\<lambda>_ h''. E e h'')) V"
  by (simp add: unwindS_def)

lemma ensures_scope [simp]: "ensures (scopeS c m) h E V \<longleftrightarrow>
  ensures m h (\<lambda>e h'. ensures c h' E (\<lambda>_ h''. E e h'')) (\<lambda>x h'. ensures c h' E (\<lambda>_ h''. V x h''))"
  by (simp add: scopeS_def)

lemma ensures_emits [simp]: "ensures (emitsS outs) h E V \<longleftrightarrow> V () (h\<lparr>ho_out := ho_out h @ outs\<rparr>)"
  by (induction outs arbitrary: h) simp_all

lemma ensures_descr [simp]:
  "ensures (descrS es) h E V1 \<longleftrightarrow> V1 () (h\<lparr>ho_out := ho_out h @ map Descriptor es\<rparr>)"
  "ensures (closeS fd) h E V2 \<longleftrightarrow> V2 () (h\<lparr>ho_out := ho_out h @ map (\<lambda>fd. Descriptor (Closed fd)) (fd_destroy fd)\<rparr>)"
  by (simp_all add: descrS_def closeS_def comp_def)

lemma ensures_mono:
  assumes "ensures m h E V" and "\<And>e h'. m h = Some (Inl e, h') \<Longrightarrow> E e h' \<Longrightarrow> E' e h'"
    and "\<And>x h'. m h = Some (Inr x, h') \<Longrightarrow> V x h' \<Longrightarrow> V' x h'"
  shows "ensures m h E' V'"
  unfolding ensures_def
proof (intro allI impI)
  fix r h' assume "m h = Some (r, h')"
  with assms show "case r of Inl e \<Rightarrow> E' e h' | Inr x \<Rightarrow> V' x h'" by (cases r) (auto simp: ensures_def)
qed

lemma ensuresD: "ensures m h E V \<Longrightarrow> m h = Some (Inl e, h1) \<Longrightarrow> E e h1" "ensures m h E V \<Longrightarrow> m h = Some (Inr x, h2) \<Longrightarrow> V x h2"
  by (auto simp: ensures_def)

lemma ensures_True [simp]: "ensures m h (\<lambda>e h'. True) (\<lambda>x h'. True)"
  by (auto simp: ensures_def split: sum.split)

text \<open>
  What an operation has reported since a state \<open>h\<close>, and the part of it that is not about the means of
  running a tool: the file actions and the descriptors.
\<close>

definition emitted :: "'w host \<Rightarrow> (net_out list \<Rightarrow> bool) \<Rightarrow> 'w host \<Rightarrow> bool" where
  "emitted h Q h' \<longleftrightarrow> (\<exists>outs. ho_out h' = ho_out h @ outs \<and> Q outs)"

fun outward :: "net_out \<Rightarrow> bool" where
  "outward (Descriptor e) \<longleftrightarrow> False"
| "outward Actions_init \<longleftrightarrow> False"
| "outward Actions_destroy \<longleftrightarrow> False"
| "outward _ \<longleftrightarrow> True"

definition effects :: "net_out list \<Rightarrow> net_out list" where
  "effects = filter outward"

lemma effects_simps [simp]: "effects [] = []" "effects (x # xs) = (if outward x then x # effects xs else effects xs)"
  "effects (xs @ ys) = effects xs @ effects ys" "effects (map Descriptor es) = []"
  "effects (map (\<lambda>fd. Descriptor (E fd)) fds) = []"
  by (auto simp: effects_def filter_empty_conv)

lemma command_of_effect: "\<not> outward x \<Longrightarrow> command_of x = []"
  by (cases x) simp_all

lemma commands_effects: "commands (effects outs) = commands outs"
  by (induction outs) (auto simp: command_of_effect)

lemma in_effects [simp]: "x \<in> set (effects outs) \<longleftrightarrow> x \<in> set outs \<and> outward x"
  by (auto simp: effects_def)

definition did :: "net_out list \<Rightarrow> 'w host \<Rightarrow> 'w host \<Rightarrow> bool" where
  "did es h = emitted h (\<lambda>outs. effects outs = es)"

lemma did_refl: "did [] h h"
  by (simp add: did_def emitted_def)

lemma did_trans: "did es h g \<Longrightarrow> did es' g g' \<Longrightarrow> did (es @ es') h g'"
  by (auto simp: did_def emitted_def)

lemma did_emit: "did es h g \<Longrightarrow> outward x \<Longrightarrow> did (es @ [x]) h (g\<lparr>ho_out := ho_out g @ [x]\<rparr>)"
  by (auto simp: did_def emitted_def)

text \<open>A tool that is run is spawned at most once, and once if it succeeds.\<close>

definition ran_tool :: "string list \<Rightarrow> bool \<Rightarrow> 'w host \<Rightarrow> 'w host \<Rightarrow> bool" where
  "ran_tool args ok h h' \<longleftrightarrow> (\<exists>prog. did [Spawned prog args] h h') \<or> \<not> ok \<and> did [] h h'"

lemma ran_tool_refl [simp]: "ran_tool args False h h"
  by (simp add: ran_tool_def did_refl)

lemma ran_tool_emitted: "ran_tool args ok h h' \<Longrightarrow>
  emitted h (\<lambda>outs. (commands outs = [args] \<or> \<not> ok \<and> commands outs = []) \<and> (\<forall>x\<in>set outs. outward x \<longrightarrow> (\<exists>prog. x = Spawned prog args))) h'"
  unfolding ran_tool_def did_def
proof (elim disjE exE conjE)
  have step: "emitted h (\<lambda>outs. (commands outs = [args] \<or> \<not> ok \<and> commands outs = []) \<and>
      (\<forall>x\<in>set outs. outward x \<longrightarrow> (\<exists>prog. x = Spawned prog args))) h'"
    if "emitted h (\<lambda>outs. effects outs = es) h'" "commands es = [args] \<or> \<not> ok \<and> commands es = []"
      "\<forall>x\<in>set es. \<exists>prog. x = Spawned prog args" for es
  proof -
    from that(1) obtain outs where o: "ho_out h' = ho_out h @ outs" "effects outs = es" by (auto simp: emitted_def)
    have "commands outs = commands es" using commands_effects [of outs] o(2) by simp
    moreover have "\<exists>prog. x = Spawned prog args" if "x \<in> set outs" "outward x" for x
      using that in_effects [of x outs] o(2) \<open>\<forall>x\<in>set es. \<exists>prog. x = Spawned prog args\<close> by blast
    ultimately show ?thesis using o(1) that(2) unfolding emitted_def by (intro exI [of _ outs]) simp
  qed
  show "emitted h (\<lambda>outs. (commands outs = [args] \<or> \<not> ok \<and> commands outs = []) \<and>
      (\<forall>x\<in>set outs. outward x \<longrightarrow> (\<exists>prog. x = Spawned prog args))) h'"
    if "emitted h (\<lambda>outs. effects outs = [Spawned prog args]) h'" for prog by (rule step [OF that]) simp_all
  show "emitted h (\<lambda>outs. (commands outs = [args] \<or> \<not> ok \<and> commands outs = []) \<and>
      (\<forall>x\<in>set outs. outward x \<longrightarrow> (\<exists>prog. x = Spawned prog args))) h'"
    if "\<not> ok" "emitted h (\<lambda>outs. effects outs = []) h'" by (rule step [OF that(2)]) (simp_all add: that(1))
qed

text \<open>
  What a run of a tool reports, on each way out: the file actions are destroyed last, both ends of the
  pipe are closed, and the writing end before the first read, so that the output has an end.
\<close>

definition closings :: "int \<Rightarrow> net_out list" where
  "closings fd = map (\<lambda>fd. Descriptor (Closed fd)) (fd_destroy fd)"

definition spawn_failures :: "(int \<times> int) syscall \<Rightarrow> net_out list set" where
  "spawn_failures pipe = {[], [Actions_init, Actions_destroy]} \<union>
     (case pipe of Sys_err e \<Rightarrow> {} | Sys_ok (r, w) \<Rightarrow>
        {[Actions_init, Descriptor (Opened r), Descriptor (Opened w)] @ closings w @ closings r @ [Actions_destroy]})"

definition spawn_runs :: "string \<Rightarrow> string list \<Rightarrow> bool \<Rightarrow> (int \<times> int) syscall \<Rightarrow> net_out list set" where
  "spawn_runs prog args capture pipe =
     (if capture then
        (case pipe of Sys_err e \<Rightarrow> {} | Sys_ok (r, w) \<Rightarrow>
           {[Actions_init, Descriptor (Opened r), Descriptor (Opened w), Spawned prog args] @ closings w @ [Descriptor (Read_from r)] @
            closings r @ [Actions_destroy]})
      else {[Actions_init, Spawned prog args, Actions_destroy]})"

lemma reset_destroyed: "fd_destroy (fst (fd_reset fd)) = []" "fd_destroy UniqueFd_default = []"
  by (simp_all add: fd_simps)

lemma spawn_and_wait_traces:
  "ensures (spawn_and_wait os prog args capture) h
     (\<lambda>e. emitted h (\<lambda>outs. outs \<in> spawn_failures (os_pipe2 os (ho_world h)) \<union> spawn_runs prog args capture (os_pipe2 os (ho_world h))))
     (\<lambda>x. emitted h (\<lambda>outs. outs \<in> spawn_runs prog args capture (os_pipe2 os (ho_world h))))"
proof (cases "os_pipe2 os (ho_world h)")
  case (Sys_ok pipe)
  obtain r w where p: "pipe = (r, w)" by fastforce
  show ?thesis
    by (cases capture)
      (simp_all add: spawn_and_wait_def SpawnActions_def SpawnActions_destroy_def actions_dup2_def open_pipe_def spawn_child_def check_status_def
        reset_close reset_destroyed Sys_ok p emitted_def spawn_runs_def spawn_failures_def closings_def fd_get_def split: sum.split)
next
  case (Sys_err e)
  show ?thesis
    by (cases capture)
      (simp_all add: spawn_and_wait_def SpawnActions_def SpawnActions_destroy_def actions_dup2_def open_pipe_def spawn_child_def check_status_def
        reset_close reset_destroyed Sys_err emitted_def spawn_runs_def spawn_failures_def closings_def split: sum.split)
qed

lemma effects_closings [simp]: "effects (closings fd) = []"
  by (simp add: closings_def)

lemma effects_traces:
  "outs \<in> spawn_failures pipe \<Longrightarrow> effects outs = []" "outs \<in> spawn_runs prog args capture pipe \<Longrightarrow> effects outs = [Spawned prog args]"
  by (auto simp: spawn_failures_def spawn_runs_def split: syscall.splits if_splits)

lemma spawn_and_wait_ran: "ensures (spawn_and_wait os prog args capture) h (\<lambda>e. ran_tool args False h) (\<lambda>x. ran_tool args True h)"
  by (rule ensures_mono [OF spawn_and_wait_traces]) (auto simp: ran_tool_def did_def emitted_def dest!: effects_traces)

lemma binary_for_same: "ensures (binary_for os tool) h (\<lambda>e h'. h' = h) (\<lambda>x h'. h' = h)"
  by (auto simp: binary_for_def find_binary_def split: Tool.split option.split)

lemma net_run_ran:
  "ensures (net_run os tool args) h (\<lambda>e. ran_tool args False h) (\<lambda>x. ran_tool args True h)"
  "ensures (run_capture os tool args) h (\<lambda>e. ran_tool args False h) (\<lambda>x. ran_tool args True h)"
  using spawn_and_wait_ran
  by (auto simp: net_run_def run_capture_def intro!: ensures_mono [OF binary_for_same])

lemma add_changes_commands:
  "ensures (add_changes os cs changes) h (\<lambda>e h'. True) (\<lambda>cs' h'.
     (\<exists>outs. ho_out h' = ho_out h @ outs \<and> commands outs = map (\<lambda>(tool, app, undo). app) changes) \<and>
     map sc_undo cs' = map sc_undo cs @ map (\<lambda>(tool, app, undo). undo) changes)"
proof (induction changes arbitrary: cs h)
  case (Cons c changes)
  obtain tool app undo where c: "c = (tool, app, undo)" by (metis prod_cases3)
  let ?cs = "cs @ [\<lparr>sc_tool = tool, sc_undo = undo\<rparr>]"
  have "ensures (add_changes os ?cs changes) h1 (\<lambda>e h'. True) (\<lambda>cs' h'.
     (\<exists>outs. ho_out h' = ho_out h @ outs \<and> commands outs = map (\<lambda>(tool, app, undo). app) (c # changes)) \<and>
     map sc_undo cs' = map sc_undo cs @ map (\<lambda>(tool, app, undo). undo) (c # changes))" if "ran_tool app True h h1" for h1
    using ran_tool_emitted [OF that] by (intro ensures_mono [OF Cons.IH]) (auto simp: c emitted_def)
  then show ?case
    by (simp add: c changes_add_def ScopedCommand_make_def) (rule ensures_mono [OF net_run_ran(1)], simp_all)
qed simp

definition undone :: "string list list \<Rightarrow> 'w host \<Rightarrow> 'w host \<Rightarrow> bool" where
  "undone undos g g' \<longleftrightarrow> (\<exists>outs. ho_out g' = ho_out g @ outs \<and> subseq (commands outs) (rev undos) \<and>
     ((\<forall>e. Undo_failed e \<notin> set outs) \<longrightarrow> commands outs = rev undos))"

lemma undone_Nil: "undone [] g g"
  by (simp add: undone_def)

lemma undone_snoc:
  assumes "undone [u] g g1" and "undone us g1 g'"
  shows "undone (us @ [u]) g g'"
proof -
  from assms(1) obtain o1 where o1: "ho_out g1 = ho_out g @ o1" "subseq (commands o1) [u]"
      "(\<forall>e. Undo_failed e \<notin> set o1) \<longrightarrow> commands o1 = [u]" unfolding undone_def by fastforce
  from assms(2) obtain o2 where o2: "ho_out g' = ho_out g1 @ o2" "subseq (commands o2) (rev us)"
      "(\<forall>e. Undo_failed e \<notin> set o2) \<longrightarrow> commands o2 = rev us" unfolding undone_def by fastforce
  have "subseq (commands o1 @ commands o2) ([u] @ rev us)" using o1(2) o2(2) by (rule list_emb_append_mono)
  then have "subseq (commands (o1 @ o2)) (rev (us @ [u]))" by simp
  moreover have "commands (o1 @ o2) = rev (us @ [u])" if "\<forall>e. Undo_failed e \<notin> set (o1 @ o2)" using o1(3) o2(3) that by simp
  moreover have "ho_out g' = ho_out g @ o1 @ o2" using o1(1) o2(1) by simp
  ultimately show ?thesis unfolding undone_def by blast
qed

lemma destroy_undone: "sc_undo c \<noteq> [] \<Longrightarrow> ensures (ScopedCommand_destroy os c) g (\<lambda>e g'. False) (\<lambda>x. undone [sc_undo c] g)"
  by (auto simp: ScopedCommand_destroy_def emitted_def undone_def intro!: ensures_mono [OF net_run_ran(1)] dest!: ran_tool_emitted) blast

lemma undo_all_commands:
  "[] \<notin> set (map sc_undo cs) \<Longrightarrow> ensures (undo_all os cs) g (\<lambda>e g'. False) (\<lambda>x. undone (map sc_undo cs) g)"
proof (induction cs arbitrary: g rule: rev_induct)
  case (snoc c cs)
  then show ?case
    by (auto intro!: ensures_mono [OF destroy_undone] ensures_mono [OF snoc.IH] intro: undone_snoc)
qed (simp add: undone_Nil)

lemma route_to_ran:
  "ensures (route_to os addr) h (\<lambda>e h'. True) (\<lambda>info h'. ran_tool [''route'', ''get'', addr] True h h' \<and> ri_dev info \<noteq> [])"
  by (auto simp: route_to_def Let_def intro!: ensures_mono [OF net_run_ran(2)])

lemma client_changes_commands:
  "map (\<lambda>(tool, app, undo). app) (client_changes tun_dev server underlay) =
     [[''route'', ''add''] @ host_route server underlay,
      [''route'', ''add'', ''0.0.0.0/1'', ''dev'', tun_dev], [''route'', ''add'', ''128.0.0.0/1'', ''dev'', tun_dev]]"
  "map (\<lambda>(tool, app, undo). undo) (client_changes tun_dev server underlay) =
     [[''route'', ''del''] @ host_route server underlay,
      [''route'', ''del'', ''0.0.0.0/1'', ''dev'', tun_dev], [''route'', ''del'', ''128.0.0.0/1'', ''dev'', tun_dev]]"
  by (simp_all add: client_changes_def route_change_def concat_args_def)


section \<open>What the tools are relied on for\<close>

definition reversible_file :: "'w os \<Rightarrow> ('w \<Rightarrow> 'c) \<Rightarrow> string \<Rightarrow> bool" where
  "reversible_file os view path \<longleftrightarrow> (\<forall>w txt value ok w1. os_read_file os w path = Some txt \<longrightarrow>
     os_write_file os w path (value @ [CHR 0x0A]) = (ok, w1) \<longrightarrow>
       (if ok then \<forall>w2. view w2 = view w1 \<longrightarrow>
              (\<exists>w3. os_write_file os w2 path (getline txt @ [CHR 0x0A]) = (True, w3) \<and> view w3 = view w)
        else view w1 = view w))"

text \<open>Commands about the tunnel device only, and commands that only ask.\<close>

definition device_command :: "string list \<Rightarrow> bool" where
  "device_command args \<longleftrightarrow> take 2 args = [''link'', ''set''] \<or> take 2 args = [''addr'', ''add'']"

definition query_command :: "string list \<Rightarrow> bool" where
  "query_command args \<longleftrightarrow> take 2 args = [''route'', ''get''] \<or> args = [''-6'', ''route'', ''show'', ''default'']"

text \<open>
  The documented behaviour of \<^verbatim>\<open>ip\<close>, \<^verbatim>\<open>iptables\<close> and \<^verbatim>\<open>/proc/sys\<close> the code relies on, for the part \<open>view\<close> of
  the configuration that is not the tunnel device's own: tools end; adding and deleting a route, and
  appending and deleting a rule, are reversible; the device's own settings and questions do not
  matter to it; and a sysctl takes back its previous value.
\<close>

definition tools_ok :: "'w os \<Rightarrow> ('w \<Rightarrow> 'c) \<Rightarrow> bool" where
  "tools_ok os view \<longleftrightarrow>
     responsive os \<and>
     (\<forall>spec. reversible os view (route_change spec)) \<and>
     (\<forall>tool table spec. table \<in> {[], [''-t'', ''nat''], [''-t'', ''filter'']} \<longrightarrow> reversible os view (rule_change tool table spec)) \<and>
     (\<forall>args h r h'. device_command args \<longrightarrow> net_run os Tool_ip args h = Some (r, h') \<longrightarrow> view (ho_world h') = view (ho_world h)) \<and>
     (\<forall>args h r h'. query_command args \<longrightarrow> run_capture os Tool_ip args h = Some (r, h') \<longrightarrow> view (ho_world h') = view (ho_world h)) \<and>
     (\<forall>dev w contents. view (snd (os_write_file os w (disable_path dev) contents)) = view w) \<and>
     reversible_file os view ''/proc/sys/net/ipv4/ip_forward''"

section \<open>Operations that keep the configuration\<close>

definition keeps :: "('w \<Rightarrow> 'c) \<Rightarrow> 'c \<Rightarrow> ('w, 'a) sys \<Rightarrow> bool" where
  "keeps view v m \<longleftrightarrow> (\<forall>h. view (ho_world h) = v \<longrightarrow>
     yields m h (\<lambda>e h'. view (ho_world h') = v) (\<lambda>x h'. view (ho_world h') = v))"

named_theorems keeps_intros

lemma keeps_basic [keeps_intros]:
  "keeps view v (retS x)" "keeps view v (throwS e)" "keeps view v (askS f)" "keeps view v (emitS out)"
  by (simp_all add: keeps_def)

lemma keeps_lift: "io \<noteq> None \<Longrightarrow> keeps view v (liftS io)"
  by (auto simp: keeps_def split: sum.split)

lemma keeps_bind [keeps_intros]: "keeps view v m \<Longrightarrow> (\<And>x. keeps view v (f x)) \<Longrightarrow> keeps view v (bindS m f)"
  by (auto simp: keeps_def elim!: yields_mono)

lemma keeps_catch [keeps_intros]: "keeps view v m \<Longrightarrow> (\<And>e. keeps view v (f e)) \<Longrightarrow> keeps view v (catchS m f)"
  by (auto simp: keeps_def elim!: yields_mono)

lemma keeps_unwind [keeps_intros]: "keeps view v c \<Longrightarrow> keeps view v m \<Longrightarrow> keeps view v (unwindS c m)"
  unfolding unwindS_def by (intro keeps_intros)

lemma keeps_if [keeps_intros]: "keeps view v m \<Longrightarrow> keeps view v m' \<Longrightarrow> keeps view v (if b then m else m')"
  by simp

lemma tools_run:
  assumes "tools_ok os view"
  shows "device_command args \<Longrightarrow> keeps view v (net_run os Tool_ip args)"
    and "query_command args' \<Longrightarrow> keeps view v (run_capture os Tool_ip args')"
proof -
  have r: "responsive os" using assms by (simp add: tools_ok_def)
  show "keeps view v (net_run os Tool_ip args)" if "device_command args"
    unfolding keeps_def using assms that
    by (auto simp: tools_ok_def intro!: yields_mono [OF net_run_returns(1) [OF r]])
  show "keeps view v (run_capture os Tool_ip args')" if "query_command args'"
    unfolding keeps_def using assms that
    by (auto simp: tools_ok_def intro!: yields_mono [OF net_run_returns(2) [OF r]])
qed

lemma configure_interface_keeps:
  assumes "tools_ok os view"
  shows "keeps view v (configure_interface os dev cidr mtu)"
proof -
  have "keeps view v (write_sysctl os (disable_path dev) x)" for x
    using assms by (auto simp: tools_ok_def write_sysctl_def write_file_def keeps_def)
  moreover have "device_command [''link'', ''set'', ''dev'', dev, ''mtu'', int_to_string mtu]"
    "device_command [''addr'', ''add'', cidr, ''dev'', dev]" "device_command [''link'', ''set'', ''dev'', dev, ''up'']"
    by (simp_all add: device_command_def)
  ultimately show ?thesis
    unfolding configure_interface_def Let_def by (intro keeps_intros tools_run [OF assms])
qed

lemma host_has_ipv6_keeps: "tools_ok os view \<Longrightarrow> keeps view v (host_has_ipv6 os)"
  unfolding host_has_ipv6_def by (intro keeps_intros tools_run(2)) (simp_all add: query_command_def)

lemma route_to_keeps: "tools_ok os view \<Longrightarrow> keeps view v (route_to os address)"
  unfolding route_to_def Let_def by (intro keeps_intros tools_run(2)) (simp_all add: query_command_def)

section \<open>Installing and undoing\<close>

text \<open>An operation that acquires something, or fails and leaves the configuration alone.\<close>

definition acquires :: "('w \<Rightarrow> 'c) \<Rightarrow> 'c \<Rightarrow> ('r \<Rightarrow> ('w, unit) sys) \<Rightarrow> ('w, 'r) sys \<Rightarrow> bool" where
  "acquires view v release m \<longleftrightarrow> (\<forall>h. view (ho_world h) = v \<longrightarrow>
     yields m h (\<lambda>e h'. view (ho_world h') = v) (\<lambda>r h'. \<forall>g. view (ho_world g) = view (ho_world h') \<longrightarrow>
       yields (release r) g (\<lambda>e g'. False) (\<lambda>_ g'. view (ho_world g') = v)))"

lemma acquires_bind: "keeps view v m \<Longrightarrow> (\<And>x. acquires view v rel (f x)) \<Longrightarrow> acquires view v rel (bindS m f)"
  by (auto simp: acquires_def keeps_def elim!: yields_mono)

lemma acquires_add_changes:
  assumes "responsive os" and "\<forall>c \<in> set changes. reversible os view c"
  shows "acquires view v (undo_all os) (add_changes os [] changes)"
  unfolding acquires_def using add_changes_restorable [OF assms restores_Nil]
  by (auto simp: restores_def)

lemma acquires_then_note:
  "acquires view v rel m \<Longrightarrow> acquires view v rel (bindS m (\<lambda>x. bindS (emitS out) (\<lambda>_. retS x)))"
  by (auto simp: acquires_def elim!: yields_mono)

lemma install_client_routes_acquires:
  assumes "tools_ok os view"
  shows "acquires view v (undo_all os) (install_client_routes os tun_dev server)"
proof -
  have "responsive os" "\<forall>c \<in> set (client_changes tun_dev server u). reversible os view c" for u
    using assms by (auto simp: tools_ok_def client_changes_def)
  then show ?thesis
    unfolding install_client_routes_def
    by (intro acquires_bind route_to_keeps acquires_then_note acquires_add_changes assms)
qed

lemma block_host_ipv6_acquires:
  assumes "tools_ok os view"
  shows "acquires view v (undo_all os) (block_host_ipv6 os)"
  unfolding block_host_ipv6_def
proof (intro acquires_then_note acquires_add_changes)
  show "responsive os" using assms by (simp add: tools_ok_def)
  show "\<forall>c \<in> set ipv6_changes. reversible os view c"
    using assms by (auto simp: tools_ok_def ipv6_changes_def)
qed

lemma ScopedSysctl_acquires:
  assumes "reversible_file os view path"
  shows "acquires view v (ScopedSysctl_destroy os) (ScopedSysctl_make os path value)"
  unfolding acquires_def
proof (intro allI impI)
  fix h :: "'a host" assume v: "view (ho_world h) = v"
  show "yields (ScopedSysctl_make os path value) h (\<lambda>e h'. view (ho_world h') = v)
     (\<lambda>r h'. \<forall>g. view (ho_world g) = view (ho_world h') \<longrightarrow>
        yields (ScopedSysctl_destroy os r) g (\<lambda>e g'. False) (\<lambda>_ g'. view (ho_world g') = v))"
  proof (cases "os_read_file os (ho_world h) path")
    case (Some t)
    obtain ok w1 where w1: "os_write_file os (ho_world h) path (value @ [CHR 0x0A]) = (ok, w1)" by fastforce
    from assms Some w1 v have "if ok then \<forall>w2. view w2 = view w1 \<longrightarrow>
        (\<exists>w3. os_write_file os w2 path (getline t @ [CHR 0x0A]) = (True, w3) \<and> view w3 = v) else view w1 = v"
      unfolding reversible_file_def by metis
    then show ?thesis using Some w1 v
      by (cases ok) (fastforce simp: ScopedSysctl_make_def write_file_def Let_def ScopedSysctl_destroy_def ScopedSysctl_restore_def)+
  qed (simp add: ScopedSysctl_make_def v)
qed

text \<open>Two acquisitions in a row, the second released first; a failure of the second releases the first.\<close>

lemma acquires_pair:
  assumes "acquires view v rel m" and "\<And>r v'. acquires view v' rel' (m' r)"
    and "\<And>r r'. release (k r r') = bindS (rel' r') (\<lambda>_. rel r)"
  shows "acquires view v release (bindS m (\<lambda>r. unwindS (rel r) (bindS (m' r) (\<lambda>r'. bindS (emitS out) (\<lambda>_. retS (k r r'))))))"
  unfolding acquires_def yields_bind yields_unwind
proof (intro allI impI, rule yields_mono)
  fix h :: "'a host" assume "view (ho_world h) = v"
  with assms(1) show "yields m h (\<lambda>e h'. view (ho_world h') = v) (\<lambda>r h'. \<forall>g. view (ho_world g) = view (ho_world h') \<longrightarrow>
     yields (rel r) g (\<lambda>e g'. False) (\<lambda>_ g'. view (ho_world g') = v))" by (simp add: acquires_def)
next
  fix r and h1 :: "'a host"
  assume r: "\<forall>g. view (ho_world g) = view (ho_world h1) \<longrightarrow> yields (rel r) g (\<lambda>e g'. False) (\<lambda>_ g'. view (ho_world g') = v)"
  have "yields (m' r) h1 (\<lambda>e h'. view (ho_world h') = view (ho_world h1)) (\<lambda>r' h'. \<forall>g. view (ho_world g) = view (ho_world h') \<longrightarrow>
     yields (rel' r') g (\<lambda>e g'. False) (\<lambda>_ g'. view (ho_world g') = view (ho_world h1)))"
    using assms(2) [of "view (ho_world h1)" r] by (simp add: acquires_def)
  then show "yields (m' r) h1 (\<lambda>e h'. yields (rel r) h' (\<lambda>e h'. view (ho_world h') = v) (\<lambda>_ h''. view (ho_world h'') = v))
      (\<lambda>x h'. yields (emitS out) h' (\<lambda>e h'. yields (rel r) h' (\<lambda>e h'. view (ho_world h') = v) (\<lambda>_ h''. view (ho_world h'') = v))
        (\<lambda>_ h'. yields (retS (k r x)) h' (\<lambda>e h'. yields (rel r) h' (\<lambda>e h'. view (ho_world h') = v) (\<lambda>_ h''. view (ho_world h'') = v))
          (\<lambda>p h'. \<forall>g. view (ho_world g) = view (ho_world h') \<longrightarrow>
             yields (release p) g (\<lambda>e g'. False) (\<lambda>_ g'. view (ho_world g') = v))))"
    using r by (auto simp: assms(3) elim!: yields_mono)
qed

lemma install_server_nat_acquires:
  assumes "tools_ok os view"
  shows "acquires view v (ServerNat_destroy os) (install_server_nat os tun_dev tun_subnet wan_dev)"
proof -
  have "reversible_file os view ''/proc/sys/net/ipv4/ip_forward''" "responsive os"
    "\<forall>c \<in> set (nat_changes tun_dev tun_subnet wan_dev). reversible os view c"
    using assms by (auto simp: tools_ok_def nat_changes_def)
  then show ?thesis
    unfolding install_server_nat_def
    by (intro acquires_pair ScopedSysctl_acquires) (auto simp: ServerNat_destroy_def intro: acquires_add_changes)
qed

end
