(* ===== verification/Netcfg_Properties.thy ===== *)
theory Netcfg_Properties
  imports Netcfg_Logic
begin

text \<open>
  Properties of the network configuration: an instance of the system's tools, the arithmetic of
  subnets, the order in which the tunnel device is set up, and runs of the routes on the instance.
\<close>

section \<open>A host for the witnesses\<close>

text \<open>
  A host whose state is a list of routes and rules and the contents of one sysctl file: adding puts
  an entry in front, deleting removes it or fails.
\<close>

type_synonym demo_world = "string list list \<times> string"

definition demo_entry :: "string list \<Rightarrow> (bool \<times> string list) option" where
  "demo_entry args =
     (if take 2 args = [''route'', ''add''] then Some (True, ''route'' # drop 2 args)
      else if take 2 args = [''route'', ''del''] then Some (False, ''route'' # drop 2 args)
      else if take 1 args = [''-A''] then Some (True, drop 1 args)
      else if take 1 args = [''-D''] then Some (False, drop 1 args)
      else if take 1 args = [''-t''] \<and> take 1 (drop 2 args) = [''-A''] then Some (True, take 2 args @ drop 3 args)
      else if take 1 args = [''-t''] \<and> take 1 (drop 2 args) = [''-D''] then Some (False, take 2 args @ drop 3 args)
      else None)"

definition demo_exec :: "demo_world \<Rightarrow> string list \<Rightarrow> bool \<times> demo_world" where
  "demo_exec w args =
     (case demo_entry args of
        None \<Rightarrow> (True, w)
      | Some (True, entry) \<Rightarrow> (True, (entry # fst w, snd w))
      | Some (False, entry) \<Rightarrow> if entry \<in> set (fst w) then (True, (remove1 entry (fst w), snd w)) else (False, w))"

definition demo_output :: "string list \<Rightarrow> string" where
  "demo_output args = (if take 2 args = [''route'', ''get''] then ''10.0.0.1 via 10.1.0.1 dev eth0'' else ''default via fe80::1'')"

definition demo_os :: "demo_world os" where
  "demo_os =
     \<lparr>os_executable = (\<lambda>w path. True), os_exists = (\<lambda>w path. True), os_file_actions_init = (\<lambda>w. 0), os_adddup2 = (\<lambda>w. 0),
      os_pipe2 = (\<lambda>w. Sys_ok (3, 4)),
      os_spawn = (\<lambda>w prog argv actions.
        case demo_exec w (tl argv) of (ok, w') \<Rightarrow>
          (\<lparr>ch_spawn = 0, ch_reads = [Sys_ok (demo_output (tl argv)), Sys_ok []], ch_waits = [Sys_ok (if ok then 0 else 512)]\<rparr>, w')),
      os_read_file = (\<lambda>w path. Some (snd w)),
      os_write_file = (\<lambda>w path contents.
        if path = ''/proc/sys/net/ipv4/ip_forward'' then (True, (fst w, contents)) else (True, w))\<rparr>"

definition demo_view :: "demo_world \<Rightarrow> string list list \<times> string" where
  "demo_view w = (fst w, getline (snd w))"

text \<open>What running a tool on this host reports.\<close>

definition demo_outs :: "string \<Rightarrow> string list \<Rightarrow> bool \<Rightarrow> net_out list" where
  "demo_outs prog args capture =
     [Actions_init] @ (if capture then [Descriptor (Opened 3), Descriptor (Opened 4)] else []) @ [Spawned prog args] @
     (if capture then [Descriptor (Closed 4), Descriptor (Read_from 3), Descriptor (Closed 3)] else []) @ [Actions_destroy]"

lemma demo_spawn:
  "spawn_and_wait demo_os prog args capture h = (case demo_exec (ho_world h) args of (ok, w) \<Rightarrow>
     Some (if ok then Inr (if capture then take 4096 (demo_output args) else [])
           else Inl (Runtime_error (describe prog args @ '': exited '' @ to_string 2)),
       \<lparr>ho_world = w, ho_out = ho_out h @ demo_outs prog args capture\<rparr>))"
proof -
  have "demo_output args \<noteq> []" by (simp add: demo_output_def)
  then show ?thesis
    by (cases h; cases capture) (auto simp: spawn_and_wait_def SpawnActions_def SpawnActions_destroy_def actions_dup2_def open_pipe_def
      spawn_child_def check_status_def reset_close assignS_def closeS_def descrS_def scopeS_def unwindS_def catchS_def fd_simps demo_outs_def
      demo_os_def bindS_def askS_def retS_def changeS_def emitS_def liftS_def throwS_def ret_def
      WIFSIGNALED_def WIFEXITED_def WEXITSTATUS_def WTERMSIG_def split: prod.split)
qed

lemma demo_binary: "\<exists>prog. \<forall>h. binary_for demo_os tool h = Some (Inr prog, h)"
  by (cases tool) (auto simp: binary_for_def find_binary_def demo_os_def bindS_def askS_def retS_def)

lemma demo_run:
  "\<exists>prog. \<forall>h. net_run demo_os tool args h = (case demo_exec (ho_world h) args of (ok, w) \<Rightarrow>
     Some (if ok then Inr () else Inl (Runtime_error (describe prog args @ '': exited '' @ to_string 2)),
       \<lparr>ho_world = w, ho_out = ho_out h @ demo_outs prog args False\<rparr>))"
proof -
  obtain prog where "\<forall>h. binary_for demo_os tool h = Some (Inr prog, h)" using demo_binary by blast
  then show ?thesis
    by (intro exI [of _ prog]) (auto simp: net_run_def bindS_def demo_spawn retS_def split: prod.split)
qed

lemma demo_capture:
  "\<exists>prog. \<forall>h. run_capture demo_os tool args h = (case demo_exec (ho_world h) args of (ok, w) \<Rightarrow>
     Some (if ok then Inr (take 4096 (demo_output args)) else Inl (Runtime_error (describe prog args @ '': exited '' @ to_string 2)),
       \<lparr>ho_world = w, ho_out = ho_out h @ demo_outs prog args True\<rparr>))"
proof -
  obtain prog where "\<forall>h. binary_for demo_os tool h = Some (Inr prog, h)" using demo_binary by blast
  then show ?thesis
    by (intro exI [of _ prog]) (auto simp: run_capture_def bindS_def demo_spawn split: prod.split)
qed

lemma demo_reversible:
  assumes "\<And>w. demo_exec w app = (True, (entry # fst w, snd w))"
    and "\<And>w. demo_exec w undo = (if entry \<in> set (fst w) then (True, (remove1 entry (fst w), snd w)) else (False, w))"
    and "undo \<noteq> []"
  shows "reversible demo_os demo_view (tool, app, undo)"
proof -
  obtain p q where "\<forall>h. net_run demo_os tool app h = (case demo_exec (ho_world h) app of (ok, w) \<Rightarrow>
     Some (if ok then Inr () else Inl (Runtime_error (describe p app @ '': exited '' @ to_string 2)),
       \<lparr>ho_world = w, ho_out = ho_out h @ demo_outs p app False\<rparr>))"
    "\<forall>h. net_run demo_os tool undo h = (case demo_exec (ho_world h) undo of (ok, w) \<Rightarrow>
     Some (if ok then Inr () else Inl (Runtime_error (describe q undo @ '': exited '' @ to_string 2)),
       \<lparr>ho_world = w, ho_out = ho_out h @ demo_outs q undo False\<rparr>))"
    using demo_run [of tool app] demo_run [of tool undo] by blast
  with assms show ?thesis by (auto simp: reversible_def yields_def demo_view_def)
qed

lemma take_2_eq: "take 2 args = [a, b] \<Longrightarrow> \<exists>rest. args = a # b # rest"
  by (metis append_take_drop_id append_Cons append_Nil)

lemma demo_entry_none: "demo_entry (''link'' # a # args) = None" "demo_entry (''addr'' # a # args) = None"
  "demo_entry (''route'' # ''get'' # args) = None" "demo_entry [''-6'', ''route'', ''show'', ''default''] = None"
  by (simp_all add: demo_entry_def)

lemma demo_exec_device: "device_command args \<Longrightarrow> demo_exec w args = (True, w)"
  by (auto simp: device_command_def demo_exec_def demo_entry_none dest!: take_2_eq)

lemma demo_exec_query: "query_command args \<Longrightarrow> demo_exec w args = (True, w)"
  by (auto simp: query_command_def demo_exec_def demo_entry_none dest!: take_2_eq)

lemma demo_rule_reversible:
  "reversible demo_os demo_view (rule_change tool [] spec)"
  "reversible demo_os demo_view (rule_change tool [''-t'', ''nat''] spec)"
  "reversible demo_os demo_view (rule_change tool [''-t'', ''filter''] spec)"
  unfolding rule_change_def
  by (rule demo_reversible [where entry = "spec"], simp_all add: demo_exec_def demo_entry_def concat_args_def)
    (rule demo_reversible [where entry = "''-t'' # ''nat'' # spec"], simp_all add: demo_exec_def demo_entry_def concat_args_def,
     rule demo_reversible [where entry = "''-t'' # ''filter'' # spec"], simp_all add: demo_exec_def demo_entry_def concat_args_def)

lemma demo_tools_ok: "tools_ok demo_os demo_view"
proof -
  have t1: "responsive demo_os"
    by (auto simp: responsive_def ends_def demo_os_def demo_output_def ret_def split: prod.split)
  have t2: "reversible demo_os demo_view (route_change spec)" for spec unfolding route_change_def
    by (rule demo_reversible [where entry = "''route'' # spec"]) (simp_all add: demo_exec_def demo_entry_def concat_args_def)
  have t3: "reversible demo_os demo_view (rule_change tool table spec)"
    if "table \<in> {[], [''-t'', ''nat''], [''-t'', ''filter'']}" for tool table spec
    using that demo_rule_reversible by blast
  have t4: "demo_view (ho_world h') = demo_view (ho_world h)"
    if "device_command args" "net_run demo_os Tool_ip args h = Some (r, h')" for args h r h'
  proof -
    have "demo_exec w args = (True, w)" for w using that(1) by (rule demo_exec_device)
    with that(2) demo_run [of Tool_ip args] show ?thesis by auto
  qed
  have t5: "demo_view (ho_world h') = demo_view (ho_world h)"
    if "query_command args" "run_capture demo_os Tool_ip args h = Some (r, h')" for args h r h'
  proof -
    have "demo_exec w args = (True, w)" for w using that(1) by (rule demo_exec_query)
    with that(2) demo_capture [of Tool_ip args] show ?thesis by auto
  qed
  have t6: "demo_view (snd (os_write_file demo_os w (disable_path dev) c)) = demo_view w" for w dev c
    by (simp add: demo_os_def disable_path_def)
  have "getline (getline t @ [CHR 0x0A]) = getline t" for t by (induction t) auto
  then have t7: "reversible_file demo_os demo_view ''/proc/sys/net/ipv4/ip_forward''"
    by (auto simp: reversible_file_def demo_os_def demo_view_def)
  show ?thesis unfolding tools_ok_def
    by (intro conjI allI impI) (rule t1, rule t2, erule t3, erule (1) t4, erule (1) t5, rule t6, rule t7)
qed

section \<open>Networks\<close>

lemma host_network [simp]: "host_order (network_order v) = v"
  by (simp add: host_order_def network_order_def read_le_le_bytes)

lemma length_network_order [simp]: "length (network_order v) = 4"
  by (simp add: network_order_def)

lemma bit_prefix_mask: "n \<le> 32 \<Longrightarrow> bit (prefix_mask n) i \<longleftrightarrow> 32 - n \<le> i \<and> i < 32"
proof -
  have m: "(0xffffffff :: u32) = mask 32" by (simp add: mask_eq_exp_minus_1)
  show "n \<le> 32 \<Longrightarrow> bit (prefix_mask n) i \<longleftrightarrow> 32 - n \<le> i \<and> i < 32"
    unfolding prefix_mask_def m by (auto simp: bit_push_bit_iff bit_mask_iff)
qed

text \<open>The network an address belongs to: its first \<open>n\<close> bits, the others zero.\<close>

definition network :: "bytes \<Rightarrow> nat \<Rightarrow> bytes" where
  "network a n = network_order (host_order a AND prefix_mask n)"

lemma network_idem [simp]: "network (network a n) n = network a n"
  by (simp add: network_def and.assoc)

lemma slash_split:
  assumes "CHR ''/'' \<notin> set addr"
  shows "takeWhile (\<lambda>c. c \<noteq> CHR ''/'') (addr @ CHR ''/'' # t) = addr"
  using assms by (simp add: takeWhile_append)

lemma slash_unique:
  assumes "CHR ''/'' \<notin> set a" and "CHR ''/'' \<notin> set b"
  shows "a @ CHR ''/'' # t = b @ CHR ''/'' # u \<longleftrightarrow> a = b \<and> t = u"
  using slash_split [OF assms(1), of t] slash_split [OF assms(2), of u] by auto

lemma subnet_of_split:
  assumes "CHR ''/'' \<notin> set addr"
  shows "subnet_of (addr @ CHR ''/'' # t) = Some net \<longleftrightarrow> (\<exists>a n. inet_pton (c_str addr) = Some a \<and> denotes False t (int n) \<and> n \<le> 32 \<and>
    net = inet_ntop (network a n) @ ''/'' @ to_string n)"
proof (cases "inet_pton (c_str addr)")
  case (Some a)
  obtain rest ec v where r: "from_chars False 0 (2 ^ 32 - 1) t = (rest, ec, v)" by (metis prod_cases3)
  have v: "subnet_of (addr @ CHR ''/'' # t) = Some net \<longleftrightarrow> ec = Errc_ok \<and> rest = [] \<and> v \<le> 32 \<and>
      net = inet_ntop (network a (nat v)) @ ''/'' @ int_to_string v"
    using assms Some r by (auto simp: subnet_of_def slash_split Let_def network_def)
  show ?thesis
  proof (cases "\<exists>n. denotes False t (int n) \<and> n \<le> 32")
    case True
    then obtain n where n: "denotes False t (int n)" "n \<le> 32" by blast
    then have "from_chars False 0 (2 ^ 32 - 1) t = ([], Errc_ok, int n)" by (simp add: from_chars_all)
    with r have "rest = []" "ec = Errc_ok" "v = int n" by simp_all
    moreover have "denotes False t (int m) \<longleftrightarrow> m = n" for m using n(1) denotes_unique by fastforce
    ultimately show ?thesis using v n Some by (auto simp: int_to_string_def)
  next
    case False
    have "\<not> (ec = Errc_ok \<and> rest = [] \<and> v \<le> 32)"
    proof
      assume e: "ec = Errc_ok \<and> rest = [] \<and> v \<le> 32"
      with r have "denotes False t v \<and> 0 \<le> v" using from_chars_all [of False 0 "2 ^ 32 - 1" t v] by simp
      with e False show False by (metis nat_0_le nat_le_iff of_nat_numeral zle_int)
    qed
    with v False Some show ?thesis by auto
  qed
qed (use assms in \<open>simp add: subnet_of_def slash_split Let_def\<close>)

lemma slash_no_digit: "\<not> is_digit (CHR ''/'')" "CHR ''/'' \<noteq> CHR ''.''"
  by (simp_all add: is_digit_def)

text \<open>
  C37: a text is a valid CIDR address exactly if it is a dotted quad, a slash and a decimal number up to
  32; its subnet is printed with the first bits of the address kept and the others zero, and is
  itself a valid CIDR address whose subnet is itself.
\<close>

theorem subnet_of_cidr:
  "(subnet_of cidr = Some net \<longleftrightarrow> (\<exists>addr t a n. cidr = addr @ ''/'' @ t \<and> CHR ''/'' \<notin> set addr \<and> inet_pton (c_str addr) = Some a \<and>
      denotes False t (int n) \<and> n \<le> 32 \<and> net = inet_ntop (network a n) @ ''/'' @ to_string n)) \<and>
   (subnet_of cidr = Some net \<longrightarrow> subnet_of net = Some net) \<and>
   (\<forall>i n. n \<le> 32 \<longrightarrow> (bit (host_order (network a n)) i \<longleftrightarrow> bit (host_order a) i \<and> 32 - n \<le> i \<and> i < 32))"
proof (intro conjI impI allI)
  show main: "subnet_of cidr = Some net \<longleftrightarrow> (\<exists>addr t a n. cidr = addr @ ''/'' @ t \<and> CHR ''/'' \<notin> set addr \<and>
      inet_pton (c_str addr) = Some a \<and> denotes False t (int n) \<and> n \<le> 32 \<and> net = inet_ntop (network a n) @ ''/'' @ to_string n)"
  proof (cases "CHR ''/'' \<in> set cidr")
    case True
    then obtain addr t where c: "cidr = addr @ CHR ''/'' # t" "CHR ''/'' \<notin> set addr" by (meson split_list_first)
    have "cidr = addr' @ ''/'' @ t' \<and> CHR ''/'' \<notin> set addr' \<longleftrightarrow> addr' = addr \<and> t' = t" for addr' t'
      using c slash_unique by fastforce
    then have "(\<exists>addr t a n. (cidr = addr @ ''/'' @ t \<and> CHR ''/'' \<notin> set addr) \<and> inet_pton (c_str addr) = Some a \<and>
        denotes False t (int n) \<and> n \<le> 32 \<and> net = inet_ntop (network a n) @ ''/'' @ to_string n) \<longleftrightarrow>
      (\<exists>a n. inet_pton (c_str addr) = Some a \<and> denotes False t (int n) \<and> n \<le> 32 \<and>
        net = inet_ntop (network a n) @ ''/'' @ to_string n)" by (simp only:) simp
    then show ?thesis using subnet_of_split [OF c(2), of t net] unfolding c(1) conj_assoc by simp
  qed (auto simp: subnet_of_def)
  show "subnet_of net = Some net" if "subnet_of cidr = Some net"
  proof -
    from that main obtain a n where n: "n \<le> 32" "net = inet_ntop (network a n) @ CHR ''/'' # to_string n" by auto
    have "CHR ''/'' \<notin> set (inet_ntop (network a n))" using inet_ntop_chars slash_no_digit by metis
    from subnet_of_split [OF this, of "to_string n" net] n show ?thesis
      by (auto simp: inet_ntop_c_str inet_pton_ntop network_def denotes_to_string and.assoc)
  qed
  show "bit (host_order (network a n)) i \<longleftrightarrow> bit (host_order a) i \<and> 32 - n \<le> i \<and> i < 32" if "n \<le> 32" for i n
    using that by (auto simp: network_def bit_and_iff bit_prefix_mask)
qed

theorem subnet_of_cidr_witness:
  "subnet_of ''10.9.0.1/24'' = Some ''10.9.0.0/24'' \<and> subnet_of ''10.9.0.0/24'' = Some ''10.9.0.0/24''"
proof -
  have a: "''10.9.0.1/24'' = inet_ntop [10, 9, 0, 1] @ ''/'' @ to_string 24" by code_simp
  have n: "network [10, 9, 0, 1] 24 = [10, 9, 0, 0]" by code_simp
  have net: "inet_ntop (network [10, 9, 0, 1] 24) @ ''/'' @ to_string 24 = ''10.9.0.0/24''"
    unfolding n by code_simp
  have "CHR ''/'' \<notin> set (inet_ntop [10, 9, 0, 1])" using inet_ntop_chars slash_no_digit by metis
  then have "subnet_of ''10.9.0.1/24'' = Some ''10.9.0.0/24''"
    unfolding subnet_of_cidr [THEN conjunct1] using a net
    by (intro exI [of _ "inet_ntop [10, 9, 0, 1]"] exI [of _ "to_string 24"] exI [of _ "[10, 9, 0, 1]"] exI [of _ 24])
      (simp add: inet_ntop_c_str inet_pton_ntop denotes_to_string)
  with subnet_of_cidr [of "''10.9.0.1/24''" "''10.9.0.0/24''"] show ?thesis by blast
qed

section \<open>The tunnel device\<close>

definition ipv6_switched_off :: "string \<Rightarrow> net_out \<Rightarrow> bool" where
  "ipv6_switched_off dev out \<longleftrightarrow> out = Wrote_file (disable_path dev) ''1'' True \<or> out = Note (no_ipv6_note (disable_path dev))"

lemma did_run:
  assumes "did es h g" and "Q es" and "\<And>p. Q (es @ [Spawned p args])" and "\<And>p g'. did (es @ [Spawned p args]) h g' \<Longrightarrow> V () g'"
  shows "ensures (net_run os tool args) g (\<lambda>e. emitted h (\<lambda>outs. Q (effects outs))) V"
proof (rule ensures_mono [OF net_run_ran(1)])
  have Q: "emitted h (\<lambda>outs. Q (effects outs)) g'" if "did es' h g'" "Q es'" for es' g' using that by (auto simp: did_def emitted_def)
  show "emitted h (\<lambda>outs. Q (effects outs)) g'" if "ran_tool args False g g'" for g'
    using that Q [of es] Q [OF _ assms(3)] did_trans [OF assms(1)] assms(2) by (fastforce simp: ran_tool_def)
  show "V x g'" if "ran_tool args True g g'" for x g' using that did_trans [OF assms(1)] assms(4) by (auto simp: ran_tool_def)
qed

lemma did_write_sysctl:
  assumes "did es h g" and "Q (es @ [Wrote_file path contents False])" and "\<And>g'. did (es @ [Wrote_file path contents True]) h g' \<Longrightarrow> V () g'"
  shows "ensures (write_sysctl os path contents) g (\<lambda>e. emitted h (\<lambda>outs. Q (effects outs))) V"
  using assms by (auto simp: write_sysctl_def write_file_def did_def emitted_def split: prod.splits)

text \<open>The device is set up: the MTU, IPv6 off, the address, and only then the link.\<close>

definition brought_up :: "string \<Rightarrow> string \<Rightarrow> int \<Rightarrow> net_out list \<Rightarrow> bool" where
  "brought_up dev cidr mtu es \<longleftrightarrow> (\<exists>p1 p2 p3 off. ipv6_switched_off dev off \<and>
     es = [Spawned p1 [''link'', ''set'', ''dev'', dev, ''mtu'', int_to_string mtu], off,
       Spawned p2 [''addr'', ''add'', cidr, ''dev'', dev], Spawned p3 [''link'', ''set'', ''dev'', dev, ''up'']])"

lemma switched_off_effect: "ipv6_switched_off dev off \<Longrightarrow> outward off \<and> command_of off = []"
  by (auto simp: ipv6_switched_off_def)

lemma configure_interface_emits:
  defines "Q \<equiv> \<lambda>dev cidr mtu es. [''link'', ''set'', ''dev'', dev, ''up''] \<in> set (commands es) \<longrightarrow> brought_up dev cidr mtu es"
  shows "ensures (configure_interface os dev cidr mtu) h (\<lambda>e. emitted h (\<lambda>outs. Q dev cidr mtu (effects outs)))
    (\<lambda>x. emitted h (\<lambda>outs. brought_up dev cidr mtu (effects outs)))" (is "ensures _ h ?E ?V")
proof -
  let ?mtu = "[''link'', ''set'', ''dev'', dev, ''mtu'', int_to_string mtu]" and ?addr = "[''addr'', ''add'', cidr, ''dev'', dev]"
    and ?up = "[''link'', ''set'', ''dev'', dev, ''up'']"
  have up: "ensures (net_run os Tool_ip ?up) g ?E ?V"
    if "did [Spawned p1 ?mtu, off, Spawned p2 ?addr] h g" "ipv6_switched_off dev off" for g p1 p2 off
    using that(2) switched_off_effect [OF that(2)] by (intro did_run [OF that(1)]) (auto simp: Q_def brought_up_def did_def emitted_def)
  have addr: "ensures (net_run os Tool_ip ?addr) g ?E (\<lambda>_ g'. ensures (net_run os Tool_ip ?up) g' ?E ?V)"
    if "did [Spawned p1 ?mtu, off] h g" "ipv6_switched_off dev off" for g p1 off
    using that(2) switched_off_effect [OF that(2)] by (intro did_run [OF that(1)] up) (auto simp: Q_def brought_up_def)
  have off: "ensures (if found then write_sysctl os (disable_path dev) ''1'' else emitS (Note (no_ipv6_note (disable_path dev)))) g
      ?E (\<lambda>_ g'. ensures (net_run os Tool_ip ?addr) g' ?E (\<lambda>_ g'. ensures (net_run os Tool_ip ?up) g' ?E ?V))"
    if "did [Spawned p1 ?mtu] h g" for g p1 found
  proof (cases found)
    case True
    have "ensures (write_sysctl os (disable_path dev) ''1'') g ?E
        (\<lambda>_ g'. ensures (net_run os Tool_ip ?addr) g' ?E (\<lambda>_ g'. ensures (net_run os Tool_ip ?up) g' ?E ?V))"
      by (intro did_write_sysctl [OF that] addr) (auto simp: Q_def brought_up_def ipv6_switched_off_def)
    with True show ?thesis by simp
  next
    case False
    then show ?thesis unfolding if_not_P [OF False] ensures_simps
      using did_emit [OF that, of "Note (no_ipv6_note (disable_path dev))"]
      by (intro addr [of p1 "Note (no_ipv6_note (disable_path dev))"]) (simp_all add: ipv6_switched_off_def)
  qed
  show ?thesis
    unfolding configure_interface_def Let_def ensures_bind ensures_simps
    by (rule did_run [OF did_refl], simp add: Q_def, simp add: Q_def, rule off, simp)
qed

text \<open>
  The tunnel device never comes up with IPv6 on it. When the command that brings the link up is
  run, the MTU has been set, IPv6 has been switched off on the device (or the kernel has none, which is
  noted) and the address assigned before, in this order, and nothing else done; if IPv6 cannot be
  switched off, the link stays down. If the device is reported as configured, the link was brought up.
\<close>

theorem ipv6_off_before_link_up:
  assumes "configure_interface os dev cidr mtu h = Some (r, h')"
  shows "\<exists>outs. ho_out h' = ho_out h @ outs \<and>
    (r = Inr () \<or> [''link'', ''set'', ''dev'', dev, ''up''] \<in> set (commands outs) \<longrightarrow> brought_up dev cidr mtu (effects outs))"
  using assms configure_interface_emits [of os dev cidr mtu h]
  by (cases r) (auto simp: emitted_def commands_effects dest: ensuresD)

definition demo_host :: "demo_world host" where
  "demo_host = \<lparr>ho_world = ([], ''0''), ho_out = []\<rparr>"

abbreviation succeeds :: "('w, 'a) sys \<Rightarrow> 'w host \<Rightarrow> bool" where
  "succeeds m h \<equiv> yields m h (\<lambda>e h'. False) (\<lambda>x h'. True)"

lemma succeedsD: "succeeds m h \<Longrightarrow> \<exists>x h'. m h = Some (Inr x, h')"
proof -
  assume "succeeds m h"
  then obtain r h' where "m h = Some (r, h')" "case r of Inl e \<Rightarrow> False | Inr x \<Rightarrow> True" by (auto simp: yields_def)
  then show ?thesis by (cases r) auto
qed

lemma demo_run_ok:
  assumes "fst (demo_exec (ho_world h) args)" and "\<And>h'. V () h'"
  shows "yields (net_run demo_os tool args) h E V"
proof -
  obtain w where "demo_exec (ho_world h) args = (True, w)" using assms(1) by (metis prod.collapse)
  then show ?thesis using demo_run [of tool args] assms(2) by (auto simp: yields_def)
qed

lemma demo_sysctl_ok: "(\<And>h'. V () h') \<Longrightarrow> yields (write_sysctl demo_os path contents) h E V"
  by (auto simp: write_sysctl_def write_file_def demo_os_def)

lemma demo_configure: "succeeds (configure_interface demo_os dev cidr mtu) h"
proof -
  have "os_exists demo_os w path" for w path by (simp add: demo_os_def)
  then show ?thesis unfolding configure_interface_def Let_def yields_bind yields_simps if_True
    by (intro demo_run_ok) (simp_all add: demo_exec_def demo_entry_none demo_run_ok demo_sysctl_ok)
qed

theorem ipv6_off_before_link_up_witness:
  "\<exists>h'. configure_interface demo_os ''tun0'' ''10.9.0.1/24'' 1420 demo_host = Some (Inr (), h') \<and>
     brought_up ''tun0'' ''10.9.0.1/24'' 1420 (effects (ho_out h'))"
proof -
  obtain h' where "configure_interface demo_os ''tun0'' ''10.9.0.1/24'' 1420 demo_host = Some (Inr (), h')"
    using succeedsD [OF demo_configure] by (metis (full_types) unit.exhaust)
  with ipv6_off_before_link_up [OF this] show ?thesis by (auto simp: demo_host_def)
qed

lemma demo_add_changes:
  "\<forall>(tool, app, undo) \<in> set changes. \<forall>w. fst (demo_exec w app) \<Longrightarrow> succeeds (add_changes demo_os cs changes) h"
proof (induction changes arbitrary: cs h)
  case (Cons c changes)
  obtain tool app undo where c: "c = (tool, app, undo)" by (metis prod_cases3)
  with Cons.prems have "fst (demo_exec (ho_world h) app)" by (simp del: split_paired_All)
  moreover have "succeeds (add_changes demo_os cs' changes) h'" for cs' h' by (rule Cons.IH) (use Cons.prems in simp)
  ultimately show ?case unfolding c by (simp add: changes_add_def ScopedCommand_make_def demo_run_ok)
qed simp

lemma demo_route_to:
  assumes "\<And>h'. V \<lparr>ri_dev = ''eth0'', ri_gateway = ''10.1.0.1''\<rparr> h'"
  shows "yields (route_to demo_os address) h E V"
proof -
  have "demo_exec w [''route'', ''get'', address] = (True, w)" for w by (simp add: demo_exec_def demo_entry_none)
  moreover have "take 4096 (demo_output [''route'', ''get'', address]) = ''10.0.0.1 via 10.1.0.1 dev eth0''"
    by (simp add: demo_output_def)
  ultimately have r: "yields (run_capture demo_os Tool_ip [''route'', ''get'', address]) h E
      (\<lambda>out h'. out = ''10.0.0.1 via 10.1.0.1 dev eth0'')"
    using demo_capture [of Tool_ip "[''route'', ''get'', address]"] by (auto simp: yields_def)
  have s: "scan_route \<lparr>ri_dev = [], ri_gateway = []\<rparr> (tokens (getline ''10.0.0.1 via 10.1.0.1 dev eth0'')) =
      \<lparr>ri_dev = ''eth0'', ri_gateway = ''10.1.0.1''\<rparr>" by code_simp
  show ?thesis unfolding route_to_def yields_bind
    by (rule yields_mono [OF r]) (simp, simp only: s Let_def if_False list.distinct not_Cons_self2 RouteInfo.simps yields_simps assms)
qed

lemma demo_install: "succeeds (install_client_routes demo_os tun_dev server) h"
proof -
  have "fst (demo_exec w (concat_args [''route'', ''add''] spec))" for w spec
    by (simp add: demo_exec_def demo_entry_def concat_args_def)
  then have "\<forall>(tool, app, undo) \<in> set (client_changes tun_dev server u). \<forall>w. fst (demo_exec w app)" for u
    by (simp add: client_changes_def route_change_def)
  then have "succeeds (add_changes demo_os [] (client_changes tun_dev server u)) h" for u h by (rule demo_add_changes)
  then show ?thesis unfolding install_client_routes_def yields_bind yields_simps by (intro demo_route_to)
qed


end
