(* ===== verification/Programs_Properties.thy ===== *)
theory Programs_Properties
  imports Programs Netcfg_Properties Relay_Protocol
begin

text \<open>
  Properties of the three programs as a whole: client and server leave the host as they found it, go
  on only with valid options, and the keys of two hosts made with the key tool fit together.
\<close>

section \<open>Scopes give back what they acquired\<close>

lemma bindS_retS [simp]: "bindS m retS = m"
  by (auto simp: bindS_def retS_def fun_eq_iff split: option.split sum.split)

lemma acquires_nothing: "acquires view v (undo_all os) (retS [])"
  by (simp add: acquires_def)

lemma keeps_scope:
  assumes "acquires view v rel m" and "\<And>r v'. keeps view v' (body r)"
  shows "keeps view v (bindS m (\<lambda>r. scopeS (rel r) (body r)))"
  unfolding keeps_def yields_bind
proof (intro allI impI, rule yields_mono)
  fix h :: "'a host" assume "view (ho_world h) = v"
  with assms(1) show "yields m h (\<lambda>e h'. view (ho_world h') = v) (\<lambda>r h'. \<forall>g. view (ho_world g) = view (ho_world h') \<longrightarrow>
     yields (rel r) g (\<lambda>e g'. False) (\<lambda>_ g'. view (ho_world g') = v))" by (simp add: acquires_def)
next
  fix r and h1 :: "'a host"
  assume r: "\<forall>g. view (ho_world g) = view (ho_world h1) \<longrightarrow> yields (rel r) g (\<lambda>e g'. False) (\<lambda>_ g'. view (ho_world g') = v)"
  have "yields (body r) h1 (\<lambda>e h'. view (ho_world h') = view (ho_world h1)) (\<lambda>x h'. view (ho_world h') = view (ho_world h1))"
    using assms(2) [of "view (ho_world h1)" r] by (simp add: keeps_def)
  with r show "yields (scopeS (rel r) (body r)) h1 (\<lambda>e h'. view (ho_world h') = v) (\<lambda>x h'. view (ho_world h') = v)"
    by (auto simp: scopeS_def elim!: yields_mono)
qed

lemma keeps_plain_scope [keeps_intros]: "keeps view v c \<Longrightarrow> keeps view v m \<Longrightarrow> keeps view v (scopeS c m)"
  unfolding scopeS_def by (intro keeps_intros)

lemma emitsS_keeps [keeps_intros]: "keeps view v (emitsS outs)"
  by (induction outs) (simp_all add: keeps_intros)

lemma descr_keeps [keeps_intros]: "keeps view v (descrS es)" "keeps view v (closeS fd)"
  unfolding closeS_def descrS_def by (intro keeps_intros)+

lemma openS_keeps [keeps_intros]: "keeps view v (openS r)"
  unfolding openS_def by (intro keeps_intros keeps_lift) simp

lemma lift_Some_keeps [keeps_intros]: "keeps view v (liftS (Some r))"
  by (rule keeps_lift) simp

section \<open>The programs leave the host as they found it\<close>

lemma client_ipv6_acquires: "tools_ok os view \<Longrightarrow> acquires view v (undo_all os) (client_ipv6 os policy)"
  unfolding client_ipv6_def
  by (intro acquires_bind host_has_ipv6_keeps)
    (auto simp: ChangeSet_assign_def block_host_ipv6_acquires acquires_nothing split: Ipv6Policy.split,
     auto simp: acquires_def)

lemma client_routes_acquires: "tools_ok os view \<Longrightarrow> acquires view v (undo_all os) (client_routes os install name server)"
  by (simp add: client_routes_def ChangeSet_assign_def install_client_routes_acquires acquires_nothing)

lemma ServerNat_assigned [simp]:
  "bindS (ServerNat_assign os ServerNat_init installed) (\<lambda>(this, other). bindS (ServerNat_destroy os other) (\<lambda>_. retS this)) = retS installed"
  by (cases installed) (simp add: ServerNat_assign_def ServerNat_init_def ScopedSysctl_init_def ScopedSysctl_assign_def ChangeSet_assign_def
    ScopedSysctl_restore_def ScopedSysctl_move_def ServerNat_destroy_def ScopedSysctl_destroy_def)

lemma server_nat_acquires: "tools_ok os view \<Longrightarrow> acquires view v (ServerNat_destroy os) (server_nat os opts name)"
proof -
  assume t: "tools_ok os view"
  have i: "acquires view v (ServerNat_destroy os) (install_server_nat os name sub wan)" for sub wan
    using t by (rule install_server_nat_acquires)
  have n0: "acquires view v (ServerNat_destroy os) (retS ServerNat_init)"
    by (simp add: acquires_def ServerNat_destroy_def ServerNat_init_def ScopedSysctl_init_def ScopedSysctl_destroy_def ScopedSysctl_restore_def)
  have n1: "acquires view v (ServerNat_destroy os) (bindS (install_server_nat os name sub wan) (\<lambda>installed.
        bindS (ServerNat_assign os ServerNat_init installed) (\<lambda>(this, other). bindS (ServerNat_destroy os other) (\<lambda>_. retS this))))"
    for sub wan using i by simp
  have "keeps view v (if so_wan_if opts = [] then bindS (route_to os ''1.1.1.1'') (\<lambda>info. retS (ri_dev info)) else retS (so_wan_if opts))"
    by (intro keeps_intros route_to_keeps t)
  from acquires_bind [OF this n1] n0 show ?thesis unfolding server_nat_def by simp
qed

text \<open>The relay returns or throws: the answers it gets from the kernel are enough for it to stop.\<close>

definition relay_ends :: "'s crypto_lib \<Rightarrow> prog_env \<Rightarrow> bool" where
  "relay_ends L env \<longleftrightarrow> (\<forall>name config. run_relay L (pe_setup env) name config (pe_answers env) \<noteq> None)"

text \<open>The relay with its descriptors gives the result of the relay.\<close>

lemma descrS_run: "descrS es h = Some (Inr (), h\<lparr>ho_out := ho_out h @ map Descriptor es\<rparr>)"
proof -
  have "emitsS outs h = Some (Inr (), h\<lparr>ho_out := ho_out h @ outs\<rparr>)" for outs
    by (induction outs arbitrary: h) (simp_all add: retS_def bindS_def emitS_def)
  then show ?thesis by (simp add: descrS_def)
qed

text \<open>An operation that computes \<open>io\<close> and reports nothing but events of descriptors.\<close>

definition computes :: "('w, 'a) sys \<Rightarrow> 'a io \<Rightarrow> 'w host \<Rightarrow> bool" where
  "computes m io h \<longleftrightarrow> (\<exists>es. m h = map_option (\<lambda>r. (r, h\<lparr>ho_out := ho_out h @ map Descriptor es\<rparr>)) io)"

lemma computes_lift: "computes (liftS io) io h"
  by (auto simp: computes_def liftS_def intro!: exI [of _ "[]"])

lemma computes_open:
  assumes "\<And>x h. snd r = Inr x \<Longrightarrow> computes (f x) (g x) h"
  shows "computes (bindS (openS r) f) (bindI (Some (snd r)) g) h"
proof (cases "snd r")
  case (Inr x)
  let ?h = "h\<lparr>ho_out := ho_out h @ map Descriptor (fst r)\<rparr>"
  from assms [OF Inr, of ?h] obtain es where "f x ?h = map_option (\<lambda>r. (r, ?h\<lparr>ho_out := ho_out ?h @ map Descriptor es\<rparr>)) (g x)"
    by (auto simp: computes_def)
  with Inr show ?thesis unfolding computes_def
    by (intro exI [of _ "fst r @ es"]) (simp add: openS_def bindS_def descrS_run liftS_def)
qed (auto simp: computes_def openS_def bindS_def descrS_run liftS_def)

lemma computes_scope:
  assumes "computes m io h"
  shows "computes (scopeS (closeS fd) m) io h"
proof -
  from assms obtain es where "m h = map_option (\<lambda>r. (r, h\<lparr>ho_out := ho_out h @ map Descriptor es\<rparr>)) io" by (auto simp: computes_def)
  then show ?thesis unfolding computes_def
    by (intro exI [of _ "es @ map Closed (fd_destroy fd)"])
      (auto simp: scopeS_def unwindS_def catchS_def bindS_def closeS_def descrS_run throwS_def retS_def split: option.split sum.split)
qed

lemma relayS_result: "computes (relayS L env name config) (run_relay L (pe_setup env) name config (pe_answers env)) h"
proof (cases "rc_identity config")
  case None
  then show ?thesis by (auto simp: relayS_def run_relay_def computes_def throwS_def throw_def intro!: exI [of _ "[]"])
next
  case (Some identity)
  let ?su = "pe_setup env" and ?loop = "relay_loop L (pe_setup env) name config identity (pe_answers env)"
  have "snd (signal_owner p s) = make_signalfd p s" for p s
    by (auto simp: signal_owner_def fd_simps split: sum.split)
  moreover have "bindI (Some (snd (epoll_owner x))) (\<lambda>fd. io) =
      (case x of Sys_err e \<Rightarrow> throw (System_error e ''epoll_create1'') | Sys_ok fd \<Rightarrow> io)" for x and io :: "(RelayStats \<times> relay_out list) io"
    by (auto simp: epoll_owner_def throw_def split: syscall.split)
  ultimately have "run_relay L ?su name config (pe_answers env) =
      bindI (Some (snd (signal_owner (su_sigprocmask ?su) (su_signalfd ?su)))) (\<lambda>signal_fd.
        bindI (Some (snd (epoll_owner (su_epoll_create1 ?su)))) (\<lambda>fd. ?loop))" by (simp add: run_relay_def Some)
  then show ?thesis by (simp add: relayS_def Some computes_open computes_scope computes_lift)
qed

lemma relayS_keeps [keeps_intros]: "relay_ends L env \<Longrightarrow> keeps view v (relayS L env name config)"
  unfolding keeps_def
proof (intro allI impI)
  fix h :: "'b host" assume "relay_ends L env" "view (ho_world h) = v"
  with relayS_result [of L env name config h, unfolded computes_def]
  show "yields (relayS L env name config) h (\<lambda>e h'. view (ho_world h') = v) (\<lambda>x h'. view (ho_world h') = v)"
    by (auto simp: relay_ends_def yields_def split: sum.split)
qed

lemma run_and_report_keeps [keeps_intros]: "relay_ends L env \<Longrightarrow> keeps view v (run_and_report L env name config)"
  unfolding run_and_report_def split_beta by (intro keeps_intros)

lemma client_body_keeps:
  assumes "tools_ok os view" and "relay_ends L env"
  shows "keeps view v (client_body os L env opts server identity)"
  unfolding client_body_def split_beta
  by (intro keeps_scope client_ipv6_acquires client_routes_acquires keeps_intros configure_interface_keeps assms)

lemma server_body_keeps:
  assumes "tools_ok os view" and "relay_ends L env"
  shows "keeps view v (server_body os L env opts identity)"
  unfolding server_body_def split_beta
  by (intro keeps_scope server_nat_acquires keeps_intros configure_interface_keeps assms)

lemma with_identity_keeps [keeps_intros]:
  "(\<And>I. keeps view v (body I)) \<Longrightarrow> keeps view v (with_identity L env path peer_key body)"
  unfolding with_identity_def by (auto intro!: keeps_intros split: option.split)

lemma report_errors_yields:
  "keeps view (view (ho_world h)) m \<Longrightarrow>
   yields (report_errors m) h (\<lambda>e h'. False) (\<lambda>x h'. view (ho_world h') = view (ho_world h))"
  by (auto simp: report_errors_def keeps_def elim!: yields_mono)

lemma yieldsD: "yields m h (\<lambda>e h'. False) (\<lambda>x h'. P h') \<Longrightarrow> \<exists>x h'. m h = Some (Inr x, h') \<and> P h'"
proof -
  assume "yields m h (\<lambda>e h'. False) (\<lambda>x h'. P h')"
  then obtain r h' where "m h = Some (r, h')" "case r of Inl e \<Rightarrow> False | Inr x \<Rightarrow> P h'" by (auto simp: yields_def)
  then show ?thesis by (cases r) auto
qed


definition demo_prog_env :: prog_env where
  "demo_prog_env = \<lparr>pe_allocated = True, pe_key_mode = Some 0x180, pe_key_contents = Some (replicate 32 (CHR ''a'')),
     pe_open_tun = Sys_ok 3, pe_tunsetiff = (\<lambda>flags name. Sys_ok name), pe_socket = Sys_ok 4, pe_bind = (\<lambda>me. Sys_ok ()),
     pe_getsockname = Sys_ok \<lparr>sin_family = AF_INET, sin_port = 0x3930, sin_addr = replicate 4 0\<rparr>, pe_setup = demo_setup,
     pe_answers = [Epoll_ready [Signal_ready (Some 2)]]\<rparr>"

lemma demo_relay_ends: "relay_ends demo_lib demo_prog_env"
  by (auto simp: relay_ends_def demo_prog_env_def run_relay_def relay_loop_def demo_setup_def make_signalfd_def epoll_add_def ret_def throw_def
      split: option.split)




section \<open>The options\<close>

definition client_options_ok :: "client_options \<Rightarrow> bool" where
  "client_options_ok opts \<longleftrightarrow> 576 \<le> co_mtu opts \<and> co_mtu opts \<le> 1500 \<and> subnet_of (co_tun_addr opts) \<noteq> None \<and>
     (\<forall>server. co_server opts = Some server \<longrightarrow> wf_endpoint server)"

definition server_options_ok :: "server_options \<Rightarrow> bool" where
  "server_options_ok opts \<longleftrightarrow> 576 \<le> so_mtu opts \<and> so_mtu opts \<le> 1500 \<and> subnet_of (so_tun_addr opts) \<noteq> None \<and> so_listen_port opts \<noteq> 0"

lemma parse_mtu_range: "parse_mtu t = Some v \<Longrightarrow> 576 \<le> v \<and> v \<le> 1500"
  by (auto simp: parse_mtu_def parse_number_Some)

lemma parse_port_nonzero: "parse_port t = Some p \<Longrightarrow> p \<noteq> 0"
  using port_range [of "\<lambda>v. True" p] by (auto simp: parse_port_def parse_number_Some)

lemma parse_endpoint_wf: "parse_endpoint t = Some a \<Longrightarrow> wf_endpoint a"
proof -
  assume "parse_endpoint t = Some a"
  then obtain port host where p: "sin_port a = htons (word_of_int port)" "0 < port" "port \<le> 65535"
      "sin_family a = AF_INET" "inet_pton (c_str host) = Some (sin_addr a)" by (auto simp: parse_endpoint_Some)
  then have "word_of_int port \<noteq> (0 :: u16)" using port_range [of "\<lambda>v. v = port" "word_of_int port"] by force
  with p show ?thesis by (simp add: wf_endpoint_def inet_pton_length)
qed

lemma subnet_of_text:
  assumes "length a = 4" and "n \<le> 32"
  shows "subnet_of (inet_ntop a @ ''/'' @ to_string n) \<noteq> None"
proof -
  have "CHR ''/'' \<notin> set (inet_ntop a)" using inet_ntop_chars slash_no_digit by metis
  with assms subnet_of_split [OF this, of "to_string n"] show ?thesis by (auto simp: inet_ntop_c_str inet_pton_ntop denotes_to_string)
qed

lemma defaults_ok: "client_options_ok client_defaults" "server_options_ok server_defaults"
proof -
  have "''10.9.0.2/24'' = inet_ntop [10, 9, 0, 2] @ ''/'' @ to_string 24" "''10.9.0.1/24'' = inet_ntop [10, 9, 0, 1] @ ''/'' @ to_string 24"
    by code_simp+
  then have "subnet_of ''10.9.0.2/24'' \<noteq> None" "subnet_of ''10.9.0.1/24'' \<noteq> None" by (simp_all only:) (simp_all add: subnet_of_text del: append.simps)
  then show "client_options_ok client_defaults" "server_options_ok server_defaults"
    by (simp_all add: client_options_ok_def server_options_ok_def client_defaults_def server_defaults_def)
qed

lemma client_option_ok: "client_option program opts flag value = Inr opts' \<Longrightarrow> client_options_ok opts \<Longrightarrow> client_options_ok opts'"
  by (auto simp: client_option_def client_options_ok_def dest: parse_mtu_range parse_endpoint_wf split: if_splits option.splits)

lemma server_option_ok: "server_option program opts flag value = Inr opts' \<Longrightarrow> server_options_ok opts \<Longrightarrow> server_options_ok opts'"
  by (auto simp: server_option_def server_options_ok_def dest: parse_mtu_range parse_port_nonzero split: if_splits option.splits)

lemma client_option_stop: "client_option program opts flag arg = Inl stop \<Longrightarrow> fst stop = 2"
  by (auto simp: client_option_def split: if_splits option.splits)

lemma server_option_stop: "server_option program opts flag arg = Inl stop \<Longrightarrow> fst stop = 2"
  by (auto simp: server_option_def split: if_splits option.splits)

definition asks_help :: "net_out \<Rightarrow> string list \<Rightarrow> nat \<times> net_out list \<Rightarrow> bool" where
  "asks_help usage args stop \<longleftrightarrow> stop = (0, [usage]) \<and> (''-h'' \<in> set args \<or> ''--help'' \<in> set args)"

text \<open>
  The option loop both programs have: a flag that asks for help, one that stands alone, and all others
  with the argument behind them. Its client relies on the handling of a single option, which keeps the
  options valid or stops with exit code 2.
\<close>

locale option_loop =
  fixes loop :: "'o \<Rightarrow> string list \<Rightarrow> cli_exit + 'o" and opt :: "'o \<Rightarrow> string \<Rightarrow> string \<Rightarrow> cli_exit + 'o" and usage :: net_out
    and alone :: string and set_alone :: "'o \<Rightarrow> 'o" and valid :: "'o \<Rightarrow> bool"
  assumes loop_Nil: "loop opts [] = Inr opts"
    and loop_Cons: "loop opts (flag # rest) =
      (if flag = ''-h'' \<or> flag = ''--help'' then Inl (0, [usage])
       else if flag = alone then loop (set_alone opts) rest
       else (case rest of
               [] \<Rightarrow> Inl (2, [Note (flag @ '' is not a known option, or needs a value'')])
             | arg # rest' \<Rightarrow> (case opt opts flag arg of Inl stop \<Rightarrow> Inl stop | Inr opts' \<Rightarrow> loop opts' rest')))"
    and opt_valid: "opt opts flag arg = Inr opts' \<Longrightarrow> valid opts \<Longrightarrow> valid opts'"
    and opt_stop: "opt opts flag arg = Inl stop \<Longrightarrow> fst stop = 2"
    and set_alone_valid: "valid opts \<Longrightarrow> valid (set_alone opts)"
begin

lemma loop_result:
  assumes "valid opts"
  shows "case loop opts args of Inr opts' \<Rightarrow> valid opts' | Inl stop \<Rightarrow> fst stop = 2 \<or> asks_help usage args stop"
  using assms
proof (induction args arbitrary: opts rule: length_induct)
  case (1 args)
  let ?result = "\<lambda>args r. case r of Inr opts' \<Rightarrow> valid opts' | Inl stop \<Rightarrow> fst stop = 2 \<or> asks_help usage args stop"
  have wider: "?result (xs @ args') r" if "?result args' r" for xs args' r using that by (auto simp: asks_help_def split: sum.splits)
  show ?case
  proof (cases args)
    case (Cons flag rest)
    consider (asked) "flag = ''-h'' \<or> flag = ''--help''" | (alone) "\<not> (flag = ''-h'' \<or> flag = ''--help'')" "flag = alone"
      | (argument) "\<not> (flag = ''-h'' \<or> flag = ''--help'')" "flag \<noteq> alone" by blast
    then show ?thesis
    proof cases
      case asked
      then show ?thesis unfolding Cons by (auto simp: loop_Cons asks_help_def)
    next
      case alone
      have "?result rest (loop (set_alone opts) rest)" using "1.IH" "1.prems" Cons set_alone_valid by simp
      from wider [OF this, of "[flag]"] alone show ?thesis unfolding Cons loop_Cons append_Cons append_Nil by simp
    next
      case argument
      show ?thesis
      proof (cases rest)
        case (Cons arg rest')
        show ?thesis
        proof (cases "opt opts flag arg")
          case (Inr opts')
          then have "?result rest' (loop opts' rest')" using "1.IH" "1.prems" \<open>args = flag # rest\<close> Cons opt_valid by simp
          from wider [OF this, of "[flag, arg]"] argument Inr show ?thesis
            unfolding \<open>args = flag # rest\<close> Cons loop_Cons append_Cons append_Nil by simp
        qed (use argument opt_stop in \<open>simp add: \<open>args = flag # rest\<close> Cons loop_Cons\<close>)
      qed (use argument in \<open>simp add: Cons loop_Cons\<close>)
    qed
  qed (use "1.prems" in \<open>simp add: loop_Nil\<close>)
qed

end

interpretation client_loop: option_loop "client_args program" "client_option program" "Usage (client_usage program)" "''--no-routes''" "\<lambda>opts. opts\<lparr>co_install_routes := False\<rparr>" client_options_ok
proof
  show "client_options_ok opts \<Longrightarrow> client_options_ok (opts\<lparr>co_install_routes := False\<rparr>)" for opts :: client_options
    by (simp add: client_options_ok_def)
qed (simp, simp only: client_args.simps, erule (1) client_option_ok, erule client_option_stop)

interpretation server_loop: option_loop "server_args program" "server_option program" "Usage (server_usage program)" "''--no-nat''" "\<lambda>opts. opts\<lparr>so_install_nat := False\<rparr>" server_options_ok
proof
  show "server_options_ok opts \<Longrightarrow> server_options_ok (opts\<lparr>so_install_nat := False\<rparr>)" for opts :: server_options
    by (simp add: server_options_ok_def)
qed (simp, simp only: server_args.simps, erule (1) server_option_ok, erule server_option_stop)

text \<open>
  C38: the options the two programs go on with are valid. The MTU is between 576 and 1500, the tunnel
  address has a subnet, so the server's unchecked use of it is safe, the server's endpoint can be sent
  to, and the listening port of the server is not 0; otherwise the program stops with exit code 2, or
  with 0 and the usage text when it was asked for help.
\<close>

theorem accepted_options_valid:
  "(case client_args program client_defaults cargs of
      Inr opts \<Rightarrow> client_options_ok opts
    | Inl stop \<Rightarrow> fst stop = 2 \<or> asks_help (Usage (client_usage program)) cargs stop) \<and>
   (case server_args program server_defaults sargs of
      Inr opts \<Rightarrow> server_options_ok opts
    | Inl stop \<Rightarrow> fst stop = 2 \<or> asks_help (Usage (server_usage program)) sargs stop)"
  using client_loop.loop_result [OF defaults_ok(1)] server_loop.loop_result [OF defaults_ok(2)] by blast

section \<open>The key tool\<close>

definition base64_alphabet :: string where
  "base64_alphabet = ''ABCDEFGHIJKLMNOPQRSTUVWXYZabcdefghijklmnopqrstuvwxyz0123456789+/=''"

text \<open>
  What libsodium documents of its base64 codec: the text of some bytes is not empty, consists of
  characters of the alphabet and padding, and decodes, as a whole, to the bytes.
\<close>

definition base64_ok :: "'s crypto_lib \<Rightarrow> bool" where
  "base64_ok L \<longleftrightarrow> (\<forall>bs. bs \<noteq> [] \<longrightarrow> bin2base64 L bs \<noteq> [] \<and> base642bin L (bin2base64 L bs) = (0, bs, length (bin2base64 L bs)) \<and>
     set (bin2base64 L bs) \<subseteq> set base64_alphabet)"

lemma base64_roundtrip:
  assumes "base64_ok L" and "bs \<noteq> []"
  shows "from_base64 L (to_base64 L bs) = Some bs"
  using assms by (simp add: base64_ok_def from_base64_def to_base64_def)

lemma base64_plain:
  assumes "base64_ok L" and "bs \<noteq> []"
  shows "c_str (to_base64 L bs) = to_base64 L bs" and "key_line (to_base64 L bs @ [CHR 0x0A]) = to_base64 L bs"
proof -
  have s: "set (to_base64 L bs) \<subseteq> set base64_alphabet"
    using assms by (simp add: base64_ok_def to_base64_def)
  have a: "c \<noteq> CHR 0x00 \<and> c \<noteq> CHR 0x0A \<and> c \<noteq> CHR 0x0D \<and> c \<noteq> CHR '' ''" if "c \<in> set (to_base64 L bs)" for c
    using s that by (auto simp: base64_alphabet_def)
  then have d: "dropWhile (\<lambda>c. c = CHR 0x0D \<or> c = CHR '' '') (rev (to_base64 L bs)) = rev (to_base64 L bs)"
    by (cases "rev (to_base64 L bs)") auto
  from a show "c_str (to_base64 L bs) = to_base64 L bs" by (simp add: c_str_def takeWhile_id)
  have "takeWhile (\<lambda>c. c \<noteq> CHR 0x0A) (to_base64 L bs @ [CHR 0x0A]) = to_base64 L bs" using a by (simp add: takeWhile_append)
  with d show "key_line (to_base64 L bs @ [CHR 0x0A]) = to_base64 L bs" by (simp add: key_line_def)
qed

lemma genkey_output:
  assumes "crypto_ok L" and "base64_ok L" and "crypto_init L = Inr ()" and "length rnd = 32"
  shows "\<exists>a. length a = 32 \<and> key_main L False rnd inp [prog, ''genkey''] = \<lparr>kr_code = 0, kr_stdout = to_base64 L a @ [CHR 0x0A], kr_stderr = []\<rparr>"
proof -
  obtain a where a: "generate_keypair L rnd = Inr (a, snd (scalarmult_base L a))" "length a = 32"
    using generate_keypair_value assms(1,4) unfolding crypto_ok_def by blast
  then have "a \<noteq> []" by auto
  with a assms(3) show ?thesis by (intro exI [of _ a]) (simp add: key_main_def genkey_def base64_plain [OF assms(2)])
qed

lemma pubkey_output:
  assumes "crypto_ok L" and "base64_ok L" and "crypto_init L = Inr ()" and "length a = 32"
  shows "key_main L tty rnd (to_base64 L a @ [CHR 0x0A]) [prog, ''pubkey''] =
    \<lparr>kr_code = 0, kr_stdout = to_base64 L (snd (scalarmult_base L a)) @ [CHR 0x0A], kr_stderr = []\<rparr>"
proof -
  have x: "x25519_ok L" using assms(1) by (simp add: crypto_ok_def)
  then have n: "a \<noteq> []" "snd (scalarmult_base L a) \<noteq> []" using assms(4) by (auto simp: x25519_ok_def)
  have "rev (trim_back (rev (getline (to_base64 L a @ [CHR 0x0A])))) = to_base64 L a"
    using base64_plain(2) [OF assms(2) n(1)] by (simp add: key_line_def getline_takeWhile trim_back_dropWhile)
  with assms(3,4) n show ?thesis
    by (simp add: key_main_def pubkey_def base64_roundtrip [OF assms(2)] derive_public_value [OF x] base64_plain(1) [OF assms(2)])
qed

lemma key_file_loads:
  assumes "crypto_ok L" and "base64_ok L" and "length a = 32" and "length P = 32"
  shows "\<exists>I. load_identity L True (Some 0x180) (Some (to_base64 L a @ [CHR 0x0A])) path (to_base64 L P) = Inr ([], Some I) \<and>
    wf_Identity L I \<and> id_private_key I = a \<and> id_peer_public I = P"
proof -
  have n: "a \<noteq> []" "P \<noteq> []" using assms(3,4) by auto
  obtain I where "make_Identity L True a P = Inr I" "wf_Identity L I" "id_private_key I = a" "id_peer_public I = P"
    using make_Identity_value [OF assms(1,3,4)] by blast
  then show ?thesis using base64_plain(2) [OF assms(2) n(1)] assms(3,4)
    by (simp add: load_identity_def Let_def getline_takeWhile trim_back_dropWhile key_line_def Identity_from_base64_def base64_roundtrip [OF assms(2)] n)
qed

text \<open>
  C28: the two keys of two hosts made with the key tool fit together. \<open>genkey\<close> with its output
  redirected to a file, \<open>pubkey\<close> with that file as its input, and the line it prints given to the
  other host as the peer key, all succeed; each host then loads an identity from its file without a
  diagnostic, and each holds as its peer's key the public key of the other, so the two complete a
  handshake. \<open>genkey\<close> prints nothing on a terminal.
\<close>

theorem keys_pair_up:
  assumes "crypto_ok L" and "base64_ok L" and "crypto_init L = Inr ()" and "length r1 = 32" and "length r2 = 32"
  shows "\<exists>f1 f2 p1 p2 I1 I2.
    key_main L False r1 inp [prog, ''genkey''] = \<lparr>kr_code = 0, kr_stdout = f1, kr_stderr = []\<rparr> \<and>
    key_main L False r2 inp [prog, ''genkey''] = \<lparr>kr_code = 0, kr_stdout = f2, kr_stderr = []\<rparr> \<and>
    key_main L tty r f1 [prog, ''pubkey''] = \<lparr>kr_code = 0, kr_stdout = p1 @ [CHR 0x0A], kr_stderr = []\<rparr> \<and>
    key_main L tty r f2 [prog, ''pubkey''] = \<lparr>kr_code = 0, kr_stdout = p2 @ [CHR 0x0A], kr_stderr = []\<rparr> \<and>
    load_identity L True (Some 0x180) (Some f1) path1 p2 = Inr ([], Some I1) \<and>
    load_identity L True (Some 0x180) (Some f2) path2 p1 = Inr ([], Some I2) \<and>
    wf_Identity L I1 \<and> wf_Identity L I2 \<and>
    id_peer_public I1 = id_public_key I2 \<and> id_peer_public I2 = id_public_key I1 \<and>
    kr_stdout (key_main L True r inp [prog, ''genkey'']) = []"
proof -
  obtain a b where a: "length a = 32" "key_main L False r1 inp [prog, ''genkey''] = \<lparr>kr_code = 0, kr_stdout = to_base64 L a @ [CHR 0x0A], kr_stderr = []\<rparr>"
    and b: "length b = 32" "key_main L False r2 inp [prog, ''genkey''] = \<lparr>kr_code = 0, kr_stdout = to_base64 L b @ [CHR 0x0A], kr_stderr = []\<rparr>"
    using genkey_output [OF assms(1-3)] assms(4,5) by blast
  let ?A = "snd (scalarmult_base L a)" and ?B = "snd (scalarmult_base L b)"
  have l: "length ?A = 32" "length ?B = 32" using assms(1) a(1) b(1) by (auto simp: crypto_ok_def x25519_ok_def)
  obtain I1 where I1: "load_identity L True (Some 0x180) (Some (to_base64 L a @ [CHR 0x0A])) path1 (to_base64 L ?B) = Inr ([], Some I1)"
    "wf_Identity L I1" "id_private_key I1 = a" "id_peer_public I1 = ?B" using key_file_loads [OF assms(1,2) a(1) l(2)] by blast
  obtain I2 where I2: "load_identity L True (Some 0x180) (Some (to_base64 L b @ [CHR 0x0A])) path2 (to_base64 L ?A) = Inr ([], Some I2)"
    "wf_Identity L I2" "id_private_key I2 = b" "id_peer_public I2 = ?A" using key_file_loads [OF assms(1,2) b(1) l(1)] by blast
  have p: "id_peer_public I1 = id_public_key I2" "id_peer_public I2 = id_public_key I1"
    using I1(2-4) I2(2-4) by (simp_all add: wf_Identity_def)
  have t: "kr_stdout (key_main L True r inp [prog, ''genkey'']) = []" using assms(3) by (simp add: key_main_def genkey_def)
  note pub = pubkey_output [OF assms(1-3), where tty = tty and rnd = r and prog = prog]
  show ?thesis
    using a(2) b(2) pub [OF a(1)] pub [OF b(1)] I1(1,2) I2(1,2) p t by blast
qed

text \<open>An instance whose codec writes each byte as two letters.\<close>

fun unhex :: "string \<Rightarrow> bytes" where
  "unhex (a # b # s) = of_nat (16 * (of_char a - 97) + (of_char b - 97)) # unhex s"
| "unhex s = []"

definition demo_hex :: "bytes \<Rightarrow> string" where
  "demo_hex bs = concat (map (\<lambda>b. [char_of (97 + unat b div 16), char_of (97 + unat b mod 16)]) bs)"

definition demo_key_lib :: "bytes crypto_lib" where
  "demo_key_lib = demo_lib\<lparr>bin2base64 := demo_hex, base642bin := \<lambda>s. (0, unhex s, length s)\<rparr>"

lemma demo_key_lib_ok: "crypto_ok demo_key_lib"
  using demo_crypto_ok
  by (simp add: crypto_ok_def blake2s_ok_def x25519_ok_def aead_ok_def memcmp_ok_def demo_key_lib_def)

lemma demo_nibble:
  fixes n :: nat
  assumes "n < 16"
  shows "of_char (char_of (97 + n) :: char) = 97 + n"
    and "(char_of (97 + n) :: char) \<in> set base64_alphabet"
proof -
  have "list_all (\<lambda>n. (char_of (97 + n) :: char) \<in> set base64_alphabet) [0..<16]"
    by code_simp
  then show "(char_of (97 + n) :: char) \<in> set base64_alphabet"
    using assms by (simp add: list_all_iff)
qed (use assms in simp)

lemma demo_base64_ok: "base64_ok demo_key_lib"
proof -
  have "unat b div 16 < 16" "unat b mod 16 < 16" for b :: u8 using unat_u8_less [of b] by (simp_all add: less_mult_imp_div_less)
  note n = this [THEN demo_nibble(1)] this [THEN demo_nibble(2)]
  have b: "(of_nat (16 * (of_char (char_of (97 + unat b div 16) :: char) - 97) + (of_char (char_of (97 + unat b mod 16) :: char) - 97)) :: u8) = b"
    for b unfolding n add_diff_cancel_left' mult_div_mod_eq by simp
  have "unhex (demo_hex bs) = bs" for bs
    by (induction bs) (simp_all only: demo_hex_def list.map concat.simps append_Cons append_Nil unhex.simps b)
  moreover have "set (demo_hex bs) \<subseteq> set base64_alphabet" for bs
    unfolding demo_hex_def using n by auto
  moreover have "bs \<noteq> [] \<Longrightarrow> demo_hex bs \<noteq> []" for bs by (cases bs) (simp_all add: demo_hex_def)
  ultimately show ?thesis by (simp add: base64_ok_def demo_key_lib_def)
qed

theorem keys_pair_up_witness:
  "\<exists>f1 p2 I1 I2. key_main demo_key_lib False (replicate 32 5) [] [''vpnkey'', ''genkey''] = \<lparr>kr_code = 0, kr_stdout = f1, kr_stderr = []\<rparr> \<and>
    load_identity demo_key_lib True (Some 0x180) (Some f1) ''private.key'' p2 = Inr ([], Some I1) \<and> wf_Identity demo_key_lib I2 \<and>
    id_peer_public I1 = id_public_key I2"
proof -
  have "crypto_init demo_key_lib = Inr ()" by (simp add: crypto_init_def demo_key_lib_def demo_lib_def)
  from keys_pair_up [OF demo_key_lib_ok demo_base64_ok this, of "replicate 32 5" "replicate 32 6" "[]" "''vpnkey''" False "[]" "''private.key''" "''private.key''"]
  show ?thesis by simp blast
qed

end
