(* ===== verification/Trace.thy ===== *)
theory Trace
  imports Programs_Properties
begin

text \<open>
  Properties of what the programs report. The locale \<open>trace_property\<close> is the interface: a property of
  reports that holds of ordinary messages, of every run of a tool and of every use of a descriptor
  between its opening and its closing, and that is kept when reports are joined. Every operation of
  the network configuration and of the programs' bodies then has it, however it ends.
\<close>

section \<open>Operations whose reports have a property\<close>

definition obeys :: "(net_out list \<Rightarrow> bool) \<Rightarrow> ('w, 'a) sys \<Rightarrow> bool" where
  "obeys P m \<longleftrightarrow> (\<forall>h. ensures m h (\<lambda>e. emitted h P) (\<lambda>x. emitted h P))"

lemma obeysD: "obeys P m \<Longrightarrow> ensures m h (\<lambda>e. emitted h P) (\<lambda>x. emitted h P)"
  by (simp add: obeys_def)

lemma obeys_run:
  assumes "obeys P m" and "m h = Some (r, h')"
  shows "emitted h P h'"
  using obeysD [OF assms(1), of h] assms(2) by (cases r) (auto dest: ensuresD)

named_theorems obeys_intros

text \<open>Reports that are neither of the relay nor of the means of running a tool.\<close>

fun ordinary :: "net_out \<Rightarrow> bool" where
  "ordinary (Note t) \<longleftrightarrow> True"
| "ordinary (Wrote_file path contents ok) \<longleftrightarrow> True"
| "ordinary (Undo_failed e) \<longleftrightarrow> True"
| "ordinary (Restore_failed path contents) \<longleftrightarrow> True"
| "ordinary (Usage t) \<longleftrightarrow> True"
| "ordinary (Key_diag d) \<longleftrightarrow> True"
| "ordinary (Fatal e) \<longleftrightarrow> True"
| "ordinary _ \<longleftrightarrow> False"

text \<open>
  What opening a descriptor reports: nothing if the kernel refuses, the opening and the closing if a
  later step fails, and the opening if an object owns it now.
\<close>

definition handed_out :: "('a \<Rightarrow> int) \<Rightarrow> fd_event list \<times> 'a result \<Rightarrow> bool" where
  "handed_out fd_of r \<longleftrightarrow>
     (case snd r of
        Inl e \<Rightarrow> fst r = [] \<or> (\<exists>fd. fst r = Opened fd # map Closed (fd_destroy fd))
      | Inr x \<Rightarrow> fst r = [Opened (fd_of x)])"

lemma handed_out_tun: "handed_out tun_owner (tun_open open_tun tunsetiff name)"
  by (auto simp: handed_out_def tun_open_def Let_def fd_simps split: syscall.split)

lemma handed_out_udp: "handed_out us_fd (bind_any socket bind port)"
  by (auto simp: handed_out_def bind_any_def Let_def fd_simps split: syscall.split)

lemma handed_out_signal: "handed_out (\<lambda>fd. fd) (signal_owner sigprocmask signalfd)"
  by (auto simp: handed_out_def signal_owner_def fd_simps split: sum.split)

lemma handed_out_epoll: "handed_out (\<lambda>fd. fd) (epoll_owner epoll_create1)"
  by (auto simp: handed_out_def epoll_owner_def fd_simps split: syscall.split)

locale trace_property =
  fixes P :: "net_out list \<Rightarrow> bool"
  assumes P_Nil: "P []"
    and P_append: "P xs \<Longrightarrow> P ys \<Longrightarrow> P (xs @ ys)"
    and P_ordinary: "ordinary x \<Longrightarrow> P [x]"
    and P_failure: "outs \<in> spawn_failures pipe \<Longrightarrow> P outs"
    and P_run: "outs \<in> spawn_runs prog args capture pipe \<Longrightarrow> P outs"
    and P_owner: "P outs \<Longrightarrow> P (Descriptor (Opened fd) # outs @ closings fd)"
begin

lemma emitted_refl: "emitted h P h"
  by (simp add: emitted_def P_Nil)

lemma emitted_trans: "emitted h P g \<Longrightarrow> emitted g P g' \<Longrightarrow> emitted h P g'"
  by (auto simp: emitted_def P_append)

lemma obeys_after: "obeys P m \<Longrightarrow> emitted h P g \<Longrightarrow> ensures m g (\<lambda>e. emitted h P) (\<lambda>x. emitted h P)"
  by (rule ensures_mono [OF obeysD]) (auto intro: emitted_trans)

lemma obeys_basic [obeys_intros]: "obeys P (retS x)" "obeys P (throwS e)" "obeys P (askS f)" "obeys P (changeS c)" "obeys P (liftS io)"
  by (auto simp: obeys_def emitted_def P_Nil split: sum.split)

lemma obeys_emit [obeys_intros]: "ordinary x \<Longrightarrow> obeys P (emitS x)"
  by (simp add: obeys_def emitted_def P_ordinary)

lemma obeys_bind [obeys_intros]: "obeys P m \<Longrightarrow> (\<And>x. obeys P (f x)) \<Longrightarrow> obeys P (bindS m f)"
  unfolding obeys_def [of P "bindS m f"] ensures_bind
  by (intro allI, erule ensures_mono [OF obeysD], assumption, rule obeys_after)

lemma obeys_catch [obeys_intros]: "obeys P m \<Longrightarrow> (\<And>e. obeys P (f e)) \<Longrightarrow> obeys P (catchS m f)"
  unfolding obeys_def [of P "catchS m f"] ensures_catch
  by (intro allI, erule ensures_mono [OF obeysD], rule obeys_after)

lemma obeys_unwind [obeys_intros]: "obeys P c \<Longrightarrow> obeys P m \<Longrightarrow> obeys P (unwindS c m)"
  unfolding unwindS_def by (intro obeys_intros)

lemma obeys_scope [obeys_intros]: "obeys P c \<Longrightarrow> obeys P m \<Longrightarrow> obeys P (scopeS c m)"
  unfolding scopeS_def by (intro obeys_intros)

lemma obeys_if [obeys_intros]: "obeys P m \<Longrightarrow> obeys P m' \<Longrightarrow> obeys P (if b then m else m')"
  by simp

lemma obeys_emits [obeys_intros]: "list_all ordinary outs \<Longrightarrow> obeys P (emitsS outs)"
  by (induction outs) (auto intro!: obeys_intros)

text \<open>A descriptor that is opened, owned by an object and closed by its destructor.\<close>

lemma obeys_owner [obeys_intros]:
  fixes body :: "'a \<Rightarrow> ('w, 'b) sys"
  assumes "handed_out fd_of r" and "\<And>x. obeys P (body x)"
  shows "obeys P (bindS (openS r) (\<lambda>x. scopeS (closeS (fd_of x)) (body x)))"
  unfolding obeys_def
proof
  fix h :: "'w host"
  have "emitted h P (g\<lparr>ho_out := ho_out g @ closings fd\<rparr>)" if "emitted (h\<lparr>ho_out := ho_out h @ [Descriptor (Opened fd)]\<rparr>) P g" for fd g
    using that P_owner by (auto simp: emitted_def)
  note c = this [unfolded closings_def]
  have "ensures (scopeS (closeS (fd_of x)) (body x)) (h\<lparr>ho_out := ho_out h @ [Descriptor (Opened (fd_of x))]\<rparr>) (\<lambda>e. emitted h P) (\<lambda>x. emitted h P)" for x
    using obeysD [OF assms(2)] unfolding ensures_scope ensures_descr by (rule ensures_mono) (rule c, assumption)+
  moreover have "emitted h P (h\<lparr>ho_out := ho_out h @ map Descriptor (Opened fd # map Closed (fd_destroy fd))\<rparr>)" for fd
    using P_owner [OF P_Nil, of fd] by (simp add: emitted_def closings_def comp_def)
  ultimately show "ensures (bindS (openS r) (\<lambda>x. scopeS (closeS (fd_of x)) (body x))) h (\<lambda>e. emitted h P) (\<lambda>x. emitted h P)"
    using assms(1) by (cases "snd r") (auto simp: openS_def handed_out_def emitted_refl simp del: ensures_scope)
qed

subsection \<open>The network configuration\<close>

lemma obeys_tool [obeys_intros]: "obeys P (net_run os tool args)" "obeys P (run_capture os tool args)"
proof -
  have s: "obeys P (spawn_and_wait os prog args capture)" for prog capture unfolding obeys_def
    by (intro allI ensures_mono [OF spawn_and_wait_traces]) (auto simp: emitted_def intro: P_failure P_run)
  have b: "obeys P (binary_for os tool)" unfolding obeys_def
    by (intro allI ensures_mono [OF binary_for_same]) (simp_all add: emitted_refl)
  show "obeys P (net_run os tool args)" "obeys P (run_capture os tool args)"
    unfolding net_run_def run_capture_def by (intro obeys_intros s b)+
qed

lemma obeys_write [obeys_intros]: "obeys P (write_file os path contents)" "obeys P (write_sysctl os path contents)"
  unfolding write_sysctl_def write_file_def by (intro obeys_intros; simp)+

lemma obeys_configure [obeys_intros]: "obeys P (configure_interface os dev cidr mtu)"
  unfolding configure_interface_def Let_def by (intro obeys_intros) simp

lemma obeys_undo_all [obeys_intros]: "obeys P (undo_all os cs)"
proof (induction cs rule: rev_induct)
  case (snoc c cs)
  then show ?case unfolding undo_all_snoc ScopedCommand_destroy_def by (intro obeys_intros) simp_all
qed (simp add: obeys_intros)

lemma obeys_add_changes [obeys_intros]: "obeys P (add_changes os cs changes)"
proof (induction changes arbitrary: cs)
  case (Cons c changes)
  obtain tool app undo where c: "c = (tool, app, undo)" by (metis prod_cases3)
  show ?case unfolding c add_changes.simps changes_add_def ScopedCommand_make_def by (intro obeys_intros Cons.IH)
qed (simp add: obeys_intros)

lemma obeys_route_to [obeys_intros]: "obeys P (route_to os address)"
  unfolding route_to_def Let_def by (intro obeys_intros)

lemma obeys_sysctl [obeys_intros]: "obeys P (ScopedSysctl_make os path contents)" "obeys P (ScopedSysctl_destroy os s)"
  unfolding ScopedSysctl_make_def ScopedSysctl_destroy_def ScopedSysctl_restore_def Let_def
  by (auto intro!: obeys_intros split: option.split)

lemma obeys_nat [obeys_intros]: "obeys P (ServerNat_destroy os sn)" "obeys P (install_server_nat os tun_dev net wan_dev)"
  unfolding ServerNat_destroy_def install_server_nat_def by (intro obeys_intros; simp)+

subsection \<open>The steps of the programs\<close>

lemma obeys_client [obeys_intros]: "obeys P (client_ipv6 os policy)" "obeys P (client_routes os install name server)"
  unfolding client_ipv6_def host_has_ipv6_def block_host_ipv6_def client_routes_def install_client_routes_def ChangeSet_assign_def
  by (cases policy; auto intro!: obeys_intros) (auto intro!: obeys_intros)

lemma obeys_server_nat [obeys_intros]: "obeys P (server_nat os opts name)"
  unfolding server_nat_def ServerNat_assigned by (intro obeys_intros)

lemma obeys_relay [obeys_intros]: "obeys P (relayS L env name config)"
  unfolding relayS_def by (cases "rc_identity config") (auto intro!: obeys_intros handed_out_signal handed_out_epoll)

lemma obeys_report [obeys_intros]: "obeys P m \<Longrightarrow> obeys P (report_errors m)"
  unfolding report_errors_def by (intro obeys_intros) simp_all

lemma obeys_identity [obeys_intros]: "(\<And>I. obeys P (body I)) \<Longrightarrow> obeys P (with_identity L env path peer_key body)"
  unfolding with_identity_def by (auto intro!: obeys_intros simp: list_all_iff split: option.split)

end

section \<open>The ways the option loops stop\<close>

lemma client_stops:
  "client_args program opts args = Inl (code, msgs) \<Longrightarrow> list_all ordinary msgs"
  "client_checks program opts = Inl (code, msgs) \<Longrightarrow> list_all ordinary msgs"
proof -
  have "client_option program opts flag value = Inl (code, msgs) \<Longrightarrow> list_all ordinary msgs" for opts flag "value"
    by (auto simp: client_option_def split: if_splits option.splits)
  then show "client_args program opts args = Inl (code, msgs) \<Longrightarrow> list_all ordinary msgs"
    by (induction program opts args rule: client_args.induct) (auto split: if_splits list.splits sum.splits)
qed (auto simp: client_checks_def split: option.splits if_splits)

lemma server_stops:
  "server_args program opts args = Inl (code, msgs) \<Longrightarrow> list_all ordinary msgs"
  "server_checks program opts = Inl (code, msgs) \<Longrightarrow> list_all ordinary msgs"
proof -
  have "server_option program opts flag value = Inl (code, msgs) \<Longrightarrow> list_all ordinary msgs" for opts flag "value"
    by (auto simp: server_option_def split: if_splits option.splits)
  then show "server_args program opts args = Inl (code, msgs) \<Longrightarrow> list_all ordinary msgs"
    by (induction program opts args rule: server_args.induct) (auto split: if_splits list.splits sum.splits)
qed (auto simp: server_checks_def split: if_splits)

end
