(* ===== verification/Programs_Trace.thy ===== *)
theory Programs_Trace
  imports Trace
begin

text \<open>
  The order of the programs' steps: what has happened on the host when the relay runs. An operation is
  \<open>quiet\<close> if it never relays; \<open>came\<close> follows the commands run so far from step to step.
\<close>

section \<open>What happens before the relay runs\<close>

text \<open>The part of a program's reports in front of the relay's; \<open>None\<close> if the relay did not run.\<close>

fun until_relay :: "net_out list \<Rightarrow> net_out list option" where
  "until_relay [] = None"
| "until_relay (Relayed out # outs) = Some []"
| "until_relay (x # outs) = map_option ((#) x) (until_relay outs)"

lemma until_relay_append:
  "until_relay (xs @ ys) = (case until_relay xs of Some pre \<Rightarrow> Some pre | None \<Rightarrow> map_option (\<lambda>pre. xs @ pre) (until_relay ys))"
  by (cases "until_relay ys"; induction xs rule: until_relay.induct) (auto split: option.split)

lemma until_relay_None: "until_relay (x # outs) = None \<longleftrightarrow> (\<forall>out. x \<noteq> Relayed out) \<and> until_relay outs = None"
  by (cases x) simp_all

lemma until_relay_effects: "until_relay (effects outs) = None \<longleftrightarrow> until_relay outs = None"
proof (induction outs)
  case (Cons x outs)
  have "outward x" if "x = Relayed out" for out using that by simp
  with Cons show ?case by (auto simp: until_relay_None)
qed simp

abbreviation silent :: "'w host \<Rightarrow> 'w host \<Rightarrow> bool" where
  "silent h \<equiv> emitted h (\<lambda>outs. until_relay outs = None)"

lemma until_relay_descriptors [simp]: "until_relay (map Descriptor es) = None"
  by (induction es) simp_all

lemma commands_descriptors [simp]: "commands (map Descriptor es) = []"
  by (induction es) simp_all

lemma until_relay_closings [simp]: "until_relay (closings fd) = None"
  unfolding closings_def by (induction "fd_destroy fd" arbitrary: fd) (simp_all add: fd_simps)

text \<open>An operation that never relays.\<close>

abbreviation quiet :: "('w, 'a) sys \<Rightarrow> bool" where
  "quiet m \<equiv> obeys (\<lambda>outs. until_relay outs = None) m"

interpretation unrelayed: trace_property "\<lambda>outs. until_relay outs = None"
proof
  show "until_relay [x] = None" if "ordinary x" for x using that by (cases x) simp_all
  show "until_relay outs = None" if "outs \<in> spawn_failures pipe" for outs pipe
    using that by (auto simp: spawn_failures_def until_relay_append split: syscall.splits)
  show "until_relay outs = None" if "outs \<in> spawn_runs prog args capture pipe" for outs prog args capture pipe
    using that by (auto simp: spawn_runs_def until_relay_append split: syscall.splits if_splits)
qed (simp_all add: until_relay_append)

lemma quiet_open: "quiet (openS r)" "quiet (closeS fd)"
  using until_relay_closings [unfolded closings_def] by (auto simp: obeys_def openS_def emitted_def split: sum.split)

text \<open>Without relaying, the commands \<open>cs\<close> were run and the reports \<open>N\<close> made since \<open>h\<close>.\<close>

definition came :: "'w host \<Rightarrow> string list list \<Rightarrow> net_out set \<Rightarrow> 'w host \<Rightarrow> bool" where
  "came h cs N = emitted h (\<lambda>outs. until_relay outs = None \<and> commands outs = cs \<and> N \<subseteq> set outs)"

text \<open>If the relay has run since \<open>h\<close>, then only after reports that satisfy \<open>C\<close>.\<close>

definition relays_after :: "'w host \<Rightarrow> (net_out list \<Rightarrow> bool) \<Rightarrow> 'w host \<Rightarrow> bool" where
  "relays_after h C = emitted h (\<lambda>outs. \<forall>pre. until_relay outs = Some pre \<longrightarrow> C pre)"

lemma came_refl: "came h [] {} h"
  by (simp add: came_def emitted_def)

lemma came_trans: "came h cs N g \<Longrightarrow> came g cs' N' g' \<Longrightarrow> came h (cs @ cs') (N \<union> N') g'"
  unfolding came_def emitted_def by (auto simp: until_relay_append)

lemma came_emit: "(\<forall>out. x \<noteq> Relayed out) \<Longrightarrow> command_of x = [] \<Longrightarrow> came h [] {x} (h\<lparr>ho_out := ho_out h @ [x]\<rparr>)"
  by (simp add: came_def emitted_def until_relay_None)

lemma came_did: "did es h h' \<Longrightarrow> until_relay es = None \<Longrightarrow> came h (commands es) {} h'"
  unfolding did_def came_def emitted_def using commands_effects until_relay_effects by fastforce

lemma came_ran: "ran_tool args True h h' \<Longrightarrow> came h [args] {} h'"
  using came_did [of "[Spawned prog args]" h h' for prog] by (auto simp: ran_tool_def)

lemma came_silent:
  assumes "silent h h'" and "emitted h (\<lambda>outs. commands outs = cs) h'"
  shows "came h cs {} h'"
  using assms by (auto simp: came_def emitted_def)

lemma came_relays: "came h cs N g \<Longrightarrow> relays_after h C g"
  by (auto simp: came_def relays_after_def emitted_def)

lemma relays_after_silent: "relays_after h C g \<Longrightarrow> silent g g' \<Longrightarrow> relays_after h C g'"
  by (auto simp: relays_after_def emitted_def until_relay_append split: option.split)

lemma relays_after_quiet:
  "quiet m \<Longrightarrow> relays_after h C g \<Longrightarrow> ensures m g (\<lambda>e. relays_after h C) (\<lambda>x. relays_after h C)"
  by (erule ensures_mono [OF obeysD]; erule (1) relays_after_silent)

lemma relays_after_scope:
  assumes "quiet c" and "ensures m g (\<lambda>e. relays_after h C) (\<lambda>x. relays_after h C)"
  shows "ensures (scopeS c m) g (\<lambda>e. relays_after h C) (\<lambda>x. relays_after h C)"
  unfolding scopeS_def ensures_bind ensures_unwind
proof (rule ensures_mono [OF assms(2)])
  show "ensures c g' (\<lambda>e. relays_after h C) (\<lambda>_. relays_after h C)" if "relays_after h C g'" for g'
    using assms(1) that by (rule relays_after_quiet)
  then show "ensures c g' (\<lambda>e. relays_after h C) (\<lambda>_ h'. ensures (retS x) h' (\<lambda>e. relays_after h C) (\<lambda>x. relays_after h C))"
    if "relays_after h C g'" for g' x using that by simp
qed

text \<open>A step that does not relay, from what it promises when it succeeds.\<close>

lemma came_step:
  assumes "came h cs N g" and "quiet m" and "ensures m g (\<lambda>e g'. True) V" and "\<And>x g'. V x g' \<Longrightarrow> silent g g' \<Longrightarrow> W x g'"
  shows "ensures m g (\<lambda>e. relays_after h C) W"
  unfolding ensures_def
proof (intro allI impI)
  fix r g' assume m: "m g = Some (r, g')"
  with obeysD [OF assms(2), of g] have s: "silent g g'" by (cases r) (auto dest: ensuresD)
  with assms(1) have "relays_after h C g'" by (blast intro: relays_after_silent came_relays)
  with m s assms(3,4) show "case r of Inl e \<Rightarrow> relays_after h C g' | Inr x \<Rightarrow> W x g'"
    by (cases r) (auto dest: ensuresD)
qed

section \<open>The steps of the client\<close>

abbreviation apply_commands :: "(Tool \<times> string list \<times> string list) list \<Rightarrow> string list list" where
  "apply_commands changes \<equiv> map (\<lambda>(tool, app, undo). app) changes"

abbreviation device_commands :: "string \<Rightarrow> string \<Rightarrow> int \<Rightarrow> string list list" where
  "device_commands dev cidr mtu \<equiv> [[''link'', ''set'', ''dev'', dev, ''mtu'', int_to_string mtu],
     [''addr'', ''add'', cidr, ''dev'', dev], [''link'', ''set'', ''dev'', dev, ''up'']]"

lemma configure_came: "ensures (configure_interface os dev cidr mtu) g (\<lambda>e g'. True) (\<lambda>x. came g (device_commands dev cidr mtu) {})"
proof (rule ensures_mono [OF configure_interface_emits])
  fix h' assume "emitted g (\<lambda>outs. brought_up dev cidr mtu (effects outs)) h'"
  then obtain es where "did es g h'" "brought_up dev cidr mtu es" by (auto simp: did_def emitted_def)
  moreover from this(2) have "until_relay es = None \<and> commands es = device_commands dev cidr mtu"
    by (auto simp: brought_up_def ipv6_switched_off_def)
  ultimately show "came g (device_commands dev cidr mtu) {} h'" using came_did by metis
qed simp

lemma quiet_came:
  assumes "quiet m" and "ensures m g (\<lambda>e g'. True) (\<lambda>x. emitted g (\<lambda>outs. commands outs = cs))"
  shows "ensures m g (\<lambda>e g'. True) (\<lambda>x. came g cs {})"
proof (rule ensures_mono [OF came_step [OF came_refl assms]])
  show "came g cs {} h'" if "emitted g (\<lambda>outs. commands outs = cs) h'" "silent g h'" for h'
    using that(2,1) by (rule came_silent)
qed simp_all

lemma add_changes_came: "ensures (add_changes os [] changes) g (\<lambda>e g'. True) (\<lambda>x. came g (apply_commands changes) {})"
proof (rule quiet_came [OF unrelayed.obeys_add_changes])
  show "ensures (add_changes os [] changes) g (\<lambda>e g'. True) (\<lambda>x. emitted g (\<lambda>outs. commands outs = apply_commands changes))"
    by (rule ensures_mono [OF add_changes_commands]) (auto simp: emitted_def)
qed

definition ipv6_commands :: "bool \<Rightarrow> Ipv6Policy \<Rightarrow> string list list" where
  "ipv6_commands routed policy =
     [''-6'', ''route'', ''show'', ''default''] # (if routed \<and> policy = Policy_block then apply_commands ipv6_changes else [])"

definition ipv6_notes :: "bool \<Rightarrow> Ipv6Policy \<Rightarrow> net_out set" where
  "ipv6_notes routed policy = (if routed \<and> policy = Policy_ignore then {Note ipv6_warning} else {})"

lemma came_note: "came g cs {} g' \<Longrightarrow> came g cs {} (g'\<lparr>ho_out := ho_out g' @ [Note t]\<rparr>)"
  by (auto simp: came_def emitted_def until_relay_append)

lemma block_host_ipv6_came: "ensures (block_host_ipv6 os) g (\<lambda>e g'. True) (\<lambda>x. came g (apply_commands ipv6_changes) {})"
  unfolding block_host_ipv6_def ensures_bind ensures_simps by (intro ensures_mono [OF add_changes_came] came_note)

text \<open>The host's IPv6 has been seen to: the kernel was asked for a default route, and if it had one the policy was applied.\<close>

definition ipv6_settled :: "'w os \<Rightarrow> Ipv6Policy \<Rightarrow> 'w host \<Rightarrow> 'w host \<Rightarrow> bool" where
  "ipv6_settled os policy g g' \<longleftrightarrow> (\<exists>routed g1. host_has_ipv6 os g = Some (Inr routed, g1) \<and>
     (routed \<longrightarrow> policy \<noteq> Policy_refuse) \<and> came g (ipv6_commands routed policy) (ipv6_notes routed policy) g')"

lemma client_ipv6_came: "ensures (client_ipv6 os policy) g (\<lambda>e g'. True) (\<lambda>x. ipv6_settled os policy g)"
proof -
  let ?q = "[''-6'', ''route'', ''show'', ''default'']"
  have q: "ensures (host_has_ipv6 os) g (\<lambda>e g'. True) (\<lambda>routed. came g [?q] {})"
    by (auto simp: host_has_ipv6_def intro!: ensures_mono [OF net_run_ran(2)] came_ran)
  show ?thesis unfolding client_ipv6_def ensures_bind
  proof (rule ensures_mono [OF q])
    fix routed g1 assume r: "host_has_ipv6 os g = Some (Inr routed, g1)" and c: "came g [?q] {} g1"
    have V: "ipv6_settled os policy g g'" if "came g1 cs N g'" "?q # cs = ipv6_commands routed policy" "N = ipv6_notes routed policy"
        "routed \<longrightarrow> policy \<noteq> Policy_refuse" for cs N g'
      using r came_trans [OF c that(1)] that(2-4) unfolding ipv6_settled_def by auto
    have idle: "ipv6_settled os policy g g1" if "\<not> routed"
      using that by (intro V [OF came_refl]) (simp_all add: ipv6_commands_def ipv6_notes_def)
    have block: "ensures (block_host_ipv6 os) g1 (\<lambda>e g'. True) (\<lambda>x. ipv6_settled os policy g)" if "routed" "policy = Policy_block"
      by (rule ensures_mono [OF block_host_ipv6_came]) (simp, erule V, simp_all add: that ipv6_commands_def ipv6_notes_def)
    have ignore: "ipv6_settled os policy g (g1\<lparr>ho_out := ho_out g1 @ [Note ipv6_warning]\<rparr>)" if "routed" "policy = Policy_ignore"
      using that by (intro V [OF came_emit]) (simp_all add: ipv6_commands_def ipv6_notes_def)
    show "ensures (if routed then case policy of Policy_refuse \<Rightarrow> throwS ipv6_refusal
        | Policy_block \<Rightarrow> bindS (block_host_ipv6 os) (\<lambda>blocked.
            bindS (ChangeSet_assign os False [] blocked) (\<lambda>(this, other). bindS (undo_all os other) (\<lambda>_. retS this)))
        | Policy_ignore \<Rightarrow> bindS (emitS (Note ipv6_warning)) (\<lambda>_. retS []) else retS []) g1 (\<lambda>e g'. True)
      (\<lambda>x. ipv6_settled os policy g)"
      using idle block ignore by (cases policy) (simp_all add: ChangeSet_assign_def)
  qed simp
qed

lemma client_routes_came:
  "ensures (client_routes os install name server) g (\<lambda>e g'. True) (\<lambda>x g'. \<exists>underlay. came g
     (if install then [''route'', ''get'', format_address server] # apply_commands (client_changes name (format_address server) underlay)
      else []) {} g')"
proof (cases install)
  case True
  have "ensures (install_client_routes os name address) g (\<lambda>e g'. True) (\<lambda>x g'. \<exists>underlay. came g
     ([''route'', ''get'', address] # apply_commands (client_changes name address underlay)) {} g')" for address
    unfolding install_client_routes_def ensures_bind ensures_simps
  proof (rule ensures_mono [OF route_to_ran])
    fix u :: RouteInfo and g1 :: "'a host" assume "ran_tool [''route'', ''get'', address] True g g1 \<and> ri_dev u \<noteq> []"
    then have "came g [[''route'', ''get'', address]] {} g1" by (simp add: came_ran)
    from came_trans [OF this] show "ensures (add_changes os [] (client_changes name address u)) g1 (\<lambda>e g'. True)
        (\<lambda>x h'. \<exists>underlay. came g ([''route'', ''get'', address] # apply_commands (client_changes name address underlay)) {}
           (h'\<lparr>ho_out := ho_out h' @ [Note (routes_note name address u)]\<rparr>))"
      by (intro ensures_mono [OF add_changes_came] exI [of _ u] came_note) fastforce+
  qed simp
  with True show ?thesis by (simp add: client_routes_def ChangeSet_assign_def)
qed (simp add: client_routes_def came_refl)

section \<open>The client's way up\<close>

lemma relayS_ensures:
  assumes "\<And>e es. E e (g\<lparr>ho_out := ho_out g @ map Descriptor es\<rparr>)" and "\<And>x es. V x (g\<lparr>ho_out := ho_out g @ map Descriptor es\<rparr>)"
  shows "ensures (relayS L env name config) g E V"
  using relayS_result [of L env name config g] assms
  by (cases "run_relay L (pe_setup env) name config (pe_answers env)") (auto simp: computes_def ensures_def split: sum.split)

lemma run_and_report_relays:
  assumes "came h cs N g" and "\<And>pre. commands pre = cs \<Longrightarrow> N \<subseteq> set pre \<Longrightarrow> C pre"
  shows "ensures (run_and_report L env name config) g (\<lambda>e. relays_after h C) (\<lambda>x. relays_after h C)"
proof -
  have c: "came h cs N (g\<lparr>ho_out := ho_out g @ map Descriptor es\<rparr>)" for es
    using assms(1) by (auto simp: came_def emitted_def until_relay_append)
  have "relays_after h C (g\<lparr>ho_out := ho_out g @ map Descriptor es @ [Relayed out, Note t]\<rparr>)" for es out t
  proof -
    from c [of es] obtain outs where o: "ho_out g @ map Descriptor es = ho_out h @ outs" "until_relay outs = None" "commands outs = cs" "N \<subseteq> set outs"
      by (auto simp: came_def emitted_def)
    from o(1) have "ho_out g @ map Descriptor es @ xs = ho_out h @ outs @ xs" for xs by (metis append.assoc)
    with o(2-4) assms(2) show ?thesis unfolding relays_after_def emitted_def
      by (intro exI [of _ "outs @ [Relayed out, Note t]"]) (simp add: until_relay_append)
  qed
  then show ?thesis using came_relays [OF c] unfolding run_and_report_def ensures_bind by (intro relayS_ensures) auto
qed

definition bring_up_commands :: "client_options \<Rightarrow> sockaddr_in \<Rightarrow> string \<Rightarrow> bool \<Rightarrow> RouteInfo \<Rightarrow> string list list" where
  "bring_up_commands opts server name routed underlay =
     ipv6_commands routed (co_ipv6_policy opts) @ device_commands name (co_tun_addr opts) (co_mtu opts) @
     (if co_install_routes opts
      then [''route'', ''get'', format_address server] # apply_commands (client_changes name (format_address server) underlay) else [])"

text \<open>The rules that follow the client's body from one step to the next.\<close>

abbreviation meets :: "('w, 'a) sys \<Rightarrow> 'w host \<Rightarrow> 'w host \<Rightarrow> (net_out list \<Rightarrow> bool) \<Rightarrow> bool" where
  "meets m g h C \<equiv> ensures m g (\<lambda>e. relays_after h C) (\<lambda>x. relays_after h C)"

lemma came_bind:
  assumes "came h cs N g" and "quiet m" and "ensures m g (\<lambda>e g'. True) V"
    and "\<And>x g'. V x g' \<Longrightarrow> silent g g' \<Longrightarrow> meets (f x) g' h C"
  shows "meets (bindS m f) g h C"
  unfolding ensures_bind by (rule came_step [OF assms])

lemma came_open:
  assumes "came h cs N g" and "\<And>x g'. came h cs N g' \<Longrightarrow> meets (f x) g' h C"
  shows "meets (bindS (openS r) f) g h C"
proof (rule came_bind [OF assms(1) quiet_open(1)])
  show "ensures (openS r) g (\<lambda>e g'. True) (\<lambda>x. came g [] {})"
    by (auto simp: openS_def came_def emitted_def split: sum.split)
  show "meets (f x) g' h C" if "came g [] {} g'" for x g' using came_trans [OF assms(1) that] by (simp add: assms(2))
qed

lemma came_lift:
  "came h cs N g \<Longrightarrow> (\<And>x g'. came h cs N g' \<Longrightarrow> meets (f x) g' h C) \<Longrightarrow> meets (bindS (liftS io) f) g h C"
  by (auto simp: came_relays split: sum.split)

lemma came_banner:
  assumes "came h cs N g" and "\<And>g'. came h cs N g' \<Longrightarrow> meets (f ()) g' h C"
  shows "meets (bindS (emitS (Note t)) f) g h C"
  using assms(2) came_trans [OF assms(1) came_note [OF came_refl, of g t]] by simp

lemma came_configure:
  assumes "came h cs N g" and "\<And>g'. came h (cs @ device_commands dev cidr mtu) N g' \<Longrightarrow> meets (f ()) g' h C"
  shows "meets (bindS (configure_interface os dev cidr mtu) f) g h C"
  using assms(2) came_trans [OF assms(1)] by (intro came_bind [OF assms(1) unrelayed.obeys_configure configure_came]) fastforce

lemma came_routes:
  assumes "came h cs N g" and "\<And>x g' underlay. came h (cs @
      (if install then [''route'', ''get'', format_address server] # apply_commands (client_changes name (format_address server) underlay)
       else [])) N g' \<Longrightarrow> meets (f x) g' h C"
  shows "meets (bindS (client_routes os install name server) f) g h C"
  using assms(2) came_trans [OF assms(1)] by (intro came_bind [OF assms(1) unrelayed.obeys_client(2) client_routes_came]) fastforce

lemma came_ipv6:
  assumes "came h [] {} g" and "\<And>x g' routed g1. host_has_ipv6 os g = Some (Inr routed, g1) \<Longrightarrow> (routed \<longrightarrow> policy \<noteq> Policy_refuse) \<Longrightarrow>
      came h (ipv6_commands routed policy) (ipv6_notes routed policy) g' \<Longrightarrow> meets (f x) g' h C"
  shows "meets (bindS (client_ipv6 os policy) f) g h C"
  using assms(2) came_trans [OF assms(1)]
  by (intro came_bind [OF assms(1) unrelayed.obeys_client(1) client_ipv6_came]) (fastforce simp: ipv6_settled_def)

lemma came_relay:
  assumes "came h cs N g" and "\<And>pre. commands pre = cs \<Longrightarrow> N \<subseteq> set pre \<Longrightarrow> C pre"
  shows "meets (bindS (run_and_report L env name config) (\<lambda>_. retS x)) g h C"
  using run_and_report_relays [OF assms] by simp

lemma client_body_relays:
  assumes "came h [] {} g" and "\<And>pre routed g1 name underlay. host_has_ipv6 os g = Some (Inr routed, g1) \<Longrightarrow>
     (routed \<longrightarrow> co_ipv6_policy opts \<noteq> Policy_refuse) \<Longrightarrow> ipv6_notes routed (co_ipv6_policy opts) \<subseteq> set pre \<Longrightarrow>
     commands pre = bring_up_commands opts server name routed underlay \<Longrightarrow> C pre"
  shows "meets (client_body os L env opts server identity) g h C"
  unfolding client_body_def split_beta
  by (rule came_ipv6 [OF assms(1)], rule relays_after_scope [OF unrelayed.obeys_undo_all], erule came_open,
      rule relays_after_scope [OF quiet_open(2)], erule came_configure, erule came_open,
      rule relays_after_scope [OF quiet_open(2)], erule came_routes, rule relays_after_scope [OF unrelayed.obeys_undo_all],
      erule came_lift, erule came_banner, erule came_relay, rule assms(2), assumption, assumption, assumption)
    (simp add: bring_up_commands_def)

lemma client_checks_Inr:
  "client_checks program opts = Inr (opts', server) \<longleftrightarrow> opts' = opts \<and> co_server opts = Some server \<and>
     co_private_key_path opts \<noteq> [] \<and> co_peer_key opts \<noteq> []"
  by (auto simp: client_checks_def split: option.splits if_splits)

lemma stop_meets: "list_all ordinary msgs \<Longrightarrow> meets (bindS (emitsS msgs) (\<lambda>_. retS code)) h h C"
  by (rule relays_after_quiet) (intro obeys_intros, simp_all add: relays_after_def emitted_def)

lemma report_errors_meets: "meets m g h C \<Longrightarrow> meets (report_errors m) g h C"
  unfolding report_errors_def ensures_catch
  by (erule ensures_mono) (rule relays_after_quiet, auto intro!: obeys_intros)

lemma with_identity_meets:
  assumes "\<And>I g. came h [] {} g \<Longrightarrow> ho_world g = ho_world h \<Longrightarrow> meets (body I) g h C"
  shows "meets (with_identity L env path peer_key body) h h C"
proof -
  have "until_relay (map Key_diag ds) = None" "commands (map Key_diag ds) = []" for ds by (induction ds) simp_all
  then have "came h [] {} (h\<lparr>ho_out := ho_out h @ map Key_diag ds\<rparr>)" for ds by (simp add: came_def emitted_def)
  note c = this this [THEN came_relays]
  from assms c came_relays [OF came_refl] show ?thesis
    by (auto simp: with_identity_def split: sum.split option.split)
qed


definition demo_args :: "string list" where
  "demo_args = [''--server'', format_endpoint (demo_address 1), ''--private-key'', ''key'', ''--peer-key'', replicate 32 (CHR ''b''),
     ''--host-ipv6'', ''ignore'', ''--no-routes'']"

definition demo_options :: client_options where
  "demo_options = client_defaults\<lparr>co_install_routes := False, co_ipv6_policy := Policy_ignore, co_private_key_path := ''key'',
     co_peer_key := replicate 32 (CHR ''b''), co_server := Some (demo_address 1)\<rparr>"

lemma demo_client_args: "client_args program client_defaults demo_args = Inr demo_options"
proof -
  have "parse_endpoint (format_endpoint (demo_address 1)) = Some (demo_address 1)"
    by (simp add: parse_format_endpoint wf_endpoint_def demo_address_def)
  then show ?thesis by (simp add: demo_args_def demo_options_def client_defaults_def client_option_def parse_ipv6_policy_def)
qed

lemma demo_key: "\<exists>I. load_identity demo_lib True (Some 0x180) (Some (replicate 32 (CHR ''a''))) ''key'' (replicate 32 (CHR ''b'')) = Inr ([], Some I)"
proof -
  have l: "rev (trim_back (rev (getline (replicate 32 (CHR ''a''))))) = replicate 32 (CHR ''a'')" by code_simp
  have k: "from_base64 demo_lib (replicate 32 (CHR ''a'')) = Some (replicate 32 97)" "from_base64 demo_lib (replicate 32 (CHR ''b'')) = Some (replicate 32 98)"
    by (simp_all add: demo_from_base64)
  obtain I where "make_Identity demo_lib True (replicate 32 97) (replicate 32 98) = Inr I"
    using make_Identity_value [OF demo_crypto_ok, of "replicate 32 97" "replicate 32 98"] by auto
  moreover have "(0x180 :: u32) AND 0x3f = 0" by simp
  ultimately show ?thesis by (simp add: load_identity_def Let_def l Identity_from_base64_def k)
qed

section \<open>A run of the client\<close>

lemma demo_has_ipv6:
  assumes "\<And>h'. V True h'"
  shows "yields (host_has_ipv6 demo_os) h E V"
proof -
  have "demo_exec w [''-6'', ''route'', ''show'', ''default''] = (True, w)" for w by (simp add: demo_exec_def demo_entry_none)
  moreover have "take 4096 (demo_output [''-6'', ''route'', ''show'', ''default'']) = ''default via fe80::1''"
    by (simp add: demo_output_def)
  ultimately have r: "yields (run_capture demo_os Tool_ip [''-6'', ''route'', ''show'', ''default'']) h E
      (\<lambda>out h'. out = ''default via fe80::1'')"
    using demo_capture [of Tool_ip "[''-6'', ''route'', ''show'', ''default'']"] by (auto simp: yields_def)
  have t: "trim ''default via fe80::1'' \<noteq> []" by code_simp
  show ?thesis unfolding host_has_ipv6_def yields_bind
    by (rule yields_mono [OF r]) (simp, simp only: yields_simps t not_False_eq_True assms)
qed

lemma yields_lift_Some [simp]: "yields (liftS (Some (Inr x))) h E V \<longleftrightarrow> V x h"
  by (auto simp: yields_def liftS_def)

lemma succeeds_any: "succeeds m h \<Longrightarrow> (\<And>x h'. V x h') \<Longrightarrow> yields m h E V"
  by (erule yields_mono) simp_all

lemma demo_relays: "\<exists>stats. run_relay demo_lib demo_setup name
    \<lparr>rc_mtu = mtu, rc_role = role, rc_peer = peer, rc_identity = Some I\<rparr> [Epoll_ready [Signal_ready (Some 2)]] = Some (Inr (stats, [Log_signal 2]))"
  by (simp add: run_relay_def relay_loop_def relay_init_def Let_def demo_setup_def make_signalfd_def epoll_add_def ret_def)

lemma demo_tun: "\<exists>name. tun_open (Sys_ok 3) (\<lambda>flags name. Sys_ok name) ''tun0'' = ([Opened 3], Inr \<lparr>tun_owner = 3, tun_ifname = name\<rparr>)"
  by (simp add: tun_open_def Let_def fd_simps)

lemma run_and_report_yields:
  assumes "run_relay L (pe_setup env) name config (pe_answers env) = Some (Inr (stats, out))"
    and "\<And>es. V () (h\<lparr>ho_out := ho_out h @ map Descriptor es @ [Relayed out, Note (print_stats stats)]\<rparr>)"
  shows "yields (run_and_report L env name config) h E V"
proof -
  from relayS_result [of L env name config h] assms(1)
  obtain es where "relayS L env name config h = Some (Inr (stats, out), h\<lparr>ho_out := ho_out h @ map Descriptor es\<rparr>)"
    by (auto simp: computes_def)
  with assms(2) [of es] show ?thesis by (simp add: run_and_report_def yields_eq(2))
qed

lemma demo_env: "pe_open_tun demo_prog_env = Sys_ok 3" "pe_tunsetiff demo_prog_env = (\<lambda>flags name. Sys_ok name)"
  "pe_socket demo_prog_env = Sys_ok 4" "pe_bind demo_prog_env = (\<lambda>me. Sys_ok ())" "\<exists>port. local_port (pe_getsockname demo_prog_env) = Inr port"
  "pe_setup demo_prog_env = demo_setup" "pe_answers demo_prog_env = [Epoll_ready [Signal_ready (Some 2)]]"
  by (simp_all add: demo_prog_env_def local_port_def)

lemma demo_socket: "bind_any (Sys_ok 4) (\<lambda>me. Sys_ok ()) port = ([Opened 4], Inr \<lparr>us_fd = 4\<rparr>)"
  by (simp add: bind_any_def Let_def fd_simps)

lemma until_relay_ran: "Relayed out \<in> set outs \<Longrightarrow> \<exists>pre. until_relay outs = Some pre"
  by (induction outs rule: until_relay.induct) auto

lemma demo_body_runs:
  "yields (client_body demo_os demo_lib demo_prog_env demo_options (demo_address 1) I) h (\<lambda>e h'. False)
     (\<lambda>code h'. \<exists>pre. until_relay (ho_out h') = Some pre)"
proof -
  obtain name where n: "tun_open (Sys_ok 3) (\<lambda>flags name. Sys_ok name) ''tun0'' = ([Opened 3], Inr \<lparr>tun_owner = 3, tun_ifname = name\<rparr>)" using demo_tun by blast
  obtain stats where r: "run_relay demo_lib demo_setup name
    \<lparr>rc_mtu = 1420, rc_role = Initiator, rc_peer = Some (demo_address 1), rc_identity = Some I\<rparr> [Epoll_ready [Signal_ready (Some 2)]] =
      Some (Inr (stats, [Log_signal 2]))" using demo_relays by blast
  obtain port where p: "local_port (pe_getsockname demo_prog_env) = Inr port" using demo_env(5) by blast
  have o: "co_ipv6_policy demo_options = Policy_ignore" "co_dev demo_options = ''tun0''" "co_mtu demo_options = 1420"
    "\<not> co_install_routes demo_options" by (simp_all add: demo_options_def client_defaults_def)
  show ?thesis unfolding client_body_def client_ipv6_def o prod.case yields_bind
    by (rule demo_has_ipv6, simp add: openS_def demo_env n undo_all.simps, rule succeeds_any [OF demo_configure])
      (simp add: o openS_def demo_env demo_socket client_routes_def p undo_all.simps,
       rule run_and_report_yields, simp add: demo_env r, simp, rule until_relay_ran [of "[Log_signal 2]"], simp)
qed

lemma demo_with_identity:
  assumes "\<And>I h. yields (body I) h (\<lambda>e h'. False) V"
  shows "yields (report_errors (with_identity demo_lib demo_prog_env ''key'' (replicate 32 (CHR ''b'')) body)) h (\<lambda>e h'. False) V"
proof -
  obtain I where "load_identity demo_lib True (Some 0x180) (Some (replicate 32 (CHR ''a''))) ''key'' (replicate 32 (CHR ''b'')) = Inr ([], Some I)"
    using demo_key by blast
  moreover have "pe_allocated demo_prog_env" "pe_key_mode demo_prog_env = Some 0x180" "pe_key_contents demo_prog_env = Some (replicate 32 (CHR ''a''))"
    by (simp_all add: demo_prog_env_def)
  moreover have "crypto_init demo_lib = Inr ()" by (simp add: crypto_init_def demo_lib_def)
  ultimately show ?thesis using yields_mono [OF assms] by (simp add: report_errors_def with_identity_def)
qed

lemma demo_client_runs:
  "yields (client_main demo_os demo_lib demo_prog_env ''vpn'' demo_args) h (\<lambda>e h'. False)
     (\<lambda>code h'. \<exists>pre. until_relay (ho_out h') = Some pre)"
proof -
  have "client_checks ''vpn'' demo_options = Inr (demo_options, demo_address 1)" "co_private_key_path demo_options = ''key''"
    "co_peer_key demo_options = replicate 32 (CHR ''b'')" by (simp_all add: client_checks_def demo_options_def)
  then show ?thesis using demo_with_identity [OF demo_body_runs] by (simp add: client_main_def demo_client_args)
qed


section \<open>The server's way up\<close>

text \<open>The kernel forwards: the server has switched it on, or the file says that it was on already.\<close>

abbreviation ip_forward :: string where
  "ip_forward \<equiv> ''/proc/sys/net/ipv4/ip_forward''"

definition forwarding :: "'w os \<Rightarrow> net_out set \<Rightarrow> bool" where
  "forwarding os N \<longleftrightarrow> Wrote_file ip_forward ''1'' True \<in> N \<or> (\<exists>w contents. os_read_file os w ip_forward = Some contents \<and> getline contents = ''1'')"

definition nat_commands :: "server_options \<Rightarrow> string \<Rightarrow> string \<Rightarrow> string list list" where
  "nat_commands opts name wan =
     (if so_install_nat opts
      then (if so_wan_if opts = [] then [[''route'', ''get'', ''1.1.1.1'']] else []) @
        apply_commands (nat_changes name (the (subnet_of (so_tun_addr opts))) wan)
      else [])"

lemma sysctl_came:
  "ensures (ScopedSysctl_make os ip_forward ''1'') g (\<lambda>e g'. True) (\<lambda>x g'. \<exists>N. came g [] N g' \<and> forwarding os N)"
proof -
  have "\<exists>N. came g [] N g \<and> forwarding os N" if "os_read_file os (ho_world g) ip_forward = Some contents" "getline contents = ''1''" for contents
    using that by (intro exI [of _ "{}"]) (auto simp: came_refl forwarding_def)
  moreover have "\<exists>N. came g [] N (g\<lparr>ho_world := w, ho_out := ho_out g @ [Wrote_file ip_forward ''1'' True]\<rparr>) \<and> forwarding os N" for w
    by (intro exI [of _ "{Wrote_file ip_forward ''1'' True}"]) (auto simp: came_def emitted_def forwarding_def)
  ultimately show ?thesis by (auto simp: ScopedSysctl_make_def write_file_def Let_def split: option.split)
qed

lemma install_server_nat_came:
  "ensures (install_server_nat os name net wan) g (\<lambda>e g'. True)
     (\<lambda>x g'. \<exists>N. came g (apply_commands (nat_changes name net wan)) N g' \<and> forwarding os N)"
  unfolding install_server_nat_def ensures_bind ensures_unwind ensures_simps
proof (rule ensures_mono [OF sysctl_came])
  fix s and g1 :: "'a host" assume "\<exists>N. came g [] N g1 \<and> forwarding os N"
  then obtain N where N: "came g [] N g1" "forwarding os N" by blast
  have "\<exists>N. came g (apply_commands (nat_changes name net wan)) N (g2\<lparr>ho_out := ho_out g2 @ [Note t]\<rparr>) \<and> forwarding os N"
    if "came g1 (apply_commands (nat_changes name net wan)) {} g2" for g2 t
    using came_trans [OF N(1) came_note [OF that, of t]] N(2) by auto
  then show "ensures (add_changes os [] (nat_changes name net wan)) g1
      (\<lambda>e h'. ensures (ScopedSysctl_destroy os s) h' (\<lambda>e g'. True) (\<lambda>_ h''. True))
      (\<lambda>x h'. \<exists>N. came g (apply_commands (nat_changes name net wan)) N (h'\<lparr>ho_out := ho_out h' @ [Note (nat_note name net wan)]\<rparr>) \<and> forwarding os N)"
    by (intro ensures_mono [OF add_changes_came]) simp_all
qed simp

text \<open>The translation is installed, out of a device that the options name or the kernel's route to the internet.\<close>

definition nat_ok :: "'w os \<Rightarrow> server_options \<Rightarrow> string \<Rightarrow> net_out set \<Rightarrow> bool" where
  "nat_ok os opts wan N \<longleftrightarrow> (so_install_nat opts \<longrightarrow> forwarding os N \<and> wan \<noteq> [] \<and> (so_wan_if opts \<noteq> [] \<longrightarrow> wan = so_wan_if opts))"

lemma nat_ok_mono: "nat_ok os opts wan N \<Longrightarrow> N \<subseteq> N' \<Longrightarrow> nat_ok os opts wan N'"
  by (auto simp: nat_ok_def forwarding_def)

lemma server_nat_came:
  "ensures (server_nat os opts name) g (\<lambda>e g'. True) (\<lambda>x g'. \<exists>wan N. came g (nat_commands opts name wan) N g' \<and> nat_ok os opts wan N)"
proof (cases "so_install_nat opts")
  case True
  let ?net = "the (subnet_of (so_tun_addr opts))" and ?q = "if so_wan_if opts = [] then [[''route'', ''get'', ''1.1.1.1'']] else []"
  let ?wan = "if so_wan_if opts = [] then bindS (route_to os ''1.1.1.1'') (\<lambda>info. retS (ri_dev info)) else retS (so_wan_if opts)"
  have w: "ensures ?wan g (\<lambda>e g'. True) (\<lambda>wan g'. came g ?q {} g' \<and> wan \<noteq> [] \<and> (so_wan_if opts \<noteq> [] \<longrightarrow> wan = so_wan_if opts))"
    by (cases "so_wan_if opts = []") (auto simp: came_refl intro!: ensures_mono [OF route_to_ran] came_ran)
  have "\<exists>wan N. came g (nat_commands opts name wan) N g2 \<and> nat_ok os opts wan N"
    if "came g ?q {} g1 \<and> wan \<noteq> [] \<and> (so_wan_if opts \<noteq> [] \<longrightarrow> wan = so_wan_if opts)"
      "\<exists>N. came g1 (apply_commands (nat_changes name ?net wan)) N g2 \<and> forwarding os N" for wan g1 g2
  proof -
    from that(2) obtain N where N: "came g1 (apply_commands (nat_changes name ?net wan)) N g2" "forwarding os N" by blast
    have "came g (nat_commands opts name wan) N g2" "nat_ok os opts wan N"
      using came_trans [OF conjunct1 [OF that(1)] N(1)] that(1) N(2) True by (simp_all add: nat_commands_def nat_ok_def)
    then show ?thesis by blast
  qed
  then show ?thesis unfolding server_nat_def ServerNat_assigned if_P [OF True] ensures_bind ensures_simps
    by (intro ensures_mono [OF w] ensures_mono [OF install_server_nat_came]) blast+
next
  case False
  then have "came g (nat_commands opts name []) {} g \<and> nat_ok os opts [] {}" by (simp add: nat_commands_def nat_ok_def came_refl)
  with False show ?thesis by (auto simp: server_nat_def)
qed

lemma came_nat:
  assumes "came h cs {} g" and "\<And>x g' wan N. came h (cs @ nat_commands opts name wan) N g' \<Longrightarrow> nat_ok os opts wan N \<Longrightarrow> meets (f x) g' h C"
  shows "meets (bindS (server_nat os opts name) f) g h C"
proof (rule came_bind [OF assms(1) unrelayed.obeys_server_nat server_nat_came])
  fix x g' assume "\<exists>wan N. came g (nat_commands opts name wan) N g' \<and> nat_ok os opts wan N"
  then obtain wan N where "came g (nat_commands opts name wan) N g'" "nat_ok os opts wan N" by blast
  with came_trans [OF assms(1) this(1)] assms(2) show "meets (f x) g' h C" by simp
qed

lemma server_body_relays:
  assumes "came h [] {} g" and "\<And>pre name wan. commands pre = device_commands name (so_tun_addr opts) (so_mtu opts) @ nat_commands opts name wan \<Longrightarrow>
     nat_ok os opts wan (set pre) \<Longrightarrow> C pre"
  shows "meets (server_body os L env opts identity) g h C"
  unfolding server_body_def
  by (rule came_open [OF assms(1)], rule relays_after_scope [OF quiet_open(2)], erule came_configure, erule came_open,
      rule relays_after_scope [OF quiet_open(2)], erule came_nat, rule relays_after_scope [OF unrelayed.obeys_nat(1)],
      erule came_lift, erule came_banner, erule came_relay, rule assms(2))
    (simp, rule nat_ok_mono)


section \<open>A run of the server\<close>

lemma yields_grows:
  assumes "succeeds m h" and "quiet m" and "\<And>x outs h'. ho_out h' = ho_out h @ outs \<Longrightarrow> V x h'"
  shows "yields m h E V"
proof -
  obtain x h' where "m h = Some (Inr x, h')" using succeedsD [OF assms(1)] by blast
  moreover from obeys_run [OF assms(2) this] obtain outs where "ho_out h' = ho_out h @ outs" by (auto simp: emitted_def)
  ultimately show ?thesis using assms(3) by (simp add: yields_eq(2))
qed

lemma undo_all_succeeds: "responsive os \<Longrightarrow> succeeds (undo_all os cs) h"
proof (induction cs arbitrary: h rule: rev_induct)
  case (snoc c cs)
  have "succeeds (ScopedCommand_destroy os c) h" for h
    using yields_mono [OF net_run_returns(1) [OF snoc.prems]] by (simp add: ScopedCommand_destroy_def)
  from yields_mono [OF this] snoc show ?case by simp
qed simp

lemma demo_nat:
  "succeeds (server_nat demo_os server_defaults name) h" "succeeds (ServerNat_destroy demo_os sn) h"
proof -
  have "fst (demo_exec w (concat_args (concat_args [''-t'', table] [''-A'']) spec))" for w table spec
    by (simp add: demo_exec_def demo_entry_def concat_args_def)
  then have "\<forall>(tool, app, undo) \<in> set (nat_changes name net wan). \<forall>w. fst (demo_exec w app)" for net wan
    by (simp add: nat_changes_def rule_change_def)
  then have c: "succeeds (add_changes demo_os [] (nat_changes name net wan)) h" for net wan h by (rule demo_add_changes)
  have s: "succeeds (ScopedSysctl_make demo_os ip_forward ''1'') h" for h
    by (auto simp: ScopedSysctl_make_def write_file_def demo_os_def Let_def)
  have i: "succeeds (install_server_nat demo_os name net wan) h" for net wan h
    unfolding install_server_nat_def yields_bind yields_unwind by (rule succeeds_any [OF s], rule yields_mono [OF c]) simp_all
  have o: "so_install_nat server_defaults" "so_wan_if server_defaults = []" by (simp_all add: server_defaults_def)
  show "succeeds (server_nat demo_os server_defaults name) h"
    unfolding server_nat_def ServerNat_assigned if_P [OF o(1)] if_P [OF o(2)] yields_bind yields_simps by (rule demo_route_to) (simp add: i)
  have "responsive demo_os" using demo_tools_ok by (simp add: tools_ok_def)
  then show "succeeds (ServerNat_destroy demo_os sn) h" unfolding ServerNat_destroy_def yields_bind
    by (intro succeeds_any [OF undo_all_succeeds]) (auto simp: ScopedSysctl_destroy_def ScopedSysctl_restore_def write_file_def Let_def)
qed

definition demo_server_options :: server_options where
  "demo_server_options = server_defaults\<lparr>so_private_key_path := ''key'', so_peer_key := replicate 32 (CHR ''b'')\<rparr>"

lemma demo_server_nat: "server_nat os demo_server_options = server_nat os server_defaults"
  by (simp add: fun_eq_iff server_nat_def demo_server_options_def)

lemma demo_server_body_runs:
  "yields (server_body demo_os demo_lib demo_prog_env demo_server_options I) h (\<lambda>e h'. False)
     (\<lambda>code h'. \<exists>pre. until_relay (ho_out h') = Some pre)"
proof -
  obtain name where n: "tun_open (Sys_ok 3) (\<lambda>flags name. Sys_ok name) ''tun0'' = ([Opened 3], Inr \<lparr>tun_owner = 3, tun_ifname = name\<rparr>)" using demo_tun by blast
  obtain stats where r: "run_relay demo_lib demo_setup name
    \<lparr>rc_mtu = 1420, rc_role = Responder, rc_peer = None, rc_identity = Some I\<rparr> [Epoll_ready [Signal_ready (Some 2)]] =
      Some (Inr (stats, [Log_signal 2]))" using demo_relays by blast
  obtain port where p: "local_port (pe_getsockname demo_prog_env) = Inr port" using demo_env(5) by blast
  have o: "so_dev demo_server_options = ''tun0''" "so_mtu demo_server_options = 1420"
    by (simp_all add: demo_server_options_def server_defaults_def)
  show ?thesis unfolding server_body_def o demo_server_nat
    by (simp add: openS_def demo_env n, rule succeeds_any [OF demo_configure], simp add: demo_socket, rule succeeds_any [OF demo_nat(1)], simp add: p,
        rule run_and_report_yields, simp add: demo_env r, simp, rule yields_grows [OF demo_nat(2) unrelayed.obeys_nat(1)])
      (simp, rule until_relay_ran [of "[Log_signal 2]"], simp)
qed

definition demo_server_argv :: "string list" where
  "demo_server_argv = [''--private-key'', ''key'', ''--peer-key'', replicate 32 (CHR ''b'')]"

lemma demo_server_args: "server_args program server_defaults demo_server_argv = Inr demo_server_options"
  by (simp add: demo_server_argv_def demo_server_options_def server_option_def)

lemma demo_server_runs:
  "yields (server_main demo_os demo_lib demo_prog_env ''vpnd'' demo_server_argv) h (\<lambda>e h'. False)
     (\<lambda>code h'. \<exists>pre. until_relay (ho_out h') = Some pre)"
proof -
  have "server_checks ''vpnd'' demo_server_options = Inr demo_server_options" "so_private_key_path demo_server_options = ''key''"
    "so_peer_key demo_server_options = replicate 32 (CHR ''b'')" by (simp_all add: server_checks_def demo_server_options_def)
  then show ?thesis using demo_with_identity [OF demo_server_body_runs] by (simp add: server_main_def demo_server_args)
qed


end
