(* ===== verification/Descriptors.thy ===== *)
theory Descriptors
  imports Programs_Trace "HOL-Library.Multiset"
begin

text \<open>
  The resources of the programs: descriptors and the file actions of a spawned tool. \<open>account\<close> follows
  what is held along a list of reports and fails if something is given back or read that is not held. A
  list of reports is \<open>settled\<close> if it leaves what is held around it as it was; this is a trace property,
  so that every operation has it.
\<close>

section \<open>Accounting\<close>

datatype resource = Held_fd int | Held_actions

text \<open>A negative number is no descriptor.\<close>

definition own :: "int \<Rightarrow> resource multiset" where
  "own fd = (if fd \<ge> 0 then {#Held_fd fd#} else {#})"

fun hold :: "net_out \<Rightarrow> resource multiset \<Rightarrow> resource multiset option" where
  "hold (Descriptor (Opened fd)) R = Some (R + own fd)"
| "hold (Descriptor (Closed fd)) R = (if own fd \<subseteq># R then Some (R - own fd) else None)"
| "hold (Descriptor (Read_from fd)) R = (if own fd \<subseteq># R then Some R else None)"
| "hold Actions_init R = Some (R + {#Held_actions#})"
| "hold Actions_destroy R = (if Held_actions \<in># R then Some (R - {#Held_actions#}) else None)"
| "hold _ R = Some R"

primrec account :: "resource multiset \<Rightarrow> net_out list \<Rightarrow> resource multiset option" where
  "account R [] = Some R"
| "account R (x # outs) = Option.bind (hold x R) (\<lambda>R. account R outs)"

lemma account_append: "account R (xs @ ys) = Option.bind (account R xs) (\<lambda>R. account R ys)"
  by (induction xs arbitrary: R) (auto split: bind_split)

definition settled :: "net_out list \<Rightarrow> bool" where
  "settled outs \<longleftrightarrow> (\<forall>R. account R outs = Some R)"

lemma account_closings [simp]: "account (R + own fd) (closings fd) = Some R"
  by (auto simp: closings_def fd_simps own_def)

lemma account_closings_actions [simp]: "account (add_mset x (R + own fd)) (closings fd) = Some (add_mset x R)"
  using account_closings [of "add_mset x R"] by simp

text \<open>Both ends of the pipe and the file actions, with the writing end closed before the reading end is read.\<close>

lemma account_pipe:
  "account (R + {#Held_actions#} + own r + own w) (closings w @ closings r @ [Actions_destroy]) = Some R"
  "account (R + {#Held_actions#} + own r + own w) (closings w @ Descriptor (Read_from r) # closings r @ [Actions_destroy]) = Some R"
  by (simp_all add: account_append subset_mset.add_increasing)

interpretation accounts: trace_property settled
proof
  show "settled (xs @ ys)" if "settled xs" "settled ys" for xs ys using that by (simp add: settled_def account_append)
  show "settled [x]" if "ordinary x" for x using that by (cases x) (simp_all add: settled_def)
  show "settled outs" if "outs \<in> spawn_failures pipe" for outs pipe
    using that account_pipe by (auto simp: spawn_failures_def settled_def split: syscall.splits)
  show "settled outs" if "outs \<in> spawn_runs prog args capture pipe" for outs prog args capture pipe
    using that account_pipe by (auto simp: spawn_runs_def settled_def split: syscall.splits if_splits)
  show "settled (Descriptor (Opened fd) # outs @ closings fd)" if "settled outs" for outs fd
    using that by (simp add: settled_def account_append)
qed (simp add: settled_def)

lemma settled_run_and_report: "obeys settled (run_and_report L env name config)"
proof -
  have e: "obeys settled (emitS (Relayed out))" for out by (simp add: obeys_def emitted_def settled_def)
  show ?thesis unfolding run_and_report_def split_beta by (intro accounts.obeys_bind accounts.obeys_relay e accounts.obeys_emit) simp
qed

lemma settled_client_body: "obeys settled (client_body os L env opts server identity)"
  unfolding client_body_def
  by (intro obeys_intros handed_out_tun handed_out_udp settled_run_and_report) simp_all

lemma settled_server_body: "obeys settled (server_body os L env opts identity)"
  unfolding server_body_def
  by (intro obeys_intros handed_out_tun handed_out_udp settled_run_and_report) simp_all

lemma settled_client_main: "obeys settled (client_main os L env program args)"
  unfolding client_main_def
  by (auto intro!: obeys_intros settled_client_body dest: client_stops split: sum.split)

lemma settled_server_main: "obeys settled (server_main os L env program args)"
  unfolding server_main_def
  by (auto intro!: obeys_intros settled_server_body dest: server_stops split: sum.split)

section \<open>Properties\<close>



text \<open>
  C26: a tool's output has an end. While the output of a tool is read, the program holds no descriptor of
  the pipe but the reading end: the tool was spawned and the program's own writing end, which would keep
  the kernel from reporting the end of the output, closed before the first read.
\<close>

theorem output_has_an_end:
  assumes "spawn_and_wait os prog args capture h = Some (r, h')" and "ho_out h' = ho_out h @ pre @ Descriptor (Read_from fd) # post"
  shows "\<exists>w. capture \<and> os_pipe2 os (ho_world h) = Sys_ok (fd, w) \<and> Spawned prog args \<in> set pre \<and>
    account {#} pre = Some ({#Held_actions#} + own fd)"
proof -
  let ?outs = "pre @ Descriptor (Read_from fd) # post" and ?pipe = "os_pipe2 os (ho_world h)"
  have "ensures (spawn_and_wait os prog args capture) h (\<lambda>e. emitted h (\<lambda>outs. outs \<in> spawn_failures ?pipe \<union> spawn_runs prog args capture ?pipe))
      (\<lambda>x. emitted h (\<lambda>outs. outs \<in> spawn_failures ?pipe \<union> spawn_runs prog args capture ?pipe))"
    by (rule ensures_mono [OF spawn_and_wait_traces]) (auto simp: emitted_def)
  then have "?outs \<in> spawn_failures ?pipe \<union> spawn_runs prog args capture ?pipe"
    using assms by (cases r) (auto simp: emitted_def dest: ensuresD)
  moreover have no: "Descriptor (Read_from x) \<notin> set (closings y)" for x y by (auto simp: closings_def)
  then have "Descriptor (Read_from fd) \<notin> set outs" if "outs \<in> spawn_failures ?pipe" for outs
    using that by (auto simp: spawn_failures_def split: syscall.splits)
  then have "?outs \<notin> spawn_failures ?pipe" by force
  ultimately have run: "?outs \<in> spawn_runs prog args capture ?pipe" by blast
  then obtain w r' where p: "capture" "?pipe = Sys_ok (r', w)"
    by (cases ?pipe) (auto simp: spawn_runs_def Cons_eq_append_conv append_eq_Cons_conv split: if_splits)
  let ?before = "[Actions_init, Descriptor (Opened r'), Descriptor (Opened w), Spawned prog args] @ closings w"
  have outs: "?outs = ?before @ Descriptor (Read_from r') # closings r' @ [Actions_destroy]" using run p by (simp add: spawn_runs_def)
  then have "Descriptor (Read_from fd) \<in> set (?before @ Descriptor (Read_from r') # closings r' @ [Actions_destroy])" by (metis in_set_conv_decomp)
  with no have "r' = fd" by auto
  moreover have "pre = ?before" using outs no \<open>r' = fd\<close> append_Cons_eq_iff [of "Descriptor (Read_from fd)" ?before "closings r' @ [Actions_destroy]" pre post]
    by simp
  ultimately show ?thesis using p by (simp add: account_append)
qed

theorem output_has_an_end_witness:
  "\<exists>h'. spawn_and_wait demo_os ''/sbin/ip'' [''route'', ''get'', ''1.1.1.1''] True demo_host = Some (Inr ''10.0.0.1 via 10.1.0.1 dev eth0'', h') \<and>
     account {#} (takeWhile (\<lambda>x. x \<noteq> Descriptor (Read_from 3)) (ho_out h')) = Some ({#Held_actions#} + own 3)"
proof -
  let ?args = "[''route'', ''get'', ''1.1.1.1'']"
  have x: "demo_exec w ?args = (True, w)" for w by (simp add: demo_exec_def demo_entry_none)
  have "take 4096 (demo_output ?args) = ''10.0.0.1 via 10.1.0.1 dev eth0''" by (simp add: demo_output_def)
  then obtain h' where h: "spawn_and_wait demo_os ''/sbin/ip'' ?args True demo_host = Some (Inr ''10.0.0.1 via 10.1.0.1 dev eth0'', h')"
      "ho_out h' = demo_outs ''/sbin/ip'' ?args True"
    by (auto simp: demo_spawn x demo_host_def simp del: take_Cons_numeral)
  then have "ho_out h' = ho_out demo_host @ takeWhile (\<lambda>x. x \<noteq> Descriptor (Read_from 3)) (ho_out h') @
      Descriptor (Read_from 3) # [Descriptor (Closed 3), Actions_destroy]" by (simp add: demo_outs_def demo_host_def)
  from output_has_an_end [OF h(1) this] h(1) show ?thesis by blast
qed

end
