(* ===== verification/Spec2Isabelle.thy ===== *)
theory Spec2Isabelle
  imports Wire Replay_Window Noise_Protocol Session Fd Fuzz Delivery Bounds Descriptors
begin

text \<open>
  \<^bold>\<open>A point-to-point VPN in user space.\<close>

  The program is a tunnel between two hosts. The client \<^verbatim>\<open>vpn\<close> and the server \<^verbatim>\<open>vpnd\<close> each open a tun
  device and a UDP socket; a relay loop seals every packet of the device into a datagram for the peer
  and writes the content of every valid datagram of the peer to the device. The keys of a session come
  from the Noise IK handshake of WireGuard; static keys are made with \<^verbatim>\<open>vpnkey\<close>. Around the relay, the
  programs configure the host with \<^verbatim>\<open>ip\<close>, \<^verbatim>\<open>iptables\<close> and \<^verbatim>\<open>ip6tables\<close> and undo what they changed. The
  files named below are under \<^verbatim>\<open>src/src\<close>, the fuzz targets under \<^verbatim>\<open>src/test/fuzz\<close>.

  \<^bold>\<open>The theories, from the bottom.\<close>

  \<^item> \<open>Prelude\<close>: bytes and words, little-endian encoding, spans of buffers (\<open>subspan\<close>, \<open>blit\<close>), the
    exceptions \<open>exn\<close> and the result type \<open>exn + 'a\<close> with its sequencing.
  \<^item> \<open>Wire\<close>: \<^verbatim>\<open>wire.h\<close>, \<^verbatim>\<open>wire.cpp\<close>. Every offset with the static assertions, the four messages as records, \<open>decode\<close>, the encoders
    and the MAC accessors, the padding and the length check of the inner IPv4 packet. Encoding and
    decoding are inverse in both directions; the datagrams accepted are characterised; encoders never
    write outside the message. The locale \<open>message_codec\<close> is interpreted for each message type.
  \<^item> \<open>Crypto\<close>: \<^verbatim>\<open>crypto.h\<close>, \<^verbatim>\<open>crypto.cpp\<close>. libsodium and libb2 are the record \<open>crypto_lib\<close>, an argument of
    every definition; \<open>crypto_ok\<close> and \<open>aead_authentic\<close> are the laws they document, and \<open>demo_lib\<close> is an
    instance that satisfies them. The wrappers with their errors, HMAC and the key derivation against
    their reference definitions, nonces and timestamps.
  \<^item> \<open>Noise\<close>, \<open>Noise_Protocol\<close>: \<^verbatim>\<open>noise.h\<close>, \<^verbatim>\<open>noise.cpp\<close>, \<^verbatim>\<open>secure_buf.h\<close>. Identities and their loading, the
    timestamp guard, the four handshake operations, with early returns and wiping. Two peers agree on
    mirrored keys; a message is accepted exactly if it is the peer's protocol message; initiations are
    not accepted twice (by the locale \<open>high_water\<close>, interpreted for the guard).
  \<^item> \<open>Replay_Window\<close>, \<open>Session\<close>: \<^verbatim>\<open>session.h\<close>, \<^verbatim>\<open>session.cpp\<close>. The bitmap window at 64 bits, with the
    clearing loop as a partial function; it refines an unbounded history (locale \<open>replay_filter\<close>). Sealing
    and opening of packets and the uniqueness of counters over any interleaving.
  \<^item> \<open>Args\<close>, \<open>Udp\<close>, \<open>Tun\<close>, \<open>Fd\<close>: \<^verbatim>\<open>args.h\<close>, \<^verbatim>\<open>udp.h\<close>, \<^verbatim>\<open>udp.cpp\<close>, \<^verbatim>\<open>tun.h\<close>, \<^verbatim>\<open>tun.cpp\<close>, \<^verbatim>\<open>fd.h\<close>. The number and
    endpoint parsers, the socket and device loops over the kernel's answers, and the descriptor owner
    with its moves; every adopted descriptor is closed exactly once.
  \<^item> \<open>Relay\<close>, \<open>Relay_Steps\<close>, \<open>Relay_Protocol\<close>: \<^verbatim>\<open>relay.h\<close>, \<^verbatim>\<open>relay.cpp\<close>. The whole of \<^verbatim>\<open>run_relay\<close>: its local
    variables are the record \<open>relay\<close>, what a step reads from the outside (random bytes, clocks, the
    answers of the kernel) the record \<open>step_env\<close>, and sends, device writes and log lines its output.
    \<open>relay_ok\<close> is the invariant. Two relays complete a handshake and carry packets, also after the
    client has moved; datagrams that are not genuine change nothing but a statistic; no traffic stops
    the loop before a signal; the loop is a run of single steps.
  \<^item> \<open>Bounds\<close>: the sizes of the datagrams and packets that leave a relay over any run.
  \<^item> \<open>Tunnel\<close>, \<open>Delivery\<close>: two relays and an attacker's network as a transition system, from the start of
    the programs over any number of sessions; what is written to one device was taken from the other,
    with multiplicity, and no key and counter seal two packets. On a network that only delays, drops and
    reorders, the packets of the datagrams that arrive are delivered.
  \<^item> \<open>Fuzz\<close>: \<^verbatim>\<open>decode_fuzz.cpp\<close>, \<^verbatim>\<open>handshake_fuzz.cpp\<close>, \<^verbatim>\<open>session_fuzz.cpp\<close>. A target is a function from
    an input to a verdict; it passes on every input that is not authentic.
  \<^item> \<open>Netcfg\<close>, \<open>Netcfg_Logic\<close>, \<open>Netcfg_Properties\<close>: \<^verbatim>\<open>netcfg.h\<close>, \<^verbatim>\<open>netcfg.cpp\<close>. The operating system is the
    record \<open>os\<close>, an argument; the state \<open>host\<close> is the unknown state of the machine and the list of
    everything the code did to it. Running a tool with its pipe and every error path, the scoped changes
    and their undo, routes, the IPv6 block and the NAT. \<open>yields\<close> and \<open>ensures\<close> are total and partial correctness;
    \<open>tools_ok\<close> is what is assumed of the tools, satisfied by \<open>demo_os\<close>.
  \<^item> \<open>Programs\<close>, \<open>Programs_Properties\<close>: \<^verbatim>\<open>vpn.cpp\<close>, \<^verbatim>\<open>vpnd.cpp\<close>, \<^verbatim>\<open>vpnkey.cpp\<close>. The option
    loops (locale \<open>option_loop\<close>, interpreted for both programs), the usage texts, the bodies with the destruction of every
    local object on every way out (\<open>scopeS\<close>), and the key tool. The programs leave the host as they found
    it; the keys of two hosts made with the tool fit together.
  \<^item> \<open>Trace\<close>, \<open>Programs_Trace\<close>, \<open>Descriptors\<close>: what the programs report, in order. The locale \<open>trace_property\<close>
    carries a property of reports from the single messages to whole programs; it is interpreted for the
    absence of the relay and for the accounting of resources. The relays of client and server never run
    before the set-up is complete, nor the client's with IPv6 silently outside the tunnel; every
    descriptor the programs are handed is given back exactly once, and while the output of a tool is
    read the program does not hold the writing end of its pipe.

  \<^bold>\<open>Conventions.\<close> A class or struct is a record, a constructor \<open>X_init\<close> or \<open>make_X\<close>, a destructor
  \<open>X_destroy\<close>; a method returns the changed object. Buffers are byte lists, an out parameter is
  returned. Sizes and counters that can wrap are words of their width; \<^verbatim>\<open>size_t\<close> and \<^verbatim>\<open>uint64_t\<close> are 64 bits.
  \<open>exn + 'a\<close> is a call that returns or throws; \<open>option\<close> around it is a loop that has not returned.

  \<^bold>\<open>Loops and bounds.\<close> Loops over the answers of the kernel recurse over the list of answers and return
  \<open>None\<close> when it is used up; that a call returns is then a theorem under a hypothesis on the answers
  (for the relay, that every burst drains and a signal arrives; for the tools, \<open>responsive\<close>). The clearing
  loop of the window can run forever and is a partial function; it is shown to return for every counter
  the window accepts. All other loops are structural. There is no fuel.

  \<^bold>\<open>What is assumed.\<close> Of the cryptographic library, the correctness of its operations (\<open>crypto_ok\<close>), that a
  ciphertext that verifies is the encryption of its plaintext (\<open>aead_authentic\<close>), and for the key tool
  that base64 is inverted by its decoder (\<open>base64_ok\<close>). Secrecy and the hardness of forging are not
  expressed: statements about an attacker quantify over datagrams that do not verify, and the attacker of
  \<open>Tunnel\<close> may do anything but present data that verifies under the current keys without having been
  sealed under them (\<open>forged\<close>); there a handshake yields a sending key the side has not used before. Of the system's
  tools, that a deletion takes back an addition, that queries change nothing and that every call
  returns (\<open>tools_ok\<close>).

  \<^bold>\<open>Not modelled.\<close> The guard pages and the locking of the memory \<^verbatim>\<open>sodium_malloc\<close> gives a long-term key, beyond
  the success of the allocation, as they have no effect the program can observe; the wording of the key diagnostics, which are a datatype;
  the assertions of \<^verbatim>\<open>crypto.cpp\<close> on the constants of the library's headers; allocation failure; the
  unit tests, which evaluate the code at single points. What remains of the headers is declarations of the
  functions modelled. The libraries and the kernel are arguments.
\<close>

end
